theory Spec2Isabelle
  imports Complex_Main "HOL-Library.Word"
begin

unbundle bit_operations_syntax

section \<open>Data model (types.hpp)\<close>

text \<open>
  A \<^verbatim>\<open>steady_clock::time_point\<close> is the integer number of nanoseconds since the
  clock's epoch (the representation of libstdc++ and libc++); the 64-bit range of the
  representation is not modelled.
\<close>

type_synonym time_point = int

subsection \<open>double\<close>

text \<open>
  A \<^verbatim>\<open>double\<close> is the real number it denotes, and an arithmetic operation on doubles
  returns the exact result rounded to the nearest binary64 number, ties to the even
  significand: \<open>rne\<close> rounds to the nearest integer, ties to even; the unit in the last
  place of a value with binary exponent \<open>e\<close> is two to the power \<open>e - 52\<close>, the
  exponent being held at -1022 for the subnormal values. Comparisons, negation and
  \<^verbatim>\<open>std::abs\<close> are exact. Results of magnitude \<open>2 ^ 1024\<close> and more, the infinities
  and NaN are outside the model.
\<close>

definition rne :: "real \<Rightarrow> int" where
  "rne r =
     (let n = \<lfloor>r\<rfloor>; d = r - of_int n in
      if d < 1 / 2 then n
      else if 1 / 2 < d then n + 1
      else if even n then n else n + 1)"

text \<open>
  \<open>pow2 e\<close> is two to the power \<open>e\<close>. The binary exponent of a value is the greatest
  \<open>e\<close> with \<open>pow2 e\<close> not above its magnitude, and -1022 for the subnormal values and
  zero; no \<open>e\<close> above the magnitude itself can do, so the search starts there and goes
  down: \<open>exponent_from n x\<close> tries the exponents from \<open>n - 1022\<close> down to -1021 and
  falls back on -1022. For a value other than zero the exponent is the integer part of
  the binary logarithm of the magnitude, or -1022 if that is greater (lemma
  \<open>exponent_log\<close>).
\<close>

definition pow2 :: "int \<Rightarrow> real" where
  "pow2 e = (if 0 \<le> e then 2 ^ nat e else 1 / 2 ^ nat (- e))"

primrec exponent_from :: "nat \<Rightarrow> real \<Rightarrow> int" where
  "exponent_from 0 x = - 1022"
| "exponent_from (Suc n) x =
     (if pow2 (int n - 1021) \<le> \<bar>x\<bar> then int n - 1021 else exponent_from n x)"

definition exponent :: "real \<Rightarrow> int" where
  "exponent x = exponent_from (nat \<lceil>\<bar>x\<bar>\<rceil> + 1022) x"

definition ulp :: "real \<Rightarrow> real" where
  "ulp x = pow2 (exponent x - 52)"

definition fl :: "real \<Rightarrow> real" where
  "fl x = (if x = 0 then 0 else of_int (rne (x / ulp x)) * ulp x)"

definition dadd :: "real \<Rightarrow> real \<Rightarrow> real" where
  "dadd x y = fl (x + y)"

definition dsub :: "real \<Rightarrow> real \<Rightarrow> real" where
  "dsub x y = fl (x - y)"

definition dmul :: "real \<Rightarrow> real \<Rightarrow> real" where
  "dmul x y = fl (x * y)"

definition ddiv :: "real \<Rightarrow> real \<Rightarrow> real" where
  "ddiv x y = fl (x / y)"

subsection \<open>The structures\<close>

record SenseInfo =
  measured_velocity :: real
  measured_x :: real
  is_flinching :: bool
  is_knee_jerking :: bool
  ts :: time_point

record ActuateCmd =
  velocity :: real

datatype Return = Running | Success | Fail

text \<open>The member \<^verbatim>\<open>Outcome::value\<close> is the field \<open>out_value\<close>.\<close>

record Outcome =
  out_value :: Return
  actuate :: ActuateCmd

text \<open>
  \<^verbatim>\<open>Outcome o;\<close> runs the default member initialisers: \<^verbatim>\<open>value{Return::Fail}\<close> and
  \<^verbatim>\<open>actuate{}\<close>, which value-initialises the velocity to zero.
\<close>

definition Outcome_default :: Outcome where
  "Outcome_default = \<lparr>out_value = Fail, actuate = \<lparr>velocity = 0\<rparr>\<rparr>"

text \<open>
  \<^verbatim>\<open>SenseInfo sense;\<close>: every member has an initialiser or a default constructor; the
  time point starts at the epoch.
\<close>

definition SenseInfo_default :: SenseInfo where
  "SenseInfo_default =
     \<lparr>measured_velocity = 0, measured_x = 0, is_flinching = False,
      is_knee_jerking = False, ts = 0\<rparr>"

text \<open>A \<^verbatim>\<open>const char *\<close> is a string or the null pointer.\<close>

record ElementMeta =
  name :: "string option"

datatype MessengerSvc = MessengerSvc
datatype ReactionSvc = ReactionSvc

record Services =
  messenger :: MessengerSvc
  reaction_svc :: ReactionSvc

definition Services_default :: Services where
  "Services_default = \<lparr>messenger = MessengerSvc, reaction_svc = ReactionSvc\<rparr>"

datatype ReactionDef = ReactionDef_REQUIRED | ReactionDef_DISABLED | ReactionDef_ENABLED

fun ReactionDef_int :: "ReactionDef \<Rightarrow> int" where
  "ReactionDef_int ReactionDef_REQUIRED = - 1"
| "ReactionDef_int ReactionDef_DISABLED = 0"
| "ReactionDef_int ReactionDef_ENABLED = 1"

subsection \<open>Observable effects\<close>

text \<open>
  A message handed to \<^verbatim>\<open>MessengerSvc::notify\<close> is a concatenation of string literals and
  of \<^verbatim>\<open>std::to_string\<close> of a double; the decimal rendering is left symbolic.
\<close>

datatype fragment = Str string | Num real

type_synonym message = "fragment list"

text \<open>
  Every method returns, next to its result and the new state, the trace of what it did:
  the calls on the two services, and one node for each call through a
  \<^verbatim>\<open>BehaviorElement\<close> reference or to a statically overridable method of a
  \<^verbatim>\<open>MotionElement\<close>. A node holds the arguments, the trace of the callee and the value
  returned, so the calls a method makes itself are the nodes at the top level of its trace.
\<close>

datatype event =
    Notify "string option" message
  | Activate "32 word"
  | Release "32 word"
  | Call_initialize nat "event list" ElementMeta
  | Call_tick nat SenseInfo "event list" Outcome
  | Call_finalize nat "event list"
  | Call_motion_element_initialize "event list" ElementMeta
  | Call_motion_element_data_initialize SenseInfo "event list"
  | Call_motion_element_tick SenseInfo "event list" Outcome
  | Call_motion_element_finalize "event list"

text \<open>The references on which a trace calls initialize, tick (with the Outcome) and finalize.\<close>

fun child_inits :: "event list \<Rightarrow> nat list" where
  "child_inits [] = []"
| "child_inits (Call_initialize a evs m # es) = a # child_inits es"
| "child_inits (e # es) = child_inits es"

fun child_ticks :: "event list \<Rightarrow> (nat \<times> Outcome) list" where
  "child_ticks [] = []"
| "child_ticks (Call_tick a s evs out # es) = (a, out) # child_ticks es"
| "child_ticks (e # es) = child_ticks es"

fun child_finals :: "event list \<Rightarrow> nat list" where
  "child_finals [] = []"
| "child_finals (Call_finalize a evs # es) = a # child_finals es"
| "child_finals (e # es) = child_finals es"

section \<open>BehaviorElement (element.hpp)\<close>

text \<open>
  The abstract class is the table of its three virtual methods over the state \<open>'s\<close> of
  the object (and of everything the object refers to).
\<close>

record 's BehaviorElement =
  initialize :: "Services \<Rightarrow> 's \<Rightarrow> ElementMeta \<times> 's \<times> event list"
  tick :: "SenseInfo \<Rightarrow> 's \<Rightarrow> Outcome \<times> 's \<times> event list"
  finalize :: "'s \<Rightarrow> 's \<times> event list"

section \<open>SequenceElement\<close>

text \<open>
  The sequence holds references to its children. A reference is an address in a store of
  child objects, \<open>m_elements\<close> is the vector of addresses and \<open>m_iter\<close> the position of
  the iterator in it, the length of the vector standing for \<^verbatim>\<open>end()\<close>. The children
  are objects of one type \<open>'o\<close> with method table \<open>vt\<close>.
\<close>

record SequenceElement =
  m_svcs :: Services
  m_elements :: "nat list"
  m_iter :: nat
  m_new_element :: bool
  m_meta :: ElementMeta

definition SequenceElement_initialize ::
  "Services \<Rightarrow> SequenceElement \<times> (nat \<Rightarrow> 'o) \<Rightarrow>
   ElementMeta \<times> (SequenceElement \<times> (nat \<Rightarrow> 'o)) \<times> event list" where
  "SequenceElement_initialize svc qh =
     (case qh of (q, h) \<Rightarrow>
        (\<lparr>name = Some ''Sequence''\<rparr>,
         (q\<lparr>m_svcs := svc, m_iter := 0, m_new_element := True\<rparr>, h), []))"

definition SequenceElement_tick ::
  "'o BehaviorElement \<Rightarrow> SenseInfo \<Rightarrow> SequenceElement \<times> (nat \<Rightarrow> 'o) \<Rightarrow>
   Outcome \<times> (SequenceElement \<times> (nat \<Rightarrow> 'o)) \<times> event list" where
  "SequenceElement_tick vt s qh =
     (case qh of (q, h) \<Rightarrow>
      let o0 = Outcome_default\<lparr>out_value := Running\<rparr> in
      if m_iter q \<noteq> length (m_elements q) then
        let a = m_elements q ! m_iter q in
        case (if m_new_element q
              then (case initialize vt (m_svcs q) (h a) of
                      (m, c, evi) \<Rightarrow>
                        (q\<lparr>m_meta := m, m_new_element := False\<rparr>, h(a := c),
                         [Call_initialize a evi m, Notify (name m) [Str ''initialize'']]))
              else (q, h, [])) of
          (q1, h1, ev1) \<Rightarrow>
        let ev2 = ev1 @ [Notify (name (m_meta q1)) [Str ''tick'']] in
        case tick vt s (h1 a) of
          (cur_o, c2, evt) \<Rightarrow>
        let h2 = h1(a := c2);
            ev3 = ev2 @ [Call_tick a s evt cur_o] in
        if out_value cur_o \<noteq> Running then
          case finalize vt (h2 a) of
            (c3, evf) \<Rightarrow>
          let h3 = h2(a := c3);
              ev4 = ev3 @ [Call_finalize a evf, Notify (name (m_meta q1)) [Str ''finalize'']];
              q2 = q1\<lparr>m_new_element := True, m_iter := m_iter q1 + 1\<rparr> in
          if m_iter q2 \<noteq> length (m_elements q2) then
            if out_value cur_o = Fail then (cur_o, (q2, h3), ev4)
            else (o0\<lparr>out_value := Running, actuate := actuate cur_o\<rparr>, (q2, h3), ev4)
          else (cur_o, (q2, h3), ev4)
        else (cur_o, (q1, h2), ev3)
      else (o0\<lparr>out_value := Fail\<rparr>, (q, h), []))"

definition SequenceElement_finalize ::
  "SequenceElement \<times> (nat \<Rightarrow> 'o) \<Rightarrow> (SequenceElement \<times> (nat \<Rightarrow> 'o)) \<times> event list" where
  "SequenceElement_finalize qh = (qh, [])"

definition SequenceElement_class ::
  "'o BehaviorElement \<Rightarrow> (SequenceElement \<times> (nat \<Rightarrow> 'o)) BehaviorElement" where
  "SequenceElement_class vt =
     \<lparr>initialize = SequenceElement_initialize,
      tick = SequenceElement_tick vt,
      finalize = SequenceElement_finalize\<rparr>"

section \<open>MotionElement\<close>

text \<open>
  The class template \<^verbatim>\<open>MotionElement<Derived>\<close> takes from \<open>Derived\<close> three
  compile-time traits and four static methods; the record below is what a derived class
  supplies, over the type \<open>'d\<close> of its own data members. The static methods receive the
  derived object by reference, so they return its new value, and the trace of the
  notifications they send.
\<close>

record 'd Derived =
  NAME :: "string option"
  KNEE_JERK_REACTION :: ReactionDef
  FLINCH_REACTION :: ReactionDef
  motion_element_initialize :: "'d \<Rightarrow> ElementMeta \<times> 'd \<times> event list"
  motion_element_finalize :: "'d \<Rightarrow> 'd \<times> event list"
  motion_element_data_initialize :: "'d \<Rightarrow> SenseInfo \<Rightarrow> 'd \<times> event list"
  motion_element_tick :: "'d \<Rightarrow> SenseInfo \<Rightarrow> Outcome \<times> 'd \<times> event list"

text \<open>The three methods a derived class may leave as the template defines them.\<close>

definition MotionElement_motion_element_initialize ::
  "string option \<Rightarrow> 'd \<Rightarrow> ElementMeta \<times> 'd \<times> event list" where
  "MotionElement_motion_element_initialize nm me = (\<lparr>name = nm\<rparr>, me, [])"

definition MotionElement_motion_element_finalize :: "'d \<Rightarrow> 'd \<times> event list" where
  "MotionElement_motion_element_finalize me = (me, [])"

definition MotionElement_motion_element_data_initialize ::
  "'d \<Rightarrow> SenseInfo \<Rightarrow> 'd \<times> event list" where
  "MotionElement_motion_element_data_initialize me sense = (me, [])"

text \<open>
  The three \<^verbatim>\<open>static_assert\<close>s of \<^verbatim>\<open>initialize\<close>: a derived class that fails one
  of them does not compile.
\<close>

definition static_asserts :: "'d Derived \<Rightarrow> bool" where
  "static_asserts D =
     (NAME D \<noteq> None \<and> FLINCH_REACTION D \<noteq> ReactionDef_REQUIRED \<and>
      KNEE_JERK_REACTION D \<noteq> ReactionDef_REQUIRED)"

record 'd MotionElement =
  m_services :: Services
  m_first_tick :: bool
  derived :: 'd

text \<open>
  \<^verbatim>\<open>KNEE_JERK_REACTION << 0 | FLINCH_REACTION << 1\<close>, computed on \<^verbatim>\<open>int\<close> and
  converted to \<^verbatim>\<open>uint32_t\<close>.
\<close>

definition get_reaction_defs :: "'d Derived \<Rightarrow> 32 word" where
  "get_reaction_defs D =
     word_of_int (push_bit 0 (ReactionDef_int (KNEE_JERK_REACTION D)) OR
                  push_bit 1 (ReactionDef_int (FLINCH_REACTION D)))"

definition MotionElement_initialize ::
  "'d Derived \<Rightarrow> Services \<Rightarrow> 'd MotionElement \<Rightarrow>
   ElementMeta \<times> 'd MotionElement \<times> event list" where
  "MotionElement_initialize D svc me =
     (let me1 = me\<lparr>m_first_tick := True, m_services := svc\<rparr>;
          ev1 = [Activate (get_reaction_defs D)] in
      case motion_element_initialize D (derived me1) of
        (meta, d, evs) \<Rightarrow>
          (meta, me1\<lparr>derived := d\<rparr>, ev1 @ [Call_motion_element_initialize evs meta]))"

definition MotionElement_tick ::
  "'d Derived \<Rightarrow> SenseInfo \<Rightarrow> 'd MotionElement \<Rightarrow>
   Outcome \<times> 'd MotionElement \<times> event list" where
  "MotionElement_tick D sense me =
     (case (if m_first_tick me
            then (case motion_element_data_initialize D (derived me) sense of
                    (d, evs) \<Rightarrow>
                      (me\<lparr>m_first_tick := False, derived := d\<rparr>,
                       [Call_motion_element_data_initialize sense evs]))
            else (me, [])) of
        (me1, ev1) \<Rightarrow>
      case motion_element_tick D (derived me1) sense of
        (out, d, evs) \<Rightarrow>
          (out, me1\<lparr>derived := d\<rparr>, ev1 @ [Call_motion_element_tick sense evs out]))"

definition MotionElement_finalize ::
  "'d Derived \<Rightarrow> 'd MotionElement \<Rightarrow> 'd MotionElement \<times> event list" where
  "MotionElement_finalize D me =
     (case motion_element_finalize D (derived me) of
        (d, evs) \<Rightarrow>
          (me\<lparr>derived := d\<rparr>,
           [Call_motion_element_finalize evs, Release (get_reaction_defs D)]))"

definition MotionElement_class :: "'d Derived \<Rightarrow> 'd MotionElement BehaviorElement" where
  "MotionElement_class D =
     \<lparr>initialize = MotionElement_initialize D,
      tick = MotionElement_tick D,
      finalize = MotionElement_finalize D\<rparr>"

text \<open>A MotionElement as its member initialisers leave it, around the derived members.\<close>

definition MotionElement_new :: "'d \<Rightarrow> 'd MotionElement" where
  "MotionElement_new d = \<lparr>m_services = Services_default, m_first_tick = True, derived = d\<rparr>"

section \<open>The leaves of main.cpp\<close>

subsection \<open>Stop\<close>

definition epsilon :: real where
  "epsilon = 1 / 2 ^ 52"

definition Stop_motion_element_tick ::
  "unit \<Rightarrow> SenseInfo \<Rightarrow> Outcome \<times> unit \<times> event list" where
  "Stop_motion_element_tick me sense =
     (let out = Outcome_default;
          is_zero = (epsilon \<ge> \<bar>measured_velocity sense\<bar>);
          out1 = out\<lparr>out_value := (if is_zero then Success else Running)\<rparr>;
          out2 = out1\<lparr>actuate := (actuate out1)\<lparr>velocity := 0\<rparr>\<rparr> in
      (out2, me, []))"

definition Stop :: "unit Derived" where
  "Stop =
     \<lparr>NAME = Some ''Stop'',
      KNEE_JERK_REACTION = ReactionDef_ENABLED,
      FLINCH_REACTION = ReactionDef_ENABLED,
      motion_element_initialize = MotionElement_motion_element_initialize (Some ''Stop''),
      motion_element_finalize = MotionElement_motion_element_finalize,
      motion_element_data_initialize = MotionElement_motion_element_data_initialize,
      motion_element_tick = Stop_motion_element_tick\<rparr>"

subsection \<open>WalkToPosition\<close>

record WalkToPosition_members =
  goal_x :: real
  init_ts :: time_point

definition WalkToPosition_new :: "real \<Rightarrow> WalkToPosition_members MotionElement" where
  "WalkToPosition_new goal = MotionElement_new \<lparr>goal_x = goal, init_ts = 0\<rparr>"

definition WalkToPosition_motion_element_data_initialize ::
  "WalkToPosition_members \<Rightarrow> SenseInfo \<Rightarrow> WalkToPosition_members \<times> event list" where
  "WalkToPosition_motion_element_data_initialize me s = (me\<lparr>init_ts := ts s\<rparr>, [])"

definition MY_VELO :: real where
  "MY_VELO = 1"

text \<open>The literal \<^verbatim>\<open>0.1\<close>: the double nearest to one tenth.\<close>

definition GOAL_THRESHOLD :: real where
  "GOAL_THRESHOLD = fl (1 / 10)"

text \<open>60000 milliseconds, in the nanoseconds of the clock.\<close>

definition TIMEOUT :: int where
  "TIMEOUT = 60000 * 1000000"

definition WalkToPosition_motion_element_tick ::
  "WalkToPosition_members \<Rightarrow> SenseInfo \<Rightarrow> Outcome \<times> WalkToPosition_members \<times> event list"
  where
  "WalkToPosition_motion_element_tick me s =
     (let out = Outcome_default;
          out1 = out\<lparr>actuate := (actuate out)\<lparr>velocity := MY_VELO\<rparr>\<rparr>;
          out2 = out1\<lparr>out_value := Running\<rparr>;
          dist_x = dsub (goal_x me) (measured_x s);
          out3 = out2\<lparr>actuate :=
                   (actuate out2)\<lparr>velocity := (if dist_x \<ge> 0 then MY_VELO else - MY_VELO)\<rparr>\<rparr>
      in
      if \<bar>dist_x\<bar> < GOAL_THRESHOLD then
        (out3\<lparr>out_value := Success\<rparr>, me,
         [Notify (Some ''WalkToPosition'') [Str ''goal reached'']])
      else if ts s - init_ts me > TIMEOUT then
        (out3\<lparr>out_value := Fail\<rparr>, me,
         [Notify (Some ''WalkToPosition'') [Str ''timeout'']])
      else if is_knee_jerking s then
        (out3\<lparr>actuate := (actuate out3)\<lparr>velocity := 0\<rparr>\<rparr>, me, [])
      else
        (out3, me,
         [Notify (Some ''WalkToPosition'')
            [Str ''velocity='', Num (velocity (actuate out3)),
             Str '' pos='', Num (measured_x s),
             Str '' dist='', Num dist_x,
             Str '' goal='', Num (goal_x me)]]))"

definition WalkToPosition :: "WalkToPosition_members Derived" where
  "WalkToPosition =
     \<lparr>NAME = Some ''WalkToPosition'',
      KNEE_JERK_REACTION = ReactionDef_ENABLED,
      FLINCH_REACTION = ReactionDef_DISABLED,
      motion_element_initialize =
        MotionElement_motion_element_initialize (Some ''WalkToPosition''),
      motion_element_finalize = MotionElement_motion_element_finalize,
      motion_element_data_initialize = WalkToPosition_motion_element_data_initialize,
      motion_element_tick = WalkToPosition_motion_element_tick\<rparr>"

subsection \<open>The objects of main\<close>

text \<open>
  The two leaves that \<^verbatim>\<open>main\<close> declares are objects of two classes; a reference to a
  \<^verbatim>\<open>BehaviorElement\<close> dispatches on the class of the object it refers to.
\<close>

datatype leaf =
    Stop_object "unit MotionElement"
  | WalkToPosition_object "WalkToPosition_members MotionElement"

definition leaf_initialize :: "Services \<Rightarrow> leaf \<Rightarrow> ElementMeta \<times> leaf \<times> event list" where
  "leaf_initialize svc x =
     (case x of
        Stop_object me \<Rightarrow>
          (case MotionElement_initialize Stop svc me of
             (m, me1, evs) \<Rightarrow> (m, Stop_object me1, evs))
      | WalkToPosition_object me \<Rightarrow>
          (case MotionElement_initialize WalkToPosition svc me of
             (m, me1, evs) \<Rightarrow> (m, WalkToPosition_object me1, evs)))"

definition leaf_tick :: "SenseInfo \<Rightarrow> leaf \<Rightarrow> Outcome \<times> leaf \<times> event list" where
  "leaf_tick s x =
     (case x of
        Stop_object me \<Rightarrow>
          (case MotionElement_tick Stop s me of
             (out, me1, evs) \<Rightarrow> (out, Stop_object me1, evs))
      | WalkToPosition_object me \<Rightarrow>
          (case MotionElement_tick WalkToPosition s me of
             (out, me1, evs) \<Rightarrow> (out, WalkToPosition_object me1, evs)))"

definition leaf_finalize :: "leaf \<Rightarrow> leaf \<times> event list" where
  "leaf_finalize x =
     (case x of
        Stop_object me \<Rightarrow>
          (case MotionElement_finalize Stop me of (me1, evs) \<Rightarrow> (Stop_object me1, evs))
      | WalkToPosition_object me \<Rightarrow>
          (case MotionElement_finalize WalkToPosition me of
             (me1, evs) \<Rightarrow> (WalkToPosition_object me1, evs)))"

definition leaf_class :: "leaf BehaviorElement" where
  "leaf_class = \<lparr>initialize = leaf_initialize, tick = leaf_tick, finalize = leaf_finalize\<rparr>"

section \<open>Executor (executor.hpp)\<close>

text \<open>
  \<^verbatim>\<open>run\<close> takes a reference \<open>element\<close> to the root and the state \<open>st\<close> of what it
  refers to. The readings of \<^verbatim>\<open>steady_clock::now()\<close> are the environment's: \<open>clock k\<close>
  is the value of the \<open>k\<close>-th reading, the first one numbered 0. Sleeping has no effect
  but on the later readings.
\<close>

text \<open>The body of the do-while loop, for the reading \<open>now\<close> of the clock.\<close>

definition Executor_iteration ::
  "'s BehaviorElement \<Rightarrow> nat \<Rightarrow> ElementMeta \<Rightarrow> time_point \<Rightarrow> SenseInfo \<times> 's \<Rightarrow>
   Outcome \<times> (SenseInfo \<times> 's) \<times> event list" where
  "Executor_iteration vt element meta now x =
     (case x of (sense, st) \<Rightarrow>
      let sense1 = sense\<lparr>ts := now\<rparr>;
          ev1 = [Notify (name meta) [Str ''tick'']] in
      case tick vt sense1 st of
        (out, st1, evs) \<Rightarrow>
      let sense2 = sense1\<lparr>measured_x :=
                     dadd (measured_x sense1)
                       (ddiv (dmul (velocity (actuate out)) 100) 1000)\<rparr>;
          sense3 = sense2\<lparr>measured_velocity := velocity (actuate out)\<rparr> in
      (out, (sense3, st1), ev1 @ [Call_tick element sense1 evs out]))"

text \<open>
  The loop may run forever; the model counts iterations down from \<open>fuel\<close> and is
  \<open>None\<close> when the loop has not left within them.
\<close>

fun Executor_loop ::
  "nat \<Rightarrow> 's BehaviorElement \<Rightarrow> nat \<Rightarrow> ElementMeta \<Rightarrow> (nat \<Rightarrow> time_point) \<Rightarrow> nat \<Rightarrow>
   SenseInfo \<times> 's \<Rightarrow> (Outcome \<times> (SenseInfo \<times> 's) \<times> event list) option" where
  "Executor_loop 0 vt element meta clock k x = None"
| "Executor_loop (Suc fuel) vt element meta clock k x =
     (case Executor_iteration vt element meta (clock k) x of
        (out, x1, ev) \<Rightarrow>
          if out_value out = Running then
            (case Executor_loop fuel vt element meta clock (Suc k) x1 of
               None \<Rightarrow> None
             | Some (out', x2, ev') \<Rightarrow> Some (out', x2, ev @ ev'))
          else Some (out, x1, ev))"

text \<open>
  \<^verbatim>\<open>run\<close> returns nothing; the model returns the last Outcome, the last SenseInfo, the
  state of the element and the trace.
\<close>

definition Executor_run ::
  "nat \<Rightarrow> 's BehaviorElement \<Rightarrow> nat \<Rightarrow> (nat \<Rightarrow> time_point) \<Rightarrow> 's \<Rightarrow>
   (Outcome \<times> SenseInfo \<times> 's \<times> event list) option" where
  "Executor_run fuel vt element clock st =
     (let svc = Services_default;
          sense = SenseInfo_default\<lparr>ts := clock 0\<rparr> in
      case initialize vt svc st of
        (meta, st1, evi) \<Rightarrow>
      let ev1 = [Call_initialize element evi meta, Notify (name meta) [Str ''initialize'']] in
      case Executor_loop fuel vt element meta clock 1 (sense, st1) of
        None \<Rightarrow> None
      | Some (out, (sense1, st2), ev2) \<Rightarrow>
          (case finalize vt st2 of
             (st3, evf) \<Rightarrow>
               Some (out, sense1, st3,
                     ev1 @ ev2 @ [Call_finalize element evf,
                                  Notify (name meta) [Str ''finalize'']])))"

text \<open>
  The state of the loop before iteration \<open>n\<close> and the Outcome of iteration \<open>n\<close>, were
  the body repeated with no test; they say which iteration is the first to end the loop.
\<close>

fun Executor_before ::
  "'s BehaviorElement \<Rightarrow> nat \<Rightarrow> ElementMeta \<Rightarrow> (nat \<Rightarrow> time_point) \<Rightarrow> nat \<Rightarrow> nat \<Rightarrow>
   SenseInfo \<times> 's \<Rightarrow> SenseInfo \<times> 's" where
  "Executor_before vt element meta clock k 0 x = x"
| "Executor_before vt element meta clock k (Suc n) x =
     Executor_before vt element meta clock (Suc k) n
       (fst (snd (Executor_iteration vt element meta (clock k) x)))"

definition Executor_outcome ::
  "'s BehaviorElement \<Rightarrow> nat \<Rightarrow> ElementMeta \<Rightarrow> (nat \<Rightarrow> time_point) \<Rightarrow> nat \<Rightarrow> nat \<Rightarrow>
   SenseInfo \<times> 's \<Rightarrow> Outcome" where
  "Executor_outcome vt element meta clock k n x =
     fst (Executor_iteration vt element meta (clock (k + n))
            (Executor_before vt element meta clock k n x))"

section \<open>main\<close>

text \<open>
  The constructor of the sequence copies the vector it is given and leaves the iterator
  at the beginning of that vector, not of the copy (\<^verbatim>\<open>m_iter(el.begin())\<close>). Where
  this iterator stands with respect to the copy is not determined: it is the parameter
  \<open>it\<close>, and only \<open>initialize\<close> puts the iterator in the sequence's own vector.
\<close>

definition SequenceElement_new :: "nat list \<Rightarrow> nat \<Rightarrow> SequenceElement" where
  "SequenceElement_new el it =
     \<lparr>m_svcs = Services_default, m_elements = el, m_iter = it, m_new_element = True,
      m_meta = \<lparr>name = None\<rparr>\<rparr>"

text \<open>
  \<^verbatim>\<open>main\<close> declares \<open>stop\<close> and \<open>walk\<close>, here at the addresses 0 and 1, and the
  sequence of references to \<open>walk\<close> and \<open>stop\<close>.
\<close>

definition main_store :: "real \<Rightarrow> nat \<Rightarrow> leaf" where
  "main_store goal a =
     (if a = 1 then WalkToPosition_object (WalkToPosition_new goal)
      else Stop_object (MotionElement_new ()))"

definition main_sequence :: "nat \<Rightarrow> SequenceElement \<times> (nat \<Rightarrow> leaf)" where
  "main_sequence it = (SequenceElement_new [1, 0] it, main_store 4)"

text \<open>The sequence is the object at address 2; \<open>main\<close> waits for the run to return.\<close>

definition main_run ::
  "nat \<Rightarrow> (nat \<Rightarrow> time_point) \<Rightarrow> nat \<Rightarrow>
   (Outcome \<times> SenseInfo \<times> (SequenceElement \<times> (nat \<Rightarrow> leaf)) \<times> event list) option" where
  "main_run fuel clock it =
     Executor_run fuel (SequenceElement_class leaf_class) 2 clock (main_sequence it)"

section \<open>A caller that keeps the lifecycle\<close>

text \<open>
  \<open>drive\<close> ticks an element with the SenseInfos of a list, one after the other, and
  stops at the first Outcome that is not Running, as the Executor does; it returns the
  Outcome and the trace of every tick it made.
\<close>

fun drive ::
  "'s BehaviorElement \<Rightarrow> SenseInfo list \<Rightarrow> 's \<Rightarrow> (Outcome \<times> event list) list \<times> 's" where
  "drive vt [] st = ([], st)"
| "drive vt (s # ss) st =
     (case tick vt s st of
        (out, st1, ev) \<Rightarrow>
          if out_value out = Running then
            (case drive vt ss st1 of (r, st2) \<Rightarrow> ((out, ev) # r, st2))
          else ([(out, ev)], st1))"

section \<open>Callers and views of a trace\<close>

text \<open>
  \<open>ticks\<close> ticks an element with every SenseInfo of a list, whatever the Outcomes;
  \<open>lifecycle\<close> is one cycle of initialize, ticks and finalize on an object, and
  \<open>lifecycles\<close> a succession of cycles on the same object, with the trace of each.
\<close>

fun ticks ::
  "'s BehaviorElement \<Rightarrow> SenseInfo list \<Rightarrow> 's \<Rightarrow> Outcome list \<times> 's \<times> event list" where
  "ticks vt [] st = ([], st, [])"
| "ticks vt (s # ss) st =
     (case tick vt s st of
        (out, st1, ev) \<Rightarrow>
          (case ticks vt ss st1 of
             (outs, st2, evs) \<Rightarrow> (out # outs, st2, ev @ evs)))"

definition lifecycle ::
  "'s BehaviorElement \<Rightarrow> Services \<Rightarrow> SenseInfo list \<Rightarrow> 's \<Rightarrow> 's \<times> event list" where
  "lifecycle vt svc ss st =
     (case initialize vt svc st of
        (meta, st1, ev1) \<Rightarrow>
          (case ticks vt ss st1 of
             (outs, st2, ev2) \<Rightarrow>
               (case finalize vt st2 of
                  (st3, ev3) \<Rightarrow> (st3, ev1 @ ev2 @ ev3))))"

fun lifecycles ::
  "'s BehaviorElement \<Rightarrow> (Services \<times> SenseInfo list) list \<Rightarrow> 's \<Rightarrow> event list list" where
  "lifecycles vt [] st = []"
| "lifecycles vt ((svc, ss) # cs) st =
     (case lifecycle vt svc ss st of (st1, ev) \<Rightarrow> ev # lifecycles vt cs st1)"

text \<open>
  The calls of a MotionElement to the data-initialization method and to the tick method of
  its derived class, in the order of the trace, with the SenseInfo passed.
\<close>

datatype hook_call = Hook_data_initialize SenseInfo | Hook_tick SenseInfo

fun hook_calls :: "event list \<Rightarrow> hook_call list" where
  "hook_calls [] = []"
| "hook_calls (Call_motion_element_data_initialize s evs # es) =
     Hook_data_initialize s # hook_calls es"
| "hook_calls (Call_motion_element_tick s evs out # es) = Hook_tick s # hook_calls es"
| "hook_calls (e # es) = hook_calls es"

text \<open>The calls to the ReactionSvc in a trace.\<close>

fun reaction_calls :: "event list \<Rightarrow> event list" where
  "reaction_calls [] = []"
| "reaction_calls (Activate m # es) = Activate m # reaction_calls es"
| "reaction_calls (Release m # es) = Release m # reaction_calls es"
| "reaction_calls (e # es) = reaction_calls es"

text \<open>
  In the run of a driven element, the number of child ticks that returned an Outcome
  other than Running.
\<close>

definition children_done :: "(Outcome \<times> event list) list \<Rightarrow> nat" where
  "children_done T =
     length (filter (\<lambda>(a, out). out_value out \<noteq> Running)
               (concat (map (\<lambda>(out, ev). child_ticks ev) T)))"

text \<open>The trace of iteration \<open>n\<close> of the loop of the Executor.\<close>

definition Executor_events ::
  "'s BehaviorElement \<Rightarrow> nat \<Rightarrow> ElementMeta \<Rightarrow> (nat \<Rightarrow> time_point) \<Rightarrow> nat \<Rightarrow> nat \<Rightarrow>
   SenseInfo \<times> 's \<Rightarrow> event list" where
  "Executor_events vt element meta clock k n x =
     snd (snd (Executor_iteration vt element meta (clock (k + n))
                 (Executor_before vt element meta clock k n x)))"

text \<open>
  The ticks of the root in a trace of the Executor: the SenseInfo passed, the children
  that the root initialized and ticked during the tick, and the Outcome of the root.
\<close>

fun root_ticks ::
  "event list \<Rightarrow> (SenseInfo \<times> nat list \<times> (nat \<times> Outcome) list \<times> Outcome) list" where
  "root_ticks [] = []"
| "root_ticks (Call_tick a s evs out # es) =
     (s, child_inits evs, child_ticks evs, out) # root_ticks es"
| "root_ticks (e # es) = root_ticks es"

text \<open>
  The position of the robot of \<open>main\<close> before tick \<open>i\<close>, as long as every tick
  before has commanded the velocity 1: the sum of \<open>i\<close> increments of
  \<^verbatim>\<open>1.0 * 100 / 1000.0\<close>, rounded at each addition.
\<close>

fun walk_x :: "nat \<Rightarrow> real" where
  "walk_x 0 = 0"
| "walk_x (Suc i) = dadd (walk_x i) (ddiv (dmul 1 100) 1000)"

text \<open>
  The loop of the Executor on the sequence of \<open>main\<close>: its state when the loop is entered,
  and its state before iteration \<open>i\<close> while the robot walks.
\<close>

definition walking ::
  "(nat \<Rightarrow> time_point) \<Rightarrow> nat \<Rightarrow> SenseInfo \<times> SequenceElement \<times> (nat \<Rightarrow> leaf)" where
  "walking clock i =
     (\<lparr>measured_velocity = 1, measured_x = walk_x i, is_flinching = False,
       is_knee_jerking = False, ts = clock i\<rparr>,
      \<lparr>m_svcs = Services_default, m_elements = [1, 0], m_iter = 0, m_new_element = False,
       m_meta = \<lparr>name = Some ''WalkToPosition''\<rparr>\<rparr>,
      (main_store 4)
        (1 := WalkToPosition_object
                \<lparr>m_services = Services_default, m_first_tick = False,
                 derived = \<lparr>goal_x = 4, init_ts = clock 1\<rparr>\<rparr>))"

definition main_start ::
  "(nat \<Rightarrow> time_point) \<Rightarrow> nat \<Rightarrow> SenseInfo \<times> SequenceElement \<times> (nat \<Rightarrow> leaf)" where
  "main_start clock it =
     (SenseInfo_default\<lparr>ts := clock 0\<rparr>,
      fst (snd (SequenceElement_initialize Services_default (main_sequence it))))"

section \<open>Rounding\<close>

lemma rne_of_int: "rne (of_int n) = n"
  by (simp add: rne_def)

lemma rne_lower: "r - 1 / 2 \<le> of_int (rne r)"
proof -
  have "of_int \<lfloor>r\<rfloor> \<le> r" "r < of_int \<lfloor>r\<rfloor> + 1" by linarith+
  then show ?thesis
    unfolding rne_def Let_def by (simp split: if_splits) linarith
qed

lemma rne_upper: "of_int (rne r) \<le> r + 1 / 2"
proof -
  have "of_int \<lfloor>r\<rfloor> \<le> r" "r < of_int \<lfloor>r\<rfloor> + 1" by linarith+
  then show ?thesis
    unfolding rne_def Let_def by (simp split: if_splits) linarith
qed


lemma rne_mono:
  assumes "r \<le> s"
  shows "rne r \<le> rne s"
proof (rule ccontr)
  assume "\<not> rne r \<le> rne s"
  then have lt: "rne s + 1 \<le> rne r" by simp
  then have lt': "real_of_int (rne s) + 1 \<le> real_of_int (rne r)"
    by (metis of_int_1 of_int_add of_int_le_iff)
  have u: "of_int (rne r) \<le> r + 1 / 2" by (rule rne_upper)
  have l: "s - 1 / 2 \<le> of_int (rne s)" by (rule rne_lower)
  from lt' u l assms have eq: "r = s" and half: "real_of_int (rne r) = r + 1 / 2"
    and half': "real_of_int (rne s) = s - 1 / 2"
    by linarith+
  from eq half half' have "real_of_int (rne r) = real_of_int (rne r) - 1 + 1 - 1"
    by simp
  then show False by simp
qed

lemma floor_minus_nonint:
  fixes r :: real
  assumes "r \<noteq> of_int \<lfloor>r\<rfloor>"
  shows "\<lfloor>- r\<rfloor> = - \<lfloor>r\<rfloor> - 1"
proof (rule floor_unique)
  have lt: "real_of_int \<lfloor>r\<rfloor> < r"
    by (metis assms of_int_floor_le order_less_le)
  have ub: "r < real_of_int \<lfloor>r\<rfloor> + 1" by linarith
  have eq: "real_of_int (- \<lfloor>r\<rfloor> - 1) = - real_of_int \<lfloor>r\<rfloor> - 1" by simp
  show "of_int (- \<lfloor>r\<rfloor> - 1) \<le> - r" using ub eq by linarith
  show "- r < of_int (- \<lfloor>r\<rfloor> - 1) + 1" using lt eq by linarith
qed

lemma rne_minus: "rne (- r) = - rne r"
proof (cases "r = of_int \<lfloor>r\<rfloor>")
  case True
  then have "rne r = \<lfloor>r\<rfloor>" "rne (- r) = - \<lfloor>r\<rfloor>"
    using rne_of_int [of "\<lfloor>r\<rfloor>"] rne_of_int [of "- \<lfloor>r\<rfloor>"] by simp_all
  then show ?thesis by simp
next
  case False
  have b: "of_int \<lfloor>r\<rfloor> \<le> r" "r < of_int \<lfloor>r\<rfloor> + 1" by linarith+
  show ?thesis
    unfolding rne_def Let_def floor_minus_nonint [OF False]
    using b False by (auto split: if_splits)
qed


lemma pow2_powr: "pow2 e = 2 powr of_int e"
proof (cases "0 \<le> e")
  case True
  then have "real_of_int e = real (nat e)" by simp
  then have "2 powr real_of_int e = 2 ^ nat e"
    by (simp only: powr_realpow)
  with True show ?thesis by (simp add: pow2_def)
next
  case False
  then have "real_of_int e = - real (nat (- e))" by simp
  then have "2 powr real_of_int e = 1 / 2 ^ nat (- e)"
    by (simp only: powr_minus_divide powr_realpow)
  with False show ?thesis by (simp add: pow2_def)
qed

lemma pow2_pos: "0 < pow2 e"
  by (simp add: pow2_powr)

lemma pow2_mono: "a \<le> b \<Longrightarrow> pow2 a \<le> pow2 b"
  by (simp add: pow2_powr)

lemma exponent_from_eq:
  assumes "pow2 e \<le> \<bar>x\<bar>" and "\<bar>x\<bar> < pow2 (e + 1)" and "- 1022 \<le> e"
    and "e \<le> int n - 1022"
  shows "exponent_from n x = e"
  using assms(4)
proof (induction n)
  case 0
  with assms(3) show ?case by simp
next
  case (Suc n)
  show ?case
  proof (cases "pow2 (int n - 1021) \<le> \<bar>x\<bar>")
    case True
    have "e = int n - 1021"
    proof (rule ccontr)
      assume "e \<noteq> int n - 1021"
      with Suc.prems have "e + 1 \<le> int n - 1021" by simp
      from pow2_mono [OF this] True assms(2) show False by linarith
    qed
    with True show ?thesis by simp
  next
    case False
    have "e \<noteq> int n - 1021" using False assms(1) by auto
    with Suc.prems have "e \<le> int n - 1022" by simp
    from Suc.IH [OF this] False show ?thesis by simp
  qed
qed

lemma exponent_from_subnormal:
  assumes "\<bar>x\<bar> < pow2 (- 1021)"
  shows "exponent_from n x = - 1022"
proof (induction n)
  case 0
  show ?case by simp
next
  case (Suc n)
  have "pow2 (- 1021) \<le> pow2 (int n - 1021)" by (rule pow2_mono) simp
  with assms have "\<not> pow2 (int n - 1021) \<le> \<bar>x\<bar>" by linarith
  with Suc show ?case by simp
qed

lemma exponent_log:
  assumes "x \<noteq> 0"
  shows "exponent x = max \<lfloor>log 2 \<bar>x\<bar>\<rfloor> (- 1022)"
proof -
  define E where "E = \<lfloor>log 2 \<bar>x\<bar>\<rfloor>"
  have pos: "0 < \<bar>x\<bar>" using assms by simp
  have lo: "pow2 E \<le> \<bar>x\<bar>" and hi: "\<bar>x\<bar> < pow2 (E + 1)"
    using floor_log_eq_powr_iff [OF pos, of 2 E] by (simp_all add: E_def pow2_powr)
  show ?thesis
  proof (cases "- 1022 \<le> E")
    case True
    from ceiling_mono [OF abs_ge_zero [of x]] have c0: "0 \<le> \<lceil>\<bar>x\<bar>\<rceil>" by simp
    have "E \<le> \<lceil>\<bar>x\<bar>\<rceil>"
    proof (cases "0 \<le> E")
      case True
      have "real (nat E) < 2 ^ nat E" by (rule of_nat_less_two_power)
      also have "\<dots> = pow2 E" using True by (simp add: pow2_def)
      finally have "real_of_int E < \<bar>x\<bar>" using lo True by simp
      then have "real_of_int E < real_of_int \<lceil>\<bar>x\<bar>\<rceil>" by linarith
      then have "E < \<lceil>\<bar>x\<bar>\<rceil>" by (simp only: of_int_less_iff)
      then show ?thesis by simp
    next
      case False
      with c0 show ?thesis by linarith
    qed
    with nat_0_le [OF c0] have "E \<le> int (nat \<lceil>\<bar>x\<bar>\<rceil>)" by linarith
    then have "E \<le> int (nat \<lceil>\<bar>x\<bar>\<rceil> + 1022) - 1022" by simp
    from exponent_from_eq [OF lo hi True this] True show ?thesis
      by (simp add: exponent_def E_def)
  next
    case False
    then have "E + 1 \<le> - 1021" by simp
    from pow2_mono [OF this] hi have "\<bar>x\<bar> < pow2 (- 1021)" by linarith
    from exponent_from_subnormal [OF this] False show ?thesis
      by (simp add: exponent_def E_def)
  qed
qed

lemma exponent_from_minus: "exponent_from n (- x) = exponent_from n x"
  by (induction n) simp_all

lemma exponent_minus: "exponent (- x) = exponent x"
  by (simp add: exponent_def exponent_from_minus)

lemma ulp_pos: "0 < ulp x"
  by (simp add: ulp_def pow2_pos)

lemma ulp_minus: "ulp (- x) = ulp x"
  by (simp add: ulp_def exponent_minus)

lemma fl_minus: "fl (- x) = - fl x"
  by (simp add: fl_def ulp_minus rne_minus)

lemma exponent_eq:
  assumes "2 powr of_int e \<le> \<bar>x\<bar>" and "\<bar>x\<bar> < 2 powr of_int (e + 1)" and "- 1022 \<le> e"
  shows "exponent x = e"
proof -
  have "0 < \<bar>x\<bar>"
    using assms(1) powr_gt_zero [of 2 "of_int e"] by linarith
  then have "\<lfloor>log 2 \<bar>x\<bar>\<rfloor> = e" and "x \<noteq> 0"
    using assms(1,2) floor_log_eq_powr_iff [of "\<bar>x\<bar>" 2 e] by simp_all
  with assms(3) show ?thesis by (simp add: exponent_log)
qed

lemma fl_small:
  assumes "2 ^ 52 / 2 ^ n \<le> \<bar>x\<bar>" and "\<bar>x\<bar> < 2 ^ 53 / 2 ^ n" and "n \<le> 1074"
  shows "fl x = of_int (rne (x * 2 ^ n)) / 2 ^ n"
proof -
  define e where "e = 52 - int n"
  have p: "2 powr real_of_int (- int n) = 1 / 2 ^ n"
    by (simp add: powr_minus_divide powr_realpow)
  have lo: "2 powr real_of_int e = 2 ^ 52 / 2 ^ n"
    by (simp add: e_def powr_diff powr_realpow)
  have "real_of_int (e + 1) = 53 - real n" by (simp add: e_def)
  then have hi: "2 powr real_of_int (e + 1) = 2 ^ 53 / 2 ^ n"
    by (simp only: powr_diff) (simp add: powr_realpow)
  have "- 1022 \<le> e" using assms(3) by (simp add: e_def)
  from exponent_eq [of e x] assms(1,2) lo hi this have "exponent x = e" by simp
  then have u: "ulp x = 1 / 2 ^ n"
    using p by (simp add: ulp_def e_def pow2_powr)
  have "(0 :: real) < 2 ^ 52 / 2 ^ n" by simp
  with assms(1) have "0 < \<bar>x\<bar>" by linarith
  then have "x \<noteq> 0" by simp
  with u show ?thesis by (simp add: fl_def)
qed


lemma exponent_upper:
  assumes "x \<noteq> 0"
  shows "\<bar>x\<bar> < 2 powr of_int (exponent x + 1)"
proof -
  have pos: "0 < \<bar>x\<bar>" using assms by simp
  have "\<bar>x\<bar> < 2 powr of_int (\<lfloor>log 2 \<bar>x\<bar>\<rfloor> + 1)"
    using floor_log_eq_powr_iff [OF pos, of 2 "\<lfloor>log 2 \<bar>x\<bar>\<rfloor>"] by simp
  also have "\<dots> \<le> 2 powr of_int (exponent x + 1)"
    using assms by (intro powr_mono) (simp_all add: exponent_log)
  finally show ?thesis .
qed

lemma exponent_lower:
  assumes "x \<noteq> 0" and "- 1022 \<le> \<lfloor>log 2 \<bar>x\<bar>\<rfloor>"
  shows "2 powr of_int (exponent x) \<le> \<bar>x\<bar>"
proof -
  have pos: "0 < \<bar>x\<bar>" using assms(1) by simp
  have "exponent x = \<lfloor>log 2 \<bar>x\<bar>\<rfloor>"
    using assms by (simp add: exponent_log)
  then show ?thesis
    using floor_log_eq_powr_iff [OF pos, of 2 "\<lfloor>log 2 \<bar>x\<bar>\<rfloor>"] by simp
qed

lemma exponent_mono:
  assumes "0 < x" and "x \<le> y"
  shows "exponent x \<le> exponent y"
proof -
  have "log 2 \<bar>x\<bar> \<le> log 2 \<bar>y\<bar>"
    using assms by (intro log_mono) simp_all
  then have "\<lfloor>log 2 \<bar>x\<bar>\<rfloor> \<le> \<lfloor>log 2 \<bar>y\<bar>\<rfloor>"
    by (rule floor_mono)
  then show ?thesis using assms by (simp add: exponent_log)
qed

lemma pow_ulp: "2 powr of_int (exponent x) = 2 ^ 52 * ulp x"
  "2 powr of_int (exponent x + 1) = 2 ^ 53 * ulp x"
proof -
  have "real_of_int (exponent x) = 52 + real_of_int (exponent x - 52)"
    "real_of_int (exponent x + 1) = 53 + real_of_int (exponent x - 52)"
    by simp_all
  then show "2 powr of_int (exponent x) = 2 ^ 52 * ulp x"
    "2 powr of_int (exponent x + 1) = 2 ^ 53 * ulp x"
    unfolding ulp_def pow2_powr by (simp_all only: powr_add) simp_all
qed

lemma fl_upper:
  assumes "0 < x"
  shows "fl x \<le> 2 powr of_int (exponent x + 1)"
proof -
  have "\<bar>x\<bar> < 2 powr of_int (exponent x + 1)"
    using assms by (intro exponent_upper) simp
  then have "x < 2 ^ 53 * ulp x"
    using assms by (simp only: pow_ulp abs_of_pos)
  then have "x / ulp x \<le> of_int (2 ^ 53)"
    using ulp_pos [of x] by (simp add: field_simps)
  from rne_mono [OF this] have "rne (x / ulp x) \<le> 2 ^ 53"
    by (simp only: rne_of_int)
  then have "real_of_int (rne (x / ulp x)) \<le> 2 ^ 53"
    by (metis of_int_le_iff of_int_numeral of_int_power)
  then have "real_of_int (rne (x / ulp x)) * ulp x \<le> 2 ^ 53 * ulp x"
    using ulp_pos [of x] by (simp add: mult_right_mono)
  then show ?thesis
    using assms unfolding pow_ulp by (simp add: fl_def)
qed

lemma fl_lower:
  assumes "0 < x" and "2 powr of_int (exponent x) \<le> x"
  shows "2 powr of_int (exponent x) \<le> fl x"
proof -
  have "2 ^ 52 * ulp x \<le> x"
    using assms(2) by (simp only: pow_ulp)
  then have "of_int (2 ^ 52) \<le> x / ulp x"
    using ulp_pos [of x] by (simp add: field_simps)
  from rne_mono [OF this] have "2 ^ 52 \<le> rne (x / ulp x)"
    by (simp only: rne_of_int)
  then have "2 ^ 52 \<le> real_of_int (rne (x / ulp x))"
    by (metis of_int_le_iff of_int_numeral of_int_power)
  then have "2 ^ 52 * ulp x \<le> real_of_int (rne (x / ulp x)) * ulp x"
    using ulp_pos [of x] by (simp add: mult_right_mono)
  then show ?thesis
    using assms(1) unfolding pow_ulp by (simp add: fl_def)
qed

lemma fl_mono_pos:
  assumes "0 < x" and "x \<le> y"
  shows "fl x \<le> fl y"
proof (cases "exponent x = exponent y")
  case True
  then have u: "ulp x = ulp y" by (simp add: ulp_def)
  have "x / ulp y \<le> y / ulp y"
    using assms(2) ulp_pos [of y] by (simp add: divide_right_mono)
  from rne_mono [OF this] have "real_of_int (rne (x / ulp y)) \<le> real_of_int (rne (y / ulp y))"
    by simp
  then have "real_of_int (rne (x / ulp y)) * ulp y \<le> real_of_int (rne (y / ulp y)) * ulp y"
    using ulp_pos [of y] by (simp add: mult_right_mono)
  then show ?thesis
    using assms u by (simp add: fl_def)
next
  case False
  with exponent_mono [OF assms] have lt: "exponent x + 1 \<le> exponent y" by simp
  have ypos: "0 < y" using assms by simp
  from lt assms(1) have "- 1022 < exponent y" by (simp add: exponent_log)
  with ypos have "- 1022 \<le> \<lfloor>log 2 \<bar>y\<bar>\<rfloor>"
    by (simp add: exponent_log max_def split: if_splits)
  moreover note ypos
  ultimately have "2 powr of_int (exponent y) \<le> y"
    using exponent_lower [of y] by simp
  from fl_lower [OF ypos this] have "2 powr of_int (exponent y) \<le> fl y" .
  moreover have "2 powr real_of_int (exponent x + 1) \<le> 2 powr real_of_int (exponent y)"
    using lt by (intro powr_mono) simp_all
  ultimately show ?thesis
    using fl_upper [OF assms(1)] by linarith
qed

lemma fl_zero: "fl 0 = 0"
  by (simp add: fl_def)

text \<open>
  Evaluation: a value whose binary exponent is between -4 and 6 is rounded at the unit
  \<open>1 / 2 ^ n\<close>, for \<open>n\<close> from 56 down to 46.
\<close>

lemma fl_ulp_46:
  "64 \<le> \<bar>x\<bar> \<Longrightarrow> \<bar>x\<bar> < 128 \<Longrightarrow> fl x = of_int (rne (x * 2 ^ 46)) / 2 ^ 46"
  using fl_small [of 46 x] by simp

lemma fl_ulp_47:
  "32 \<le> \<bar>x\<bar> \<Longrightarrow> \<bar>x\<bar> < 64 \<Longrightarrow> fl x = of_int (rne (x * 2 ^ 47)) / 2 ^ 47"
  using fl_small [of 47 x] by simp

lemma fl_ulp_48:
  "16 \<le> \<bar>x\<bar> \<Longrightarrow> \<bar>x\<bar> < 32 \<Longrightarrow> fl x = of_int (rne (x * 2 ^ 48)) / 2 ^ 48"
  using fl_small [of 48 x] by simp

lemma fl_ulp_49:
  "8 \<le> \<bar>x\<bar> \<Longrightarrow> \<bar>x\<bar> < 16 \<Longrightarrow> fl x = of_int (rne (x * 2 ^ 49)) / 2 ^ 49"
  using fl_small [of 49 x] by simp

lemma fl_ulp_50:
  "4 \<le> \<bar>x\<bar> \<Longrightarrow> \<bar>x\<bar> < 8 \<Longrightarrow> fl x = of_int (rne (x * 2 ^ 50)) / 2 ^ 50"
  using fl_small [of 50 x] by simp

lemma fl_ulp_51:
  "2 \<le> \<bar>x\<bar> \<Longrightarrow> \<bar>x\<bar> < 4 \<Longrightarrow> fl x = of_int (rne (x * 2 ^ 51)) / 2 ^ 51"
  using fl_small [of 51 x] by simp

lemma fl_ulp_52:
  "1 \<le> \<bar>x\<bar> \<Longrightarrow> \<bar>x\<bar> < 2 \<Longrightarrow> fl x = of_int (rne (x * 2 ^ 52)) / 2 ^ 52"
  using fl_small [of 52 x] by simp

lemma fl_ulp_53:
  "1 / 2 \<le> \<bar>x\<bar> \<Longrightarrow> \<bar>x\<bar> < 1 \<Longrightarrow> fl x = of_int (rne (x * 2 ^ 53)) / 2 ^ 53"
  using fl_small [of 53 x] by simp

lemma fl_ulp_54:
  "1 / 4 \<le> \<bar>x\<bar> \<Longrightarrow> \<bar>x\<bar> < 1 / 2 \<Longrightarrow> fl x = of_int (rne (x * 2 ^ 54)) / 2 ^ 54"
  using fl_small [of 54 x] by simp

lemma fl_ulp_55:
  "1 / 8 \<le> \<bar>x\<bar> \<Longrightarrow> \<bar>x\<bar> < 1 / 4 \<Longrightarrow> fl x = of_int (rne (x * 2 ^ 55)) / 2 ^ 55"
  using fl_small [of 55 x] by simp

lemma fl_ulp_56:
  "1 / 16 \<le> \<bar>x\<bar> \<Longrightarrow> \<bar>x\<bar> < 1 / 8 \<Longrightarrow> fl x = of_int (rne (x * 2 ^ 56)) / 2 ^ 56"
  using fl_small [of 56 x] by simp

lemmas fl_eval =
  fl_ulp_46 fl_ulp_47 fl_ulp_48 fl_ulp_49 fl_ulp_50 fl_ulp_51
  fl_ulp_52 fl_ulp_53 fl_ulp_54 fl_ulp_55 fl_ulp_56

lemma fl_tenth: "fl (1 / 10) = 3602879701896397 / 36028797018963968"
  by (simp add: fl_eval rne_def)

lemma fl_four: "fl 4 = 4"
  by (simp add: fl_eval rne_def)

lemma increment: "ddiv (dmul 1 100) 1000 = 3602879701896397 / 36028797018963968"
  by (simp add: ddiv_def dmul_def fl_eval rne_def)

lemma increment_zero: "ddiv (dmul 0 100) 1000 = 0"
  by (simp add: ddiv_def dmul_def fl_zero)

lemma increment_minus: "ddiv (dmul (- 1) 100) 1000 = - (3602879701896397 / 36028797018963968)"
  by (simp add: ddiv_def dmul_def fl_eval rne_def)

lemma fl_tenth_pos: "0 < fl (1 / 10)"
  by (simp add: fl_tenth)

lemma fl_far:
  assumes "1 / 10 \<le> \<bar>r\<bar>"
  shows "\<not> \<bar>fl r\<bar> < fl (1 / 10)" and "(0 \<le> fl r) = (0 \<le> r)"
proof -
  have c: "fl (1 / 10) \<le> fl r \<and> 0 \<le> r \<or> fl r \<le> - fl (1 / 10) \<and> r < 0"
  proof (cases "0 \<le> r")
    case True
    with assms have "1 / 10 \<le> r" by simp
    from fl_mono_pos [OF _ this] True show ?thesis by simp
  next
    case False
    with assms have "1 / 10 \<le> - r" by simp
    from fl_mono_pos [OF _ this] False show ?thesis by (simp add: fl_minus)
  qed
  from c fl_tenth_pos show "\<not> \<bar>fl r\<bar> < fl (1 / 10)" by auto
  from c fl_tenth_pos show "(0 \<le> fl r) = (0 \<le> r)" by auto
qed

subsection \<open>The positions of the walk\<close>

text \<open>
  The sums of \<open>walk_x\<close>, each rounded: the first forty-one positions.
\<close>

lemma walk_x_1: "walk_x 1 = 3602879701896397 / 36028797018963968"
proof -
  have "walk_x 1 = walk_x (Suc 0)" by (rule arg_cong [of _ _ walk_x]) simp
  also have "\<dots> = 3602879701896397 / 36028797018963968"
    unfolding walk_x.simps increment dadd_def
    by (simp add: fl_eval rne_def)
  finally show ?thesis .
qed

lemma walk_x_2: "walk_x 2 = 3602879701896397 / 18014398509481984"
proof -
  have "walk_x 2 = walk_x (Suc 1)" by (rule arg_cong [of _ _ walk_x]) simp
  also have "\<dots> = 3602879701896397 / 18014398509481984"
    unfolding walk_x.simps walk_x_1 increment dadd_def
    by (simp add: fl_eval rne_def)
  finally show ?thesis .
qed

lemma walk_x_3: "walk_x 3 = 1351079888211149 / 4503599627370496"
proof -
  have "walk_x 3 = walk_x (Suc 2)" by (rule arg_cong [of _ _ walk_x]) simp
  also have "\<dots> = 1351079888211149 / 4503599627370496"
    unfolding walk_x.simps walk_x_2 increment dadd_def
    by (simp add: fl_eval rne_def)
  finally show ?thesis .
qed

lemma walk_x_4: "walk_x 4 = 3602879701896397 / 9007199254740992"
proof -
  have "walk_x 4 = walk_x (Suc 3)" by (rule arg_cong [of _ _ walk_x]) simp
  also have "\<dots> = 3602879701896397 / 9007199254740992"
    unfolding walk_x.simps walk_x_3 increment dadd_def
    by (simp add: fl_eval rne_def)
  finally show ?thesis .
qed

lemma walk_x_5: "walk_x 5 = 1 / 2"
proof -
  have "walk_x 5 = walk_x (Suc 4)" by (rule arg_cong [of _ _ walk_x]) simp
  also have "\<dots> = 1 / 2"
    unfolding walk_x.simps walk_x_4 increment dadd_def
    by (simp add: fl_eval rne_def)
  finally show ?thesis .
qed

lemma walk_x_6: "walk_x 6 = 5404319552844595 / 9007199254740992"
proof -
  have "walk_x 6 = walk_x (Suc 5)" by (rule arg_cong [of _ _ walk_x]) simp
  also have "\<dots> = 5404319552844595 / 9007199254740992"
    unfolding walk_x.simps walk_x_5 increment dadd_def
    by (simp add: fl_eval rne_def)
  finally show ?thesis .
qed

lemma walk_x_7: "walk_x 7 = 3152519739159347 / 4503599627370496"
proof -
  have "walk_x 7 = walk_x (Suc 6)" by (rule arg_cong [of _ _ walk_x]) simp
  also have "\<dots> = 3152519739159347 / 4503599627370496"
    unfolding walk_x.simps walk_x_6 increment dadd_def
    by (simp add: fl_eval rne_def)
  finally show ?thesis .
qed

lemma walk_x_8: "walk_x 8 = 7205759403792793 / 9007199254740992"
proof -
  have "walk_x 8 = walk_x (Suc 7)" by (rule arg_cong [of _ _ walk_x]) simp
  also have "\<dots> = 7205759403792793 / 9007199254740992"
    unfolding walk_x.simps walk_x_7 increment dadd_def
    by (simp add: fl_eval rne_def)
  finally show ?thesis .
qed

lemma walk_x_9: "walk_x 9 = 2026619832316723 / 2251799813685248"
proof -
  have "walk_x 9 = walk_x (Suc 8)" by (rule arg_cong [of _ _ walk_x]) simp
  also have "\<dots> = 2026619832316723 / 2251799813685248"
    unfolding walk_x.simps walk_x_8 increment dadd_def
    by (simp add: fl_eval rne_def)
  finally show ?thesis .
qed

lemma walk_x_10: "walk_x 10 = 9007199254740991 / 9007199254740992"
proof -
  have "walk_x 10 = walk_x (Suc 9)" by (rule arg_cong [of _ _ walk_x]) simp
  also have "\<dots> = 9007199254740991 / 9007199254740992"
    unfolding walk_x.simps walk_x_9 increment dadd_def
    by (simp add: fl_eval rne_def)
  finally show ?thesis .
qed

lemma walk_x_11: "walk_x 11 = 4953959590107545 / 4503599627370496"
proof -
  have "walk_x 11 = walk_x (Suc 10)" by (rule arg_cong [of _ _ walk_x]) simp
  also have "\<dots> = 4953959590107545 / 4503599627370496"
    unfolding walk_x.simps walk_x_10 increment dadd_def
    by (simp add: fl_eval rne_def)
  finally show ?thesis .
qed

lemma walk_x_12: "walk_x 12 = 5404319552844595 / 4503599627370496"
proof -
  have "walk_x 12 = walk_x (Suc 11)" by (rule arg_cong [of _ _ walk_x]) simp
  also have "\<dots> = 5404319552844595 / 4503599627370496"
    unfolding walk_x.simps walk_x_11 increment dadd_def
    by (simp add: fl_eval rne_def)
  finally show ?thesis .
qed

lemma walk_x_13: "walk_x 13 = 5854679515581645 / 4503599627370496"
proof -
  have "walk_x 13 = walk_x (Suc 12)" by (rule arg_cong [of _ _ walk_x]) simp
  also have "\<dots> = 5854679515581645 / 4503599627370496"
    unfolding walk_x.simps walk_x_12 increment dadd_def
    by (simp add: fl_eval rne_def)
  finally show ?thesis .
qed

lemma walk_x_14: "walk_x 14 = 6305039478318695 / 4503599627370496"
proof -
  have "walk_x 14 = walk_x (Suc 13)" by (rule arg_cong [of _ _ walk_x]) simp
  also have "\<dots> = 6305039478318695 / 4503599627370496"
    unfolding walk_x.simps walk_x_13 increment dadd_def
    by (simp add: fl_eval rne_def)
  finally show ?thesis .
qed

lemma walk_x_15: "walk_x 15 = 6755399441055745 / 4503599627370496"
proof -
  have "walk_x 15 = walk_x (Suc 14)" by (rule arg_cong [of _ _ walk_x]) simp
  also have "\<dots> = 6755399441055745 / 4503599627370496"
    unfolding walk_x.simps walk_x_14 increment dadd_def
    by (simp add: fl_eval rne_def)
  finally show ?thesis .
qed

lemma walk_x_16: "walk_x 16 = 7205759403792795 / 4503599627370496"
proof -
  have "walk_x 16 = walk_x (Suc 15)" by (rule arg_cong [of _ _ walk_x]) simp
  also have "\<dots> = 7205759403792795 / 4503599627370496"
    unfolding walk_x.simps walk_x_15 increment dadd_def
    by (simp add: fl_eval rne_def)
  finally show ?thesis .
qed

lemma walk_x_17: "walk_x 17 = 7656119366529845 / 4503599627370496"
proof -
  have "walk_x 17 = walk_x (Suc 16)" by (rule arg_cong [of _ _ walk_x]) simp
  also have "\<dots> = 7656119366529845 / 4503599627370496"
    unfolding walk_x.simps walk_x_16 increment dadd_def
    by (simp add: fl_eval rne_def)
  finally show ?thesis .
qed

lemma walk_x_18: "walk_x 18 = 8106479329266895 / 4503599627370496"
proof -
  have "walk_x 18 = walk_x (Suc 17)" by (rule arg_cong [of _ _ walk_x]) simp
  also have "\<dots> = 8106479329266895 / 4503599627370496"
    unfolding walk_x.simps walk_x_17 increment dadd_def
    by (simp add: fl_eval rne_def)
  finally show ?thesis .
qed

lemma walk_x_19: "walk_x 19 = 8556839292003945 / 4503599627370496"
proof -
  have "walk_x 19 = walk_x (Suc 18)" by (rule arg_cong [of _ _ walk_x]) simp
  also have "\<dots> = 8556839292003945 / 4503599627370496"
    unfolding walk_x.simps walk_x_18 increment dadd_def
    by (simp add: fl_eval rne_def)
  finally show ?thesis .
qed

lemma walk_x_20: "walk_x 20 = 4503599627370497 / 2251799813685248"
proof -
  have "walk_x 20 = walk_x (Suc 19)" by (rule arg_cong [of _ _ walk_x]) simp
  also have "\<dots> = 4503599627370497 / 2251799813685248"
    unfolding walk_x.simps walk_x_19 increment dadd_def
    by (simp add: fl_eval rne_def)
  finally show ?thesis .
qed

lemma walk_x_21: "walk_x 21 = 2364389804369511 / 1125899906842624"
proof -
  have "walk_x 21 = walk_x (Suc 20)" by (rule arg_cong [of _ _ walk_x]) simp
  also have "\<dots> = 2364389804369511 / 1125899906842624"
    unfolding walk_x.simps walk_x_20 increment dadd_def
    by (simp add: fl_eval rne_def)
  finally show ?thesis .
qed

lemma walk_x_22: "walk_x 22 = 4953959590107547 / 2251799813685248"
proof -
  have "walk_x 22 = walk_x (Suc 21)" by (rule arg_cong [of _ _ walk_x]) simp
  also have "\<dots> = 4953959590107547 / 2251799813685248"
    unfolding walk_x.simps walk_x_21 increment dadd_def
    by (simp add: fl_eval rne_def)
  finally show ?thesis .
qed

lemma walk_x_23: "walk_x 23 = 647392446434509 / 281474976710656"
proof -
  have "walk_x 23 = walk_x (Suc 22)" by (rule arg_cong [of _ _ walk_x]) simp
  also have "\<dots> = 647392446434509 / 281474976710656"
    unfolding walk_x.simps walk_x_22 increment dadd_def
    by (simp add: fl_eval rne_def)
  finally show ?thesis .
qed

lemma walk_x_24: "walk_x 24 = 5404319552844597 / 2251799813685248"
proof -
  have "walk_x 24 = walk_x (Suc 23)" by (rule arg_cong [of _ _ walk_x]) simp
  also have "\<dots> = 5404319552844597 / 2251799813685248"
    unfolding walk_x.simps walk_x_23 increment dadd_def
    by (simp add: fl_eval rne_def)
  finally show ?thesis .
qed

lemma walk_x_25: "walk_x 25 = 2814749767106561 / 1125899906842624"
proof -
  have "walk_x 25 = walk_x (Suc 24)" by (rule arg_cong [of _ _ walk_x]) simp
  also have "\<dots> = 2814749767106561 / 1125899906842624"
    unfolding walk_x.simps walk_x_24 increment dadd_def
    by (simp add: fl_eval rne_def)
  finally show ?thesis .
qed

lemma walk_x_26: "walk_x 26 = 5854679515581647 / 2251799813685248"
proof -
  have "walk_x 26 = walk_x (Suc 25)" by (rule arg_cong [of _ _ walk_x]) simp
  also have "\<dots> = 5854679515581647 / 2251799813685248"
    unfolding walk_x.simps walk_x_25 increment dadd_def
    by (simp add: fl_eval rne_def)
  finally show ?thesis .
qed

lemma walk_x_27: "walk_x 27 = 1519964874237543 / 562949953421312"
proof -
  have "walk_x 27 = walk_x (Suc 26)" by (rule arg_cong [of _ _ walk_x]) simp
  also have "\<dots> = 1519964874237543 / 562949953421312"
    unfolding walk_x.simps walk_x_26 increment dadd_def
    by (simp add: fl_eval rne_def)
  finally show ?thesis .
qed

lemma walk_x_28: "walk_x 28 = 6305039478318697 / 2251799813685248"
proof -
  have "walk_x 28 = walk_x (Suc 27)" by (rule arg_cong [of _ _ walk_x]) simp
  also have "\<dots> = 6305039478318697 / 2251799813685248"
    unfolding walk_x.simps walk_x_27 increment dadd_def
    by (simp add: fl_eval rne_def)
  finally show ?thesis .
qed

lemma walk_x_29: "walk_x 29 = 3265109729843611 / 1125899906842624"
proof -
  have "walk_x 29 = walk_x (Suc 28)" by (rule arg_cong [of _ _ walk_x]) simp
  also have "\<dots> = 3265109729843611 / 1125899906842624"
    unfolding walk_x.simps walk_x_28 increment dadd_def
    by (simp add: fl_eval rne_def)
  finally show ?thesis .
qed

lemma walk_x_30: "walk_x 30 = 6755399441055747 / 2251799813685248"
proof -
  have "walk_x 30 = walk_x (Suc 29)" by (rule arg_cong [of _ _ walk_x]) simp
  also have "\<dots> = 6755399441055747 / 2251799813685248"
    unfolding walk_x.simps walk_x_29 increment dadd_def
    by (simp add: fl_eval rne_def)
  finally show ?thesis .
qed

lemma walk_x_31: "walk_x 31 = 436286213901517 / 140737488355328"
proof -
  have "walk_x 31 = walk_x (Suc 30)" by (rule arg_cong [of _ _ walk_x]) simp
  also have "\<dots> = 436286213901517 / 140737488355328"
    unfolding walk_x.simps walk_x_30 increment dadd_def
    by (simp add: fl_eval rne_def)
  finally show ?thesis .
qed

lemma walk_x_32: "walk_x 32 = 7205759403792797 / 2251799813685248"
proof -
  have "walk_x 32 = walk_x (Suc 31)" by (rule arg_cong [of _ _ walk_x]) simp
  also have "\<dots> = 7205759403792797 / 2251799813685248"
    unfolding walk_x.simps walk_x_31 increment dadd_def
    by (simp add: fl_eval rne_def)
  finally show ?thesis .
qed

lemma walk_x_33: "walk_x 33 = 3715469692580661 / 1125899906842624"
proof -
  have "walk_x 33 = walk_x (Suc 32)" by (rule arg_cong [of _ _ walk_x]) simp
  also have "\<dots> = 3715469692580661 / 1125899906842624"
    unfolding walk_x.simps walk_x_32 increment dadd_def
    by (simp add: fl_eval rne_def)
  finally show ?thesis .
qed

lemma walk_x_34: "walk_x 34 = 7656119366529847 / 2251799813685248"
proof -
  have "walk_x 34 = walk_x (Suc 33)" by (rule arg_cong [of _ _ walk_x]) simp
  also have "\<dots> = 7656119366529847 / 2251799813685248"
    unfolding walk_x.simps walk_x_33 increment dadd_def
    by (simp add: fl_eval rne_def)
  finally show ?thesis .
qed

lemma walk_x_35: "walk_x 35 = 1970324836974593 / 562949953421312"
proof -
  have "walk_x 35 = walk_x (Suc 34)" by (rule arg_cong [of _ _ walk_x]) simp
  also have "\<dots> = 1970324836974593 / 562949953421312"
    unfolding walk_x.simps walk_x_34 increment dadd_def
    by (simp add: fl_eval rne_def)
  finally show ?thesis .
qed

lemma walk_x_36: "walk_x 36 = 8106479329266897 / 2251799813685248"
proof -
  have "walk_x 36 = walk_x (Suc 35)" by (rule arg_cong [of _ _ walk_x]) simp
  also have "\<dots> = 8106479329266897 / 2251799813685248"
    unfolding walk_x.simps walk_x_35 increment dadd_def
    by (simp add: fl_eval rne_def)
  finally show ?thesis .
qed

lemma walk_x_37: "walk_x 37 = 4165829655317711 / 1125899906842624"
proof -
  have "walk_x 37 = walk_x (Suc 36)" by (rule arg_cong [of _ _ walk_x]) simp
  also have "\<dots> = 4165829655317711 / 1125899906842624"
    unfolding walk_x.simps walk_x_36 increment dadd_def
    by (simp add: fl_eval rne_def)
  finally show ?thesis .
qed

lemma walk_x_38: "walk_x 38 = 8556839292003947 / 2251799813685248"
proof -
  have "walk_x 38 = walk_x (Suc 37)" by (rule arg_cong [of _ _ walk_x]) simp
  also have "\<dots> = 8556839292003947 / 2251799813685248"
    unfolding walk_x.simps walk_x_37 increment dadd_def
    by (simp add: fl_eval rne_def)
  finally show ?thesis .
qed

lemma walk_x_39: "walk_x 39 = 1097752409171559 / 281474976710656"
proof -
  have "walk_x 39 = walk_x (Suc 38)" by (rule arg_cong [of _ _ walk_x]) simp
  also have "\<dots> = 1097752409171559 / 281474976710656"
    unfolding walk_x.simps walk_x_38 increment dadd_def
    by (simp add: fl_eval rne_def)
  finally show ?thesis .
qed

lemma walk_x_40: "walk_x 40 = 2251799813685249 / 562949953421312"
proof -
  have "walk_x 40 = walk_x (Suc 39)" by (rule arg_cong [of _ _ walk_x]) simp
  also have "\<dots> = 2251799813685249 / 562949953421312"
    unfolding walk_x.simps walk_x_39 increment dadd_def
    by (simp add: fl_eval rne_def)
  finally show ?thesis .
qed

section \<open>Evaluation and projections\<close>

lemmas frame_defs =
  SequenceElement_class_def SequenceElement_tick_def SequenceElement_initialize_def
  SequenceElement_finalize_def SequenceElement_new_def
  leaf_class_def leaf_initialize_def leaf_tick_def leaf_finalize_def
  MotionElement_initialize_def MotionElement_tick_def MotionElement_finalize_def
  MotionElement_new_def MotionElement_motion_element_initialize_def
  MotionElement_motion_element_finalize_def MotionElement_motion_element_data_initialize_def
  Stop_def Stop_motion_element_tick_def WalkToPosition_def WalkToPosition_new_def
  WalkToPosition_motion_element_data_initialize_def
  TIMEOUT_def epsilon_def get_reaction_defs_def
  Outcome_default_def SenseInfo_default_def Services_default_def main_store_def
  main_sequence_def Let_def

lemmas model_defs =
  frame_defs WalkToPosition_motion_element_tick_def MY_VELO_def GOAL_THRESHOLD_def
  dsub_def fl_zero fl_four fl_tenth

lemma child_ticks_append: "child_ticks (xs @ ys) = child_ticks xs @ child_ticks ys"
  by (induction xs rule: child_ticks.induct) auto
lemma child_inits_append: "child_inits (xs @ ys) = child_inits xs @ child_inits ys"
  by (induction xs rule: child_inits.induct) auto
lemma child_finals_append: "child_finals (xs @ ys) = child_finals xs @ child_finals ys"
  by (induction xs rule: child_finals.induct) auto

lemma hook_calls_append: "hook_calls (xs @ ys) = hook_calls xs @ hook_calls ys"
  by (induction xs rule: hook_calls.induct) auto

lemma reaction_calls_append: "reaction_calls (xs @ ys) = reaction_calls xs @ reaction_calls ys"
  by (induction xs rule: reaction_calls.induct) auto

lemma MotionElement_class_simps:
  "initialize (MotionElement_class D) = MotionElement_initialize D"
  "tick (MotionElement_class D) = MotionElement_tick D"
  "finalize (MotionElement_class D) = MotionElement_finalize D"
  by (simp_all add: MotionElement_class_def)

lemma children_done_Nil: "children_done [] = 0"
  by (simp add: children_done_def)

lemma children_done_Cons:
  "children_done ((out, ev) # T) =
     length (filter (\<lambda>(a, out). out_value out \<noteq> Running) (child_ticks ev)) + children_done T"
  by (simp add: children_done_def)

lemma children_done_append: "children_done (A @ B) = children_done A + children_done B"
  by (simp add: children_done_def)

lemma tick_SequenceElement_class: "tick (SequenceElement_class vt) = SequenceElement_tick vt"
  by (simp add: SequenceElement_class_def)

lemma children_done_take_mono:
  assumes "k1 \<le> k2"
  shows "children_done (take k1 T) \<le> children_done (take k2 T)"
proof -
  have "take k2 T = take k1 T @ take (k2 - k1) (drop k1 T)"
    using assms take_add [of k1 "k2 - k1" T] by simp
  then show ?thesis by (simp add: children_done_append)
qed

lemma children_done_take_Suc:
  assumes "k < length T" and "child_ticks (snd (T ! k)) = [(a, co)]"
  shows "children_done (take (Suc k) T) =
           children_done (take k T) + (if out_value co \<noteq> Running then 1 else 0)"
proof -
  obtain out ev where "T ! k = (out, ev)" by (metis prod.exhaust)
  with assms show ?thesis
    by (simp add: take_Suc_conv_app_nth children_done_append children_done_Cons
                  children_done_Nil)
qed

section \<open>The sequence, tick by tick\<close>

lemma SequenceElement_tick_explicit:
  assumes "m_iter q < length (m_elements q)"
    and "SequenceElement_tick vt s (q, h) = (out, (q1, h1), ev)"
    and "a = m_elements q ! m_iter q"
    and "co = fst (tick vt s (if m_new_element q
                              then fst (snd (initialize vt (m_svcs q) (h a))) else h a))"
  shows "child_ticks ev = [(a, co)] \<and>
           child_inits ev = (if m_new_element q then [a] else []) \<and>
           child_finals ev = (if out_value co \<noteq> Running then [a] else []) \<and>
           out = (if out_value co = Success \<and> Suc (m_iter q) \<noteq> length (m_elements q)
                  then \<lparr>out_value = Running, actuate = actuate co\<rparr> else co) \<and>
           m_elements q1 = m_elements q \<and>
           m_iter q1 = (if out_value co \<noteq> Running then Suc (m_iter q) else m_iter q) \<and>
           m_new_element q1 = (out_value co \<noteq> Running)"
  using assms
  by (cases "out_value co")
     (auto simp: SequenceElement_tick_def Let_def Outcome_default_def
           split: prod.splits if_splits)

lemma SequenceElement_tick_step:
  assumes "m_iter q < length (m_elements q)"
    and "SequenceElement_tick vt s (q, h) = (out, (q1, h1), ev)"
  shows "\<exists>co. child_ticks ev = [(m_elements q ! m_iter q, co)] \<and>
           child_inits ev = (if m_new_element q then [m_elements q ! m_iter q] else []) \<and>
           child_finals ev = (if out_value co \<noteq> Running then [m_elements q ! m_iter q] else []) \<and>
           out = (if out_value co = Success \<and> Suc (m_iter q) \<noteq> length (m_elements q)
                  then \<lparr>out_value = Running, actuate = actuate co\<rparr> else co) \<and>
           m_elements q1 = m_elements q \<and>
           m_iter q1 = (if out_value co \<noteq> Running then Suc (m_iter q) else m_iter q) \<and>
           m_new_element q1 = (out_value co \<noteq> Running)"
  using SequenceElement_tick_explicit [OF assms refl refl] by blast

lemma SequenceElement_tick_running:
  assumes "m_iter q < length (m_elements q)"
    and "a = m_elements q ! m_iter q"
    and "c = (if m_new_element q then fst (snd (initialize vt (m_svcs q) (h a))) else h a)"
    and "out_value (fst (tick vt s c)) = Running"
  shows "\<exists>q1 ev. SequenceElement_tick vt s (q, h) =
                   (fst (tick vt s c), (q1, h(a := fst (snd (tick vt s c)))), ev) \<and>
                 m_elements q1 = m_elements q \<and> m_iter q1 = m_iter q \<and>
                 \<not> m_new_element q1 \<and>
                 child_inits ev = (if m_new_element q then [a] else []) \<and>
                 child_ticks ev = [(a, fst (tick vt s c))]"
proof -
  obtain co c2 evt where tk: "tick vt s c = (co, c2, evt)"
    by (metis prod.exhaust)
  show ?thesis
  proof (cases "m_new_element q")
    case True
    obtain m c0 evi where i: "initialize vt (m_svcs q) (h a) = (m, c0, evi)"
      by (metis prod.exhaust)
    with True assms(3) have c: "c = c0" by simp
    from assms(1,2,4) True i tk show ?thesis
      unfolding c
      by (simp add: SequenceElement_tick_def Let_def Outcome_default_def
            child_inits_append child_ticks_append)
  next
    case False
    with assms(3) have c: "c = h a" by simp
    from assms(1,2,4) False tk show ?thesis
      unfolding c
      by (simp add: SequenceElement_tick_def Let_def Outcome_default_def
            child_inits_append child_ticks_append)
  qed
qed

lemma SequenceElement_tick_terminal:
  assumes "m_iter q < length (m_elements q)"
    and "a = m_elements q ! m_iter q"
    and "c = (if m_new_element q then fst (snd (initialize vt (m_svcs q) (h a))) else h a)"
    and "out_value (fst (tick vt s c)) = Fail"
  shows "\<exists>x1 ev. SequenceElement_tick vt s (q, h) = (fst (tick vt s c), x1, ev) \<and>
                 child_inits ev = (if m_new_element q then [a] else []) \<and>
                 child_ticks ev = [(a, fst (tick vt s c))]"
proof -
  obtain out q1 h1 ev where tk: "SequenceElement_tick vt s (q, h) = (out, (q1, h1), ev)"
    by (metis prod.exhaust)
  from SequenceElement_tick_explicit [OF assms(1) tk assms(2) refl] assms(3,4) tk
  show ?thesis by auto
qed


lemma SequenceElement_tick_end:
  assumes "m_iter q = length (m_elements q)"
  shows "SequenceElement_tick vt s (q, h) =
           (\<lparr>out_value = Fail, actuate = \<lparr>velocity = 0\<rparr>\<rparr>, (q, h), [])"
  using assms by (simp add: SequenceElement_tick_def Outcome_default_def)

lemma ticks_SequenceElement_end:
  assumes "m_iter q = length (m_elements q)"
  shows "ticks (SequenceElement_class vt) ss (q, h) =
           (replicate (length ss) \<lparr>out_value = Fail, actuate = \<lparr>velocity = 0\<rparr>\<rparr>, (q, h), [])"
  using assms
  by (induction ss) (simp_all add: tick_SequenceElement_class SequenceElement_tick_end)

section \<open>The sequence under a caller that stops at the first terminal Outcome\<close>

lemma drive_sequence_shape:
  assumes "m_iter q < length (m_elements q)"
    and "T = fst (drive (SequenceElement_class vt) ss (q, h))"
    and "k < length T"
    and "i = m_iter q + children_done (take k T)"
  shows "\<exists>co. i < length (m_elements q) \<and>
           child_ticks (snd (T ! k)) = [(m_elements q ! i, co)] \<and>
           set (child_inits (snd (T ! k))) \<subseteq> {m_elements q ! i} \<and>
           set (child_finals (snd (T ! k))) \<subseteq> {m_elements q ! i} \<and>
           fst (T ! k) = (if out_value co = Success \<and> Suc i \<noteq> length (m_elements q)
                          then \<lparr>out_value = Running, actuate = actuate co\<rparr> else co)"
  using assms
proof (induction ss arbitrary: q h T k i)
  case Nil
  then show ?case by simp
next
  case (Cons s ss)
  obtain out q1 h1 ev where tk: "SequenceElement_tick vt s (q, h) = (out, (q1, h1), ev)"
    by (metis prod.exhaust)
  from SequenceElement_tick_step [OF Cons.prems(1) tk] obtain co where
    ct: "child_ticks ev = [(m_elements q ! m_iter q, co)]" and
    ci: "child_inits ev = (if m_new_element q then [m_elements q ! m_iter q] else [])" and
    cf: "child_finals ev = (if out_value co \<noteq> Running then [m_elements q ! m_iter q] else [])" and
    out: "out = (if out_value co = Success \<and> Suc (m_iter q) \<noteq> length (m_elements q)
                 then \<lparr>out_value = Running, actuate = actuate co\<rparr> else co)" and
    el: "m_elements q1 = m_elements q" and
    it: "m_iter q1 = (if out_value co \<noteq> Running then Suc (m_iter q) else m_iter q)"
    by blast
  show ?case
  proof (cases k)
    case 0
    have "T ! 0 = (out, ev)"
      using Cons.prems(2) tk
      by (simp add: tick_SequenceElement_class split: prod.splits if_splits)
    with 0 Cons.prems ct ci cf out show ?thesis
      by (auto simp: children_done_Nil)
  next
    case (Suc k')
    define T' where "T' = fst (drive (SequenceElement_class vt) ss (q1, h1))"
    have run: "out_value out = Running" and T: "T = (out, ev) # T'"
      using Cons.prems(2,3) tk Suc
      by (auto simp: tick_SequenceElement_class T'_def split: prod.splits if_splits)
    have lt: "m_iter q1 < length (m_elements q1)"
      using run out it el Cons.prems(1) by (auto split: if_splits)
    have k': "k' < length T'" using Cons.prems(3) T Suc by simp
    have i: "i = m_iter q1 + children_done (take k' T')"
      using Cons.prems(4) T Suc ct it by (auto simp: children_done_Cons)
    from Cons.IH [OF lt T'_def k' i] show ?thesis
      using T Suc el by simp
  qed
qed

lemma drive_stops:
  assumes "T = fst (drive vt ss st)" and "Suc k < length T"
  shows "out_value (fst (T ! k)) = Running"
  using assms
proof (induction ss arbitrary: st T k)
  case Nil
  then show ?case by simp
next
  case (Cons s ss)
  obtain out st1 ev where tk: "tick vt s st = (out, st1, ev)"
    by (metis prod.exhaust)
  show ?case
  proof (cases "out_value out = Running")
    case True
    with tk Cons.prems have T: "T = (out, ev) # fst (drive vt ss st1)"
      by (simp split: prod.splits)
    show ?thesis
    proof (cases k)
      case 0
      with T True show ?thesis by simp
    next
      case (Suc k')
      with T Cons.prems(2) Cons.IH [OF refl, of k' st1] show ?thesis by simp
    qed
  next
    case False
    with tk Cons.prems show ?thesis by simp
  qed
qed

lemma drive_initialized:
  assumes "SequenceElement_initialize svc (q, h) = (meta, x0, ev0)"
    and "T = fst (drive (SequenceElement_class vt) ss x0)"
    and "k < length T"
    and "child_ticks (snd (T ! k)) \<noteq> []"
  shows "\<exists>q0 h0. x0 = (q0, h0) \<and> m_elements q0 = m_elements q \<and> m_iter q0 = 0 \<and>
           m_iter q0 < length (m_elements q0)"
proof (cases "m_elements q = []")
  case True
  from assms(1) have x0: "x0 = (q\<lparr>m_svcs := svc, m_iter := 0, m_new_element := True\<rparr>, h)"
    by (auto simp: SequenceElement_initialize_def)
  have "\<forall>k<length T. snd (T ! k) = []"
    using assms(2) True unfolding x0
    by (cases ss) (simp_all add: tick_SequenceElement_class SequenceElement_tick_end)
  with assms(3,4) show ?thesis by simp
next
  case False
  with assms(1) show ?thesis
    by (auto simp: SequenceElement_initialize_def)
qed

section \<open>The leaf adapter over its lifecycle\<close>

lemma hook_calls_ticks:
  "hook_calls (snd (snd (ticks (MotionElement_class D) ss me))) =
     (if m_first_tick me
      then (case ss of [] \<Rightarrow> [] | s # r \<Rightarrow> Hook_data_initialize s # Hook_tick s # map Hook_tick r)
      else map Hook_tick ss)"
proof (induction ss arbitrary: me)
  case Nil
  then show ?case by simp
next
  case (Cons s ss)
  obtain out me1 ev where tk: "MotionElement_tick D s me = (out, me1, ev)"
    by (metis prod.exhaust)
  then have ft: "\<not> m_first_tick me1"
    and ev: "hook_calls ev =
               (if m_first_tick me then [Hook_data_initialize s, Hook_tick s] else [Hook_tick s])"
    by (auto simp: MotionElement_tick_def split: prod.splits if_splits)
  obtain outs me2 evs where tks: "ticks (MotionElement_class D) ss me1 = (outs, me2, evs)"
    by (metis prod.exhaust)
  with Cons.IH [of me1] ft have "hook_calls evs = map Hook_tick ss" by simp
  with tk tks ev show ?case
    by (simp add: MotionElement_class_simps hook_calls_append)
qed

lemma hook_calls_lifecycle:
  "hook_calls (snd (lifecycle (MotionElement_class D) svc ss me)) =
     (case ss of [] \<Rightarrow> [] | s # r \<Rightarrow> Hook_data_initialize s # Hook_tick s # map Hook_tick r)"
proof -
  obtain meta me1 ev1 where i: "MotionElement_initialize D svc me = (meta, me1, ev1)"
    by (metis prod.exhaust)
  then have ft: "m_first_tick me1" and ev1: "hook_calls ev1 = []"
    by (auto simp: MotionElement_initialize_def Let_def split: prod.splits)
  obtain outs me2 ev2 where t: "ticks (MotionElement_class D) ss me1 = (outs, me2, ev2)"
    by (metis prod.exhaust)
  obtain me3 ev3 where f: "MotionElement_finalize D me2 = (me3, ev3)"
    by (metis prod.exhaust)
  then have ev3: "hook_calls ev3 = []"
    by (auto simp: MotionElement_finalize_def split: prod.splits)
  from hook_calls_ticks [of D ss me1] t ft have
    "hook_calls ev2 =
       (case ss of [] \<Rightarrow> [] | s # r \<Rightarrow> Hook_data_initialize s # Hook_tick s # map Hook_tick r)"
    by simp
  with i t f ev1 ev3 show ?thesis
    by (simp add: lifecycle_def MotionElement_class_simps hook_calls_append)
qed

lemma reaction_calls_ticks:
  "reaction_calls (snd (snd (ticks (MotionElement_class D) ss me))) = []"
proof (induction ss arbitrary: me)
  case Nil
  then show ?case by simp
next
  case (Cons s ss)
  obtain out me1 ev where tk: "MotionElement_tick D s me = (out, me1, ev)"
    by (metis prod.exhaust)
  then have ev: "reaction_calls ev = []"
    by (auto simp: MotionElement_tick_def split: prod.splits if_splits)
  obtain outs me2 evs where tks: "ticks (MotionElement_class D) ss me1 = (outs, me2, evs)"
    by (metis prod.exhaust)
  with Cons.IH [of me1] have "reaction_calls evs = []" by simp
  with tk tks ev show ?case
    by (simp add: MotionElement_class_simps reaction_calls_append)
qed

lemma reaction_calls_initialize:
  "reaction_calls (snd (snd (MotionElement_initialize D svc me))) =
     [Activate (get_reaction_defs D)]"
  by (simp add: MotionElement_initialize_def Let_def split: prod.splits)

lemma reaction_calls_finalize:
  "reaction_calls (snd (MotionElement_finalize D me)) = [Release (get_reaction_defs D)]"
  by (simp add: MotionElement_finalize_def split: prod.splits)

lemma get_reaction_defs_flags:
  assumes "static_asserts D"
  shows "get_reaction_defs D =
           (if KNEE_JERK_REACTION D = ReactionDef_ENABLED then 1 else 0) OR
           (if FLINCH_REACTION D = ReactionDef_ENABLED then 2 else 0)"
  using assms
  by (cases "KNEE_JERK_REACTION D"; cases "FLINCH_REACTION D")
     (simp_all add: static_asserts_def get_reaction_defs_def)

section \<open>WalkToPosition away from its goal\<close>

lemma WalkToPosition_far:
  assumes "1 / 10 \<le> \<bar>goal_x me - measured_x s\<bar>"
  shows "WalkToPosition_motion_element_tick me s =
           (if ts s - init_ts me > TIMEOUT
            then (\<lparr>out_value = Fail,
                   actuate = \<lparr>velocity = (if goal_x me - measured_x s \<ge> 0 then 1 else - 1)\<rparr>\<rparr>,
                  me, [Notify (Some ''WalkToPosition'') [Str ''timeout'']])
            else if is_knee_jerking s
            then (\<lparr>out_value = Running, actuate = \<lparr>velocity = 0\<rparr>\<rparr>, me, [])
            else (\<lparr>out_value = Running,
                   actuate = \<lparr>velocity = (if goal_x me - measured_x s \<ge> 0 then 1 else - 1)\<rparr>\<rparr>,
                  me,
                  [Notify (Some ''WalkToPosition'')
                     [Str ''velocity='',
                      Num (if goal_x me - measured_x s \<ge> 0 then 1 else - 1),
                      Str '' pos='', Num (measured_x s),
                      Str '' dist='', Num (dsub (goal_x me) (measured_x s)),
                      Str '' goal='', Num (goal_x me)]]))"
  using fl_far [OF assms]
  by (simp add: WalkToPosition_motion_element_tick_def Outcome_default_def MY_VELO_def
        GOAL_THRESHOLD_def dsub_def Let_def)

lemma WalkToPosition_tick_far:
  assumes "1 / 10 \<le> \<bar>goal_x (derived me) - measured_x s\<bar>"
  shows "out_value (fst (MotionElement_tick WalkToPosition s me)) =
           (if TIMEOUT < ts s - (if m_first_tick me then ts s else init_ts (derived me))
            then Fail else Running)"
    and "fst (snd (MotionElement_tick WalkToPosition s me)) =
           me\<lparr>m_first_tick := False,
              derived := (derived me)\<lparr>init_ts := (if m_first_tick me then ts s
                                                  else init_ts (derived me))\<rparr>\<rparr>"
proof -
  have W: "WalkToPosition_motion_element_tick d s =
           (if ts s - init_ts d > TIMEOUT
            then (\<lparr>out_value = Fail,
                   actuate = \<lparr>velocity = (if goal_x d - measured_x s \<ge> 0 then 1 else - 1)\<rparr>\<rparr>,
                  d, [Notify (Some ''WalkToPosition'') [Str ''timeout'']])
            else if is_knee_jerking s
            then (\<lparr>out_value = Running, actuate = \<lparr>velocity = 0\<rparr>\<rparr>, d, [])
            else (\<lparr>out_value = Running,
                   actuate = \<lparr>velocity = (if goal_x d - measured_x s \<ge> 0 then 1 else - 1)\<rparr>\<rparr>,
                  d,
                  [Notify (Some ''WalkToPosition'')
                     [Str ''velocity='',
                      Num (if goal_x d - measured_x s \<ge> 0 then 1 else - 1),
                      Str '' pos='', Num (measured_x s),
                      Str '' dist='', Num (dsub (goal_x d) (measured_x s)),
                      Str '' goal='', Num (goal_x d)]]))"
    if "goal_x d = goal_x (derived me)" for d
    using assms that by (intro WalkToPosition_far) simp
  show "out_value (fst (MotionElement_tick WalkToPosition s me)) =
           (if TIMEOUT < ts s - (if m_first_tick me then ts s else init_ts (derived me))
            then Fail else Running)"
    by (cases "m_first_tick me")
       (simp_all add: MotionElement_tick_def WalkToPosition_def
          WalkToPosition_motion_element_data_initialize_def W TIMEOUT_def)
  show "fst (snd (MotionElement_tick WalkToPosition s me)) =
           me\<lparr>m_first_tick := False,
              derived := (derived me)\<lparr>init_ts := (if m_first_tick me then ts s
                                                  else init_ts (derived me))\<rparr>\<rparr>"
    by (cases "m_first_tick me")
       (simp_all add: MotionElement_tick_def WalkToPosition_def
          WalkToPosition_motion_element_data_initialize_def W TIMEOUT_def)
qed

lemma leaf_class_walk:
  "fst (tick leaf_class s (WalkToPosition_object me)) =
     fst (MotionElement_tick WalkToPosition s me)"
  "fst (snd (tick leaf_class s (WalkToPosition_object me))) =
     WalkToPosition_object (fst (snd (MotionElement_tick WalkToPosition s me)))"
  "fst (snd (initialize leaf_class svc (WalkToPosition_object me))) =
     WalkToPosition_object (me\<lparr>m_first_tick := True, m_services := svc\<rparr>)"
  by (simp_all add: leaf_class_def leaf_tick_def leaf_initialize_def split_beta
        MotionElement_initialize_def WalkToPosition_def
        MotionElement_motion_element_initialize_def)

lemma WalkToPosition_tick_state:
  "fst (snd (MotionElement_tick WalkToPosition s me)) =
     me\<lparr>m_first_tick := False,
        derived := (derived me)\<lparr>init_ts := (if m_first_tick me then ts s
                                            else init_ts (derived me))\<rparr>\<rparr>"
  by (simp add: MotionElement_tick_def WalkToPosition_def
        WalkToPosition_motion_element_data_initialize_def
        WalkToPosition_motion_element_tick_def Let_def)

lemma WalkToPosition_tick_latched:
  assumes "\<not> m_first_tick me"
  shows "fst (snd (MotionElement_tick WalkToPosition s me)) = me"
  using assms by (simp add: WalkToPosition_tick_state)

lemma ticks_append:
  "ticks vt (xs @ ys) st =
     (case ticks vt xs st of
        (outs, st1, evs) \<Rightarrow>
          (case ticks vt ys st1 of
             (outs', st2, evs') \<Rightarrow> (outs @ outs', st2, evs @ evs')))"
  by (induction xs arbitrary: st) (simp_all split: prod.splits)

lemma ticks_WalkToPosition_latched:
  assumes "\<not> m_first_tick me"
  shows "fst (snd (ticks (MotionElement_class WalkToPosition) ss me)) = me"
  using assms
proof (induction ss)
  case Nil
  then show ?case by simp
next
  case (Cons s ss)
  with WalkToPosition_tick_latched [of me s] show ?case
    by (simp add: MotionElement_class_simps split_beta)
qed

lemma WalkToPosition_latch_timeout:
  assumes "1 / 10 \<le> \<bar>goal_x (derived me) - measured_x s\<bar>"
    and "60000 * 1000000 < ts s - ts s0"
  shows "out_value (last (fst (ticks (MotionElement_class WalkToPosition) (s0 # between @ [s])
                                 (fst (snd (MotionElement_initialize WalkToPosition svc me)))))) =
           Fail"
proof -
  define me0 where "me0 = fst (snd (MotionElement_initialize WalkToPosition svc me))"
  define me1 where "me1 = fst (snd (MotionElement_tick WalkToPosition s0 me0))"
  have ft: "m_first_tick me0" and g0: "goal_x (derived me0) = goal_x (derived me)"
    by (simp_all add: me0_def MotionElement_initialize_def WalkToPosition_def
          MotionElement_motion_element_initialize_def)
  have l: "\<not> m_first_tick me1" and i: "init_ts (derived me1) = ts s0"
    and g: "goal_x (derived me1) = goal_x (derived me)"
    using ft g0 by (simp_all add: me1_def WalkToPosition_tick_state)
  have b: "fst (snd (ticks (MotionElement_class WalkToPosition) between me1)) = me1"
    using l by (rule ticks_WalkToPosition_latched)
  have "out_value (fst (MotionElement_tick WalkToPosition s me1)) = Fail"
    using WalkToPosition_tick_far(1) [of me1 s] assms l i g by (simp add: TIMEOUT_def)
  with b show ?thesis
    unfolding me0_def [symmetric]
    by (simp add: ticks_append MotionElement_class_simps split_beta me1_def)
qed

lemma drive_walk_timeout:
  assumes "m_iter q < length (m_elements q)" and "\<not> m_new_element q"
    and "a = m_elements q ! m_iter q"
    and "h a = WalkToPosition_object me" and "\<not> m_first_tick me"
    and "\<forall>s' \<in> set ss. 1 / 10 \<le> \<bar>goal_x (derived me) - measured_x s'\<bar> \<and>
                       ts s' - init_ts (derived me) \<le> TIMEOUT"
    and "1 / 10 \<le> \<bar>goal_x (derived me) - measured_x s\<bar>"
    and "TIMEOUT < ts s - init_ts (derived me)"
    and "T = fst (drive (SequenceElement_class leaf_class) (ss @ s # rest) (q, h))"
  shows "map (\<lambda>(out, ev). out_value out) T = replicate (length ss) Running @ [Fail] \<and>
         map (\<lambda>(out, ev). child_ticks ev) T = map (\<lambda>(out, ev). [(a, out)]) T \<and>
         map (\<lambda>(out, ev). child_inits ev) T = replicate (Suc (length ss)) []"
  using assms
proof (induction ss arbitrary: q h T)
  case Nil
  have f: "out_value (fst (tick leaf_class s (h a))) = Fail"
    using WalkToPosition_tick_far(1) [OF Nil(7)] Nil(4,5,8) by (simp add: leaf_class_walk)
  from SequenceElement_tick_terminal [OF Nil(1,3) _ , of "h a" leaf_class h s] Nil(2) f
  obtain x1 ev where "SequenceElement_tick leaf_class s (q, h) =
                        (fst (tick leaf_class s (h a)), x1, ev)"
    and "child_inits ev = []" and "child_ticks ev = [(a, fst (tick leaf_class s (h a)))]"
    by auto
  with f Nil(9) show ?case
    by (simp add: tick_SequenceElement_class)
next
  case (Cons s1 ss)
  have far1: "1 / 10 \<le> \<bar>goal_x (derived me) - measured_x s1\<bar>"
    and t1: "ts s1 - init_ts (derived me) \<le> TIMEOUT"
    using Cons.prems(6) by simp_all
  have r: "out_value (fst (tick leaf_class s1 (h a))) = Running"
    using WalkToPosition_tick_far(1) [OF far1] Cons.prems(4,5) t1 by (simp add: leaf_class_walk)
  have st: "fst (snd (tick leaf_class s1 (h a))) = WalkToPosition_object me"
    using Cons.prems(4,5) by (simp add: leaf_class_walk WalkToPosition_tick_latched)
  from SequenceElement_tick_running [OF Cons.prems(1,3) _ , of "h a" leaf_class h s1]
       Cons.prems(2) r st
  obtain q1 ev where tk: "SequenceElement_tick leaf_class s1 (q, h) =
                        (fst (tick leaf_class s1 (h a)), (q1, h(a := WalkToPosition_object me)), ev)"
    and q1: "m_elements q1 = m_elements q" "m_iter q1 = m_iter q" "\<not> m_new_element q1"
    and ev: "child_inits ev = []" "child_ticks ev = [(a, fst (tick leaf_class s1 (h a)))]"
    by auto
  define T' where
    "T' = fst (drive (SequenceElement_class leaf_class) (ss @ s # rest)
                 (q1, h(a := WalkToPosition_object me)))"
  have T: "T = (fst (tick leaf_class s1 (h a)), ev) # T'"
    using Cons.prems(9) tk r by (simp add: tick_SequenceElement_class T'_def split_beta)
  have IH: "map (\<lambda>(out, ev). out_value out) T' = replicate (length ss) Running @ [Fail] \<and>
         map (\<lambda>(out, ev). child_ticks ev) T' = map (\<lambda>(out, ev). [(a, out)]) T' \<and>
         map (\<lambda>(out, ev). child_inits ev) T' = replicate (Suc (length ss)) []"
    using Cons.prems(1,3,5,6,7,8) q1
    by (intro Cons.IH [of q1 "h(a := WalkToPosition_object me)" T'] T'_def) simp_all
  with T r ev show ?case by simp
qed


section \<open>The loop of the Executor\<close>

lemma Executor_before_Suc:
  "Executor_before vt element meta clock k (Suc n) x =
     fst (snd (Executor_iteration vt element meta (clock (k + n))
                 (Executor_before vt element meta clock k n x)))"
  by (induction n arbitrary: k x) simp_all

lemma Executor_shift:
  "Executor_before vt element meta clock (Suc k) n
     (fst (snd (Executor_iteration vt element meta (clock k) x))) =
   Executor_before vt element meta clock k (Suc n) x"
  "Executor_outcome vt element meta clock (Suc k) n
     (fst (snd (Executor_iteration vt element meta (clock k) x))) =
   Executor_outcome vt element meta clock k (Suc n) x"
  "Executor_events vt element meta clock (Suc k) n
     (fst (snd (Executor_iteration vt element meta (clock k) x))) =
   Executor_events vt element meta clock k (Suc n) x"
  by (simp_all add: Executor_outcome_def Executor_events_def)

lemma Executor_loop_exits:
  assumes "\<forall>i<n. out_value (Executor_outcome vt element meta clock k i x) = Running"
    and "out_value (Executor_outcome vt element meta clock k n x) \<noteq> Running"
    and "n < fuel"
  shows "Executor_loop fuel vt element meta clock k x =
           Some (Executor_outcome vt element meta clock k n x,
                 Executor_before vt element meta clock k (Suc n) x,
                 concat (map (\<lambda>i. Executor_events vt element meta clock k i x) [0..<Suc n]))"
  using assms
proof (induction n arbitrary: fuel k x)
  case 0
  then obtain f where fuel: "fuel = Suc f" by (cases fuel) auto
  obtain out x1 ev where it: "Executor_iteration vt element meta (clock k) x = (out, x1, ev)"
    by (metis prod.exhaust)
  with 0 fuel show ?case
    by (simp add: Executor_outcome_def Executor_events_def)
next
  case (Suc n)
  then obtain f where fuel: "fuel = Suc f" and f: "n < f" by (cases fuel) auto
  obtain out x1 ev where it: "Executor_iteration vt element meta (clock k) x = (out, x1, ev)"
    by (metis prod.exhaust)
  have o0: "Executor_outcome vt element meta clock k 0 x = out"
    and e0: "Executor_events vt element meta clock k 0 x = ev"
    using it by (simp_all add: Executor_outcome_def Executor_events_def)
  have run: "out_value out = Running"
    using Suc.prems(1) o0 by auto
  have sh: "Executor_before vt element meta clock (Suc k) j x1 =
              Executor_before vt element meta clock k (Suc j) x"
           "Executor_outcome vt element meta clock (Suc k) j x1 =
              Executor_outcome vt element meta clock k (Suc j) x"
           "Executor_events vt element meta clock (Suc k) j x1 =
              Executor_events vt element meta clock k (Suc j) x" for j
    using Executor_shift [of vt element meta clock k j x] it by simp_all
  have a: "\<forall>i<n. out_value (Executor_outcome vt element meta clock (Suc k) i x1) = Running"
    using Suc.prems(1) sh(2) by auto
  have b: "out_value (Executor_outcome vt element meta clock (Suc k) n x1) \<noteq> Running"
    using Suc.prems(2) sh(2) by simp
  have "Executor_loop f vt element meta clock (Suc k) x1 =
          Some (Executor_outcome vt element meta clock k (Suc n) x,
                Executor_before vt element meta clock k (Suc (Suc n)) x,
                concat (map (\<lambda>i. Executor_events vt element meta clock k (Suc i) x)
                          [0..<Suc n]))"
    using Suc.IH [OF a b f] by (simp only: sh)
  moreover have "concat (map (\<lambda>i. Executor_events vt element meta clock k i x)
                   [0..<Suc (Suc n)]) =
        ev @ concat (map (\<lambda>i. Executor_events vt element meta clock k (Suc i) x) [0..<Suc n])"
    using e0 by (simp only: map_upt_Suc [of _ "Suc n"] concat.simps list.map)
  ultimately show ?case
    using fuel it run by simp
qed

lemma Executor_loop_runs_on:
  assumes "\<forall>i<fuel. out_value (Executor_outcome vt element meta clock k i x) = Running"
  shows "Executor_loop fuel vt element meta clock k x = None"
  using assms
proof (induction fuel arbitrary: k x)
  case 0
  then show ?case by simp
next
  case (Suc fuel)
  obtain out x1 ev where it: "Executor_iteration vt element meta (clock k) x = (out, x1, ev)"
    by (metis prod.exhaust)
  have run: "out_value out = Running"
    using Suc.prems [rule_format, of 0] it by (simp add: Executor_outcome_def)
  have "\<forall>i<fuel. out_value (Executor_outcome vt element meta clock (Suc k) i x1) = Running"
    using Suc.prems Executor_shift(2) [of vt element meta clock k _ x] it by auto
  from Suc.IH [OF this] it run show ?case by simp
qed

lemma Executor_iteration_parts:
  assumes "B = Executor_before vt element meta clock k i x"
    and "S = (fst B)\<lparr>ts := clock (k + i)\<rparr>"
    and "out = Executor_outcome vt element meta clock k i x"
  shows "out = fst (tick vt S (snd B))"
    and "Executor_events vt element meta clock k i x =
           [Notify (name meta) [Str ''tick''],
            Call_tick element S (snd (snd (tick vt S (snd B)))) out]"
    and "Executor_before vt element meta clock k (Suc i) x =
           (S\<lparr>measured_x := dadd (measured_x S) (ddiv (dmul (velocity (actuate out)) 100) 1000),
              measured_velocity := velocity (actuate out)\<rparr>,
            fst (snd (tick vt S (snd B))))"
  using assms
  by (simp_all add: Executor_before_Suc Executor_outcome_def Executor_events_def
        Executor_iteration_def Let_def split_beta del: Executor_before.simps)

lemma Executor_before_add:
  "Executor_before vt element meta clock k (n + j) x =
     Executor_before vt element meta clock (k + n) j
       (Executor_before vt element meta clock k n x)"
  by (induction n arbitrary: k x) simp_all

lemma Executor_outcome_add:
  "Executor_outcome vt element meta clock k (n + j) x =
     Executor_outcome vt element meta clock (k + n) j
       (Executor_before vt element meta clock k n x)"
  by (simp add: Executor_outcome_def Executor_before_add add.assoc)

lemma Executor_events_add:
  "Executor_events vt element meta clock k (n + j) x =
     Executor_events vt element meta clock (k + n) j
       (Executor_before vt element meta clock k n x)"
  by (simp add: Executor_events_def Executor_before_add add.assoc)

section \<open>The run of main\<close>

lemma root_ticks_append: "root_ticks (xs @ ys) = root_ticks xs @ root_ticks ys"
  by (induction xs rule: root_ticks.induct) auto

lemmas run_defs =
  Executor_iteration_def Executor_outcome_def Executor_events_def main_start_def walking_def
  model_defs

lemmas walk_defs =
  Executor_iteration_def Executor_outcome_def Executor_events_def main_start_def walking_def
  frame_defs

lemma root_ticks_concat: "root_ticks (concat xs) = concat (map root_ticks xs)"
  by (induction xs) (simp_all add: root_ticks_append)

lemma walk_x_far:
  assumes "i \<le> 38"
  shows "1 / 10 \<le> \<bar>4 - walk_x i\<bar>" and "walk_x i \<le> 4"
proof -
  have f0: "walk_x i \<le> 39 / 10" if "i \<le> 0" for i
    using that by simp
  have f1: "walk_x i \<le> 39 / 10" if "i \<le> 1" for i
  proof (cases "i = 1")
    case True
    show ?thesis unfolding True walk_x_1 by simp
  next
    case False
    with that have "i \<le> 0" by simp
    then show ?thesis by (rule f0)
  qed
  have f2: "walk_x i \<le> 39 / 10" if "i \<le> 2" for i
  proof (cases "i = 2")
    case True
    show ?thesis unfolding True walk_x_2 by simp
  next
    case False
    with that have "i \<le> 1" by simp
    then show ?thesis by (rule f1)
  qed
  have f3: "walk_x i \<le> 39 / 10" if "i \<le> 3" for i
  proof (cases "i = 3")
    case True
    show ?thesis unfolding True walk_x_3 by simp
  next
    case False
    with that have "i \<le> 2" by simp
    then show ?thesis by (rule f2)
  qed
  have f4: "walk_x i \<le> 39 / 10" if "i \<le> 4" for i
  proof (cases "i = 4")
    case True
    show ?thesis unfolding True walk_x_4 by simp
  next
    case False
    with that have "i \<le> 3" by simp
    then show ?thesis by (rule f3)
  qed
  have f5: "walk_x i \<le> 39 / 10" if "i \<le> 5" for i
  proof (cases "i = 5")
    case True
    show ?thesis unfolding True walk_x_5 by simp
  next
    case False
    with that have "i \<le> 4" by simp
    then show ?thesis by (rule f4)
  qed
  have f6: "walk_x i \<le> 39 / 10" if "i \<le> 6" for i
  proof (cases "i = 6")
    case True
    show ?thesis unfolding True walk_x_6 by simp
  next
    case False
    with that have "i \<le> 5" by simp
    then show ?thesis by (rule f5)
  qed
  have f7: "walk_x i \<le> 39 / 10" if "i \<le> 7" for i
  proof (cases "i = 7")
    case True
    show ?thesis unfolding True walk_x_7 by simp
  next
    case False
    with that have "i \<le> 6" by simp
    then show ?thesis by (rule f6)
  qed
  have f8: "walk_x i \<le> 39 / 10" if "i \<le> 8" for i
  proof (cases "i = 8")
    case True
    show ?thesis unfolding True walk_x_8 by simp
  next
    case False
    with that have "i \<le> 7" by simp
    then show ?thesis by (rule f7)
  qed
  have f9: "walk_x i \<le> 39 / 10" if "i \<le> 9" for i
  proof (cases "i = 9")
    case True
    show ?thesis unfolding True walk_x_9 by simp
  next
    case False
    with that have "i \<le> 8" by simp
    then show ?thesis by (rule f8)
  qed
  have f10: "walk_x i \<le> 39 / 10" if "i \<le> 10" for i
  proof (cases "i = 10")
    case True
    show ?thesis unfolding True walk_x_10 by simp
  next
    case False
    with that have "i \<le> 9" by simp
    then show ?thesis by (rule f9)
  qed
  have f11: "walk_x i \<le> 39 / 10" if "i \<le> 11" for i
  proof (cases "i = 11")
    case True
    show ?thesis unfolding True walk_x_11 by simp
  next
    case False
    with that have "i \<le> 10" by simp
    then show ?thesis by (rule f10)
  qed
  have f12: "walk_x i \<le> 39 / 10" if "i \<le> 12" for i
  proof (cases "i = 12")
    case True
    show ?thesis unfolding True walk_x_12 by simp
  next
    case False
    with that have "i \<le> 11" by simp
    then show ?thesis by (rule f11)
  qed
  have f13: "walk_x i \<le> 39 / 10" if "i \<le> 13" for i
  proof (cases "i = 13")
    case True
    show ?thesis unfolding True walk_x_13 by simp
  next
    case False
    with that have "i \<le> 12" by simp
    then show ?thesis by (rule f12)
  qed
  have f14: "walk_x i \<le> 39 / 10" if "i \<le> 14" for i
  proof (cases "i = 14")
    case True
    show ?thesis unfolding True walk_x_14 by simp
  next
    case False
    with that have "i \<le> 13" by simp
    then show ?thesis by (rule f13)
  qed
  have f15: "walk_x i \<le> 39 / 10" if "i \<le> 15" for i
  proof (cases "i = 15")
    case True
    show ?thesis unfolding True walk_x_15 by simp
  next
    case False
    with that have "i \<le> 14" by simp
    then show ?thesis by (rule f14)
  qed
  have f16: "walk_x i \<le> 39 / 10" if "i \<le> 16" for i
  proof (cases "i = 16")
    case True
    show ?thesis unfolding True walk_x_16 by simp
  next
    case False
    with that have "i \<le> 15" by simp
    then show ?thesis by (rule f15)
  qed
  have f17: "walk_x i \<le> 39 / 10" if "i \<le> 17" for i
  proof (cases "i = 17")
    case True
    show ?thesis unfolding True walk_x_17 by simp
  next
    case False
    with that have "i \<le> 16" by simp
    then show ?thesis by (rule f16)
  qed
  have f18: "walk_x i \<le> 39 / 10" if "i \<le> 18" for i
  proof (cases "i = 18")
    case True
    show ?thesis unfolding True walk_x_18 by simp
  next
    case False
    with that have "i \<le> 17" by simp
    then show ?thesis by (rule f17)
  qed
  have f19: "walk_x i \<le> 39 / 10" if "i \<le> 19" for i
  proof (cases "i = 19")
    case True
    show ?thesis unfolding True walk_x_19 by simp
  next
    case False
    with that have "i \<le> 18" by simp
    then show ?thesis by (rule f18)
  qed
  have f20: "walk_x i \<le> 39 / 10" if "i \<le> 20" for i
  proof (cases "i = 20")
    case True
    show ?thesis unfolding True walk_x_20 by simp
  next
    case False
    with that have "i \<le> 19" by simp
    then show ?thesis by (rule f19)
  qed
  have f21: "walk_x i \<le> 39 / 10" if "i \<le> 21" for i
  proof (cases "i = 21")
    case True
    show ?thesis unfolding True walk_x_21 by simp
  next
    case False
    with that have "i \<le> 20" by simp
    then show ?thesis by (rule f20)
  qed
  have f22: "walk_x i \<le> 39 / 10" if "i \<le> 22" for i
  proof (cases "i = 22")
    case True
    show ?thesis unfolding True walk_x_22 by simp
  next
    case False
    with that have "i \<le> 21" by simp
    then show ?thesis by (rule f21)
  qed
  have f23: "walk_x i \<le> 39 / 10" if "i \<le> 23" for i
  proof (cases "i = 23")
    case True
    show ?thesis unfolding True walk_x_23 by simp
  next
    case False
    with that have "i \<le> 22" by simp
    then show ?thesis by (rule f22)
  qed
  have f24: "walk_x i \<le> 39 / 10" if "i \<le> 24" for i
  proof (cases "i = 24")
    case True
    show ?thesis unfolding True walk_x_24 by simp
  next
    case False
    with that have "i \<le> 23" by simp
    then show ?thesis by (rule f23)
  qed
  have f25: "walk_x i \<le> 39 / 10" if "i \<le> 25" for i
  proof (cases "i = 25")
    case True
    show ?thesis unfolding True walk_x_25 by simp
  next
    case False
    with that have "i \<le> 24" by simp
    then show ?thesis by (rule f24)
  qed
  have f26: "walk_x i \<le> 39 / 10" if "i \<le> 26" for i
  proof (cases "i = 26")
    case True
    show ?thesis unfolding True walk_x_26 by simp
  next
    case False
    with that have "i \<le> 25" by simp
    then show ?thesis by (rule f25)
  qed
  have f27: "walk_x i \<le> 39 / 10" if "i \<le> 27" for i
  proof (cases "i = 27")
    case True
    show ?thesis unfolding True walk_x_27 by simp
  next
    case False
    with that have "i \<le> 26" by simp
    then show ?thesis by (rule f26)
  qed
  have f28: "walk_x i \<le> 39 / 10" if "i \<le> 28" for i
  proof (cases "i = 28")
    case True
    show ?thesis unfolding True walk_x_28 by simp
  next
    case False
    with that have "i \<le> 27" by simp
    then show ?thesis by (rule f27)
  qed
  have f29: "walk_x i \<le> 39 / 10" if "i \<le> 29" for i
  proof (cases "i = 29")
    case True
    show ?thesis unfolding True walk_x_29 by simp
  next
    case False
    with that have "i \<le> 28" by simp
    then show ?thesis by (rule f28)
  qed
  have f30: "walk_x i \<le> 39 / 10" if "i \<le> 30" for i
  proof (cases "i = 30")
    case True
    show ?thesis unfolding True walk_x_30 by simp
  next
    case False
    with that have "i \<le> 29" by simp
    then show ?thesis by (rule f29)
  qed
  have f31: "walk_x i \<le> 39 / 10" if "i \<le> 31" for i
  proof (cases "i = 31")
    case True
    show ?thesis unfolding True walk_x_31 by simp
  next
    case False
    with that have "i \<le> 30" by simp
    then show ?thesis by (rule f30)
  qed
  have f32: "walk_x i \<le> 39 / 10" if "i \<le> 32" for i
  proof (cases "i = 32")
    case True
    show ?thesis unfolding True walk_x_32 by simp
  next
    case False
    with that have "i \<le> 31" by simp
    then show ?thesis by (rule f31)
  qed
  have f33: "walk_x i \<le> 39 / 10" if "i \<le> 33" for i
  proof (cases "i = 33")
    case True
    show ?thesis unfolding True walk_x_33 by simp
  next
    case False
    with that have "i \<le> 32" by simp
    then show ?thesis by (rule f32)
  qed
  have f34: "walk_x i \<le> 39 / 10" if "i \<le> 34" for i
  proof (cases "i = 34")
    case True
    show ?thesis unfolding True walk_x_34 by simp
  next
    case False
    with that have "i \<le> 33" by simp
    then show ?thesis by (rule f33)
  qed
  have f35: "walk_x i \<le> 39 / 10" if "i \<le> 35" for i
  proof (cases "i = 35")
    case True
    show ?thesis unfolding True walk_x_35 by simp
  next
    case False
    with that have "i \<le> 34" by simp
    then show ?thesis by (rule f34)
  qed
  have f36: "walk_x i \<le> 39 / 10" if "i \<le> 36" for i
  proof (cases "i = 36")
    case True
    show ?thesis unfolding True walk_x_36 by simp
  next
    case False
    with that have "i \<le> 35" by simp
    then show ?thesis by (rule f35)
  qed
  have f37: "walk_x i \<le> 39 / 10" if "i \<le> 37" for i
  proof (cases "i = 37")
    case True
    show ?thesis unfolding True walk_x_37 by simp
  next
    case False
    with that have "i \<le> 36" by simp
    then show ?thesis by (rule f36)
  qed
  have f38: "walk_x i \<le> 39 / 10" if "i \<le> 38" for i
  proof (cases "i = 38")
    case True
    show ?thesis unfolding True walk_x_38 by simp
  next
    case False
    with that have "i \<le> 37" by simp
    then show ?thesis by (rule f37)
  qed
  from f38 [OF assms] show "1 / 10 \<le> \<bar>4 - walk_x i\<bar>" and "walk_x i \<le> 4"
    by simp_all
qed

lemma main_first_iteration:
  "fst (Executor_iteration (SequenceElement_class leaf_class) 2 \<lparr>name = Some ''Sequence''\<rparr>
          (clock 1) (main_start clock it)) =
     \<lparr>out_value = Running, actuate = \<lparr>velocity = 1\<rparr>\<rparr>"
  "fst (snd (Executor_iteration (SequenceElement_class leaf_class) 2
               \<lparr>name = Some ''Sequence''\<rparr> (clock 1) (main_start clock it))) =
     walking clock 1"
  "root_ticks (snd (snd (Executor_iteration (SequenceElement_class leaf_class) 2
                           \<lparr>name = Some ''Sequence''\<rparr> (clock 1) (main_start clock it)))) =
     [(\<lparr>measured_velocity = 0, measured_x = walk_x 0, is_flinching = False,
        is_knee_jerking = False, ts = clock 1\<rparr>,
       [1], [(1, \<lparr>out_value = Running, actuate = \<lparr>velocity = 1\<rparr>\<rparr>)],
       \<lparr>out_value = Running, actuate = \<lparr>velocity = 1\<rparr>\<rparr>)]"
  by (simp_all add: run_defs)

lemma main_walking_iteration:
  assumes "1 \<le> i" and "i \<le> 38" and "clock (Suc i) - clock 1 \<le> 60000 * 1000000"
  shows
  "fst (Executor_iteration (SequenceElement_class leaf_class) 2 \<lparr>name = Some ''Sequence''\<rparr>
          (clock (Suc i)) (walking clock i)) =
     \<lparr>out_value = Running, actuate = \<lparr>velocity = 1\<rparr>\<rparr>"
  "fst (snd (Executor_iteration (SequenceElement_class leaf_class) 2
               \<lparr>name = Some ''Sequence''\<rparr> (clock (Suc i)) (walking clock i))) =
     walking clock (Suc i)"
  "root_ticks (snd (snd (Executor_iteration (SequenceElement_class leaf_class) 2
                           \<lparr>name = Some ''Sequence''\<rparr> (clock (Suc i)) (walking clock i)))) =
     [(\<lparr>measured_velocity = 1, measured_x = walk_x i, is_flinching = False,
        is_knee_jerking = False, ts = clock (Suc i)\<rparr>,
       [], [(1, \<lparr>out_value = Running, actuate = \<lparr>velocity = 1\<rparr>\<rparr>)],
       \<lparr>out_value = Running, actuate = \<lparr>velocity = 1\<rparr>\<rparr>)]"
proof -
  have late: "\<not> 60000000000 < clock (Suc i) - clock 1"
    using assms(3) by simp
  note far = walk_x_far [OF assms(2)]
  have W: "WalkToPosition_motion_element_tick \<lparr>goal_x = 4, init_ts = clock (Suc 0)\<rparr>
             \<lparr>measured_velocity = 1, measured_x = walk_x i, is_flinching = False,
              is_knee_jerking = False, ts = clock (Suc i)\<rparr> =
           (\<lparr>out_value = Running, actuate = \<lparr>velocity = 1\<rparr>\<rparr>,
            \<lparr>goal_x = 4, init_ts = clock (Suc 0)\<rparr>,
            [Notify (Some ''WalkToPosition'')
               [Str ''velocity='', Num 1, Str '' pos='', Num (walk_x i),
                Str '' dist='', Num (dsub 4 (walk_x i)), Str '' goal='', Num 4]])"
    using far late by (simp add: WalkToPosition_far TIMEOUT_def)
  show
  "fst (Executor_iteration (SequenceElement_class leaf_class) 2 \<lparr>name = Some ''Sequence''\<rparr>
          (clock (Suc i)) (walking clock i)) =
     \<lparr>out_value = Running, actuate = \<lparr>velocity = 1\<rparr>\<rparr>"
  "fst (snd (Executor_iteration (SequenceElement_class leaf_class) 2
               \<lparr>name = Some ''Sequence''\<rparr> (clock (Suc i)) (walking clock i))) =
     walking clock (Suc i)"
  "root_ticks (snd (snd (Executor_iteration (SequenceElement_class leaf_class) 2
                           \<lparr>name = Some ''Sequence''\<rparr> (clock (Suc i)) (walking clock i)))) =
     [(\<lparr>measured_velocity = 1, measured_x = walk_x i, is_flinching = False,
        is_knee_jerking = False, ts = clock (Suc i)\<rparr>,
       [], [(1, \<lparr>out_value = Running, actuate = \<lparr>velocity = 1\<rparr>\<rparr>)],
       \<lparr>out_value = Running, actuate = \<lparr>velocity = 1\<rparr>\<rparr>)]"
    by (simp_all add: walk_defs W)
qed


lemma walking_39:
  "walking clock 39 =
     (\<lparr>measured_velocity = 1, measured_x = 1097752409171559 / 281474976710656, is_flinching = False,
       is_knee_jerking = False, ts = clock 39\<rparr>,
      \<lparr>m_svcs = Services_default, m_elements = [1, 0], m_iter = 0, m_new_element = False,
       m_meta = \<lparr>name = Some ''WalkToPosition''\<rparr>\<rparr>,
      (main_store 4)
        (1 := WalkToPosition_object
                \<lparr>m_services = Services_default, m_first_tick = False,
                 derived = \<lparr>goal_x = 4, init_ts = clock 1\<rparr>\<rparr>))"
  by (simp only: walking_def walk_x_39)

lemma main_stopping:
  "Executor_outcome (SequenceElement_class leaf_class) 2 \<lparr>name = Some ''Sequence''\<rparr>
     clock 40 0 (walking clock 39) = \<lparr>out_value = Running, actuate = \<lparr>velocity = 1\<rparr>\<rparr>"
  "Executor_outcome (SequenceElement_class leaf_class) 2 \<lparr>name = Some ''Sequence''\<rparr>
     clock 40 1 (walking clock 39) = \<lparr>out_value = Running, actuate = \<lparr>velocity = 0\<rparr>\<rparr>"
  "Executor_outcome (SequenceElement_class leaf_class) 2 \<lparr>name = Some ''Sequence''\<rparr>
     clock 40 2 (walking clock 39) = \<lparr>out_value = Success, actuate = \<lparr>velocity = 0\<rparr>\<rparr>"
  "root_ticks (Executor_events (SequenceElement_class leaf_class) 2 \<lparr>name = Some ''Sequence''\<rparr>
     clock 40 0 (walking clock 39)) =
     [(\<lparr>measured_velocity = 1, measured_x = 1097752409171559 / 281474976710656, is_flinching = False,
        is_knee_jerking = False, ts = clock 40\<rparr>,
       [], [(1, \<lparr>out_value = Success, actuate = \<lparr>velocity = 1\<rparr>\<rparr>)],
       \<lparr>out_value = Running, actuate = \<lparr>velocity = 1\<rparr>\<rparr>)]"
  "root_ticks (Executor_events (SequenceElement_class leaf_class) 2 \<lparr>name = Some ''Sequence''\<rparr>
     clock 40 1 (walking clock 39)) =
     [(\<lparr>measured_velocity = 1, measured_x = 2251799813685249 / 562949953421312, is_flinching = False,
        is_knee_jerking = False, ts = clock 41\<rparr>,
       [0], [(0, \<lparr>out_value = Running, actuate = \<lparr>velocity = 0\<rparr>\<rparr>)],
       \<lparr>out_value = Running, actuate = \<lparr>velocity = 0\<rparr>\<rparr>)]"
  "root_ticks (Executor_events (SequenceElement_class leaf_class) 2 \<lparr>name = Some ''Sequence''\<rparr>
     clock 40 2 (walking clock 39)) =
     [(\<lparr>measured_velocity = 0, measured_x = 2251799813685249 / 562949953421312, is_flinching = False,
        is_knee_jerking = False, ts = clock 42\<rparr>,
       [], [(0, \<lparr>out_value = Success, actuate = \<lparr>velocity = 0\<rparr>\<rparr>)],
       \<lparr>out_value = Success, actuate = \<lparr>velocity = 0\<rparr>\<rparr>)]"
  "fst (Executor_before (SequenceElement_class leaf_class) 2 \<lparr>name = Some ''Sequence''\<rparr>
     clock 40 3 (walking clock 39)) =
     \<lparr>measured_velocity = 0, measured_x = 2251799813685249 / 562949953421312, is_flinching = False,
      is_knee_jerking = False, ts = clock 42\<rparr>"
  unfolding walking_39
  by (simp_all add: Executor_iteration_def Executor_outcome_def Executor_events_def model_defs
        increment increment_zero dadd_def fl_eval rne_def numeral_2_eq_2 numeral_3_eq_3)


lemma main_before_walking:
  assumes "\<forall>k. 2 \<le> k \<and> k \<le> 39 \<longrightarrow> clock k - clock 1 \<le> 60000 * 1000000"
    and "i \<le> 38"
  shows "Executor_before (SequenceElement_class leaf_class) 2 \<lparr>name = Some ''Sequence''\<rparr>
           clock 1 (Suc i) (main_start clock it) = walking clock (Suc i)"
  using assms(2)
proof (induction i)
  case 0
  show ?case using main_first_iteration(2) [of clock it] by simp
next
  case (Suc i)
  then have IH: "Executor_before (SequenceElement_class leaf_class) 2
                   \<lparr>name = Some ''Sequence''\<rparr> clock 1 (Suc i) (main_start clock it) =
                 walking clock (Suc i)"
    by simp
  have "clock (Suc (Suc i)) - clock 1 \<le> 60000 * 1000000"
    using assms(1) Suc.prems by simp
  from main_walking_iteration(2) [OF _ Suc.prems this] IH show ?case
    by (simp only: Executor_before_Suc [of _ _ _ _ _ "Suc i"]) simp
qed

lemma main_walking_outcome:
  assumes "\<forall>k. 2 \<le> k \<and> k \<le> 39 \<longrightarrow> clock k - clock 1 \<le> 60000 * 1000000"
    and "i \<le> 38"
  shows "Executor_outcome (SequenceElement_class leaf_class) 2 \<lparr>name = Some ''Sequence''\<rparr>
           clock 1 i (main_start clock it) = \<lparr>out_value = Running, actuate = \<lparr>velocity = 1\<rparr>\<rparr>"
    and "root_ticks (Executor_events (SequenceElement_class leaf_class) 2
           \<lparr>name = Some ''Sequence''\<rparr> clock 1 i (main_start clock it)) =
         [(\<lparr>measured_velocity = (if i = 0 then 0 else 1), measured_x = walk_x i,
            is_flinching = False, is_knee_jerking = False, ts = clock (Suc i)\<rparr>,
           (if i = 0 then [1] else []),
           [(1, \<lparr>out_value = Running, actuate = \<lparr>velocity = 1\<rparr>\<rparr>)],
           \<lparr>out_value = Running, actuate = \<lparr>velocity = 1\<rparr>\<rparr>)]"
proof -
  show "Executor_outcome (SequenceElement_class leaf_class) 2 \<lparr>name = Some ''Sequence''\<rparr>
           clock 1 i (main_start clock it) = \<lparr>out_value = Running, actuate = \<lparr>velocity = 1\<rparr>\<rparr>"
  proof (cases i)
    case 0
    then show ?thesis
      using main_first_iteration(1) [of clock it] by (simp add: Executor_outcome_def)
  next
    case (Suc j)
    have c: "clock (Suc i) - clock 1 \<le> 60000 * 1000000"
      using assms Suc by simp
    have "j \<le> 38" using assms(2) Suc by simp
    from main_before_walking [OF assms(1) this] main_walking_iteration(1) [OF _ assms(2) c] Suc
    show ?thesis by (simp add: Executor_outcome_def)
  qed
  show "root_ticks (Executor_events (SequenceElement_class leaf_class) 2
           \<lparr>name = Some ''Sequence''\<rparr> clock 1 i (main_start clock it)) =
         [(\<lparr>measured_velocity = (if i = 0 then 0 else 1), measured_x = walk_x i,
            is_flinching = False, is_knee_jerking = False, ts = clock (Suc i)\<rparr>,
           (if i = 0 then [1] else []),
           [(1, \<lparr>out_value = Running, actuate = \<lparr>velocity = 1\<rparr>\<rparr>)],
           \<lparr>out_value = Running, actuate = \<lparr>velocity = 1\<rparr>\<rparr>)]"
  proof (cases i)
    case 0
    then show ?thesis
      using main_first_iteration(3) [of clock it] by (simp add: Executor_events_def)
  next
    case (Suc j)
    have c: "clock (Suc i) - clock 1 \<le> 60000 * 1000000"
      using assms Suc by simp
    have "j \<le> 38" using assms(2) Suc by simp
    from main_before_walking [OF assms(1) this] main_walking_iteration(3) [OF _ assms(2) c] Suc
    show ?thesis by (simp add: Executor_events_def)
  qed
qed

lemma main_run_trace:
  assumes walk: "\<forall>k. 2 \<le> k \<and> k \<le> 39 \<longrightarrow> clock k - clock 1 \<le> 60000 * 1000000"
    and fuel: "42 \<le> fuel"
  shows "\<exists>st evs.
           main_run fuel clock it =
             Some (\<lparr>out_value = Success, actuate = \<lparr>velocity = 0\<rparr>\<rparr>,
                   \<lparr>measured_velocity = 0, measured_x = 2251799813685249 / 562949953421312, is_flinching = False,
                    is_knee_jerking = False, ts = clock 42\<rparr>, st, evs) \<and>
           root_ticks evs =
             map (\<lambda>i. (\<lparr>measured_velocity = (if i = 0 then 0 else 1), measured_x = walk_x i,
            is_flinching = False, is_knee_jerking = False, ts = clock (Suc i)\<rparr>,
           (if i = 0 then [1] else []),
           [(1, \<lparr>out_value = Running, actuate = \<lparr>velocity = 1\<rparr>\<rparr>)],
           \<lparr>out_value = Running, actuate = \<lparr>velocity = 1\<rparr>\<rparr>)) [0..<39] @
             [(\<lparr>measured_velocity = 1, measured_x = 1097752409171559 / 281474976710656, is_flinching = False,
                is_knee_jerking = False, ts = clock 40\<rparr>,
               [], [(1, \<lparr>out_value = Success, actuate = \<lparr>velocity = 1\<rparr>\<rparr>)],
               \<lparr>out_value = Running, actuate = \<lparr>velocity = 1\<rparr>\<rparr>),
              (\<lparr>measured_velocity = 1, measured_x = 2251799813685249 / 562949953421312, is_flinching = False,
                is_knee_jerking = False, ts = clock 41\<rparr>,
               [0], [(0, \<lparr>out_value = Running, actuate = \<lparr>velocity = 0\<rparr>\<rparr>)],
               \<lparr>out_value = Running, actuate = \<lparr>velocity = 0\<rparr>\<rparr>),
              (\<lparr>measured_velocity = 0, measured_x = 2251799813685249 / 562949953421312, is_flinching = False,
                is_knee_jerking = False, ts = clock 42\<rparr>,
               [], [(0, \<lparr>out_value = Success, actuate = \<lparr>velocity = 0\<rparr>\<rparr>)],
               \<lparr>out_value = Success, actuate = \<lparr>velocity = 0\<rparr>\<rparr>)]"
proof -
  let ?vt = "SequenceElement_class leaf_class"
  let ?m = "\<lparr>name = Some ''Sequence''\<rparr>"
  let ?x = "main_start clock it"
  let ?O = "\<lambda>i. Executor_outcome ?vt 2 ?m clock 1 i ?x"
  let ?E = "\<lambda>i. Executor_events ?vt 2 ?m clock 1 i ?x"
  have b39: "Executor_before ?vt 2 ?m clock 1 39 ?x = walking clock 39"
    using main_before_walking [OF walk, of 38 it] by simp
  have tailO: "?O (39 + j) = Executor_outcome ?vt 2 ?m clock 40 j (walking clock 39)"
    and tailE: "?E (39 + j) = Executor_events ?vt 2 ?m clock 40 j (walking clock 39)" for j
    using b39 by (simp_all add: Executor_outcome_add Executor_events_add)
  have o39: "?O 39 = \<lparr>out_value = Running, actuate = \<lparr>velocity = 1\<rparr>\<rparr>"
    and o40: "?O 40 = \<lparr>out_value = Running, actuate = \<lparr>velocity = 0\<rparr>\<rparr>"
    and o41: "?O 41 = \<lparr>out_value = Success, actuate = \<lparr>velocity = 0\<rparr>\<rparr>"
    using tailO [of 0] tailO [of 1] tailO [of 2] main_stopping(1-3) [of clock] by simp_all
  have running: "\<forall>i<41. out_value (?O i) = Running"
  proof (intro allI impI)
    fix i :: nat
    assume "i < 41"
    then consider "i \<le> 38" | "i = 39" | "i = 40" by linarith
    then show "out_value (?O i) = Running"
      using main_walking_outcome(1) [OF walk, of i it] o39 o40 by cases simp_all
  qed
  have terminal: "out_value (?O 41) \<noteq> Running" using o41 by simp
  have "41 < fuel" using fuel by simp
  from Executor_loop_exits [OF running terminal this]
  have loop: "Executor_loop fuel ?vt 2 ?m clock 1 ?x =
                Some (?O 41, Executor_before ?vt 2 ?m clock 1 42 ?x,
                      concat (map ?E [0..<42]))"
    by simp
  have b42: "fst (Executor_before ?vt 2 ?m clock 1 42 ?x) =
               \<lparr>measured_velocity = 0, measured_x = 2251799813685249 / 562949953421312, is_flinching = False,
                is_knee_jerking = False, ts = clock 42\<rparr>"
    using Executor_before_add [of ?vt 2 ?m clock 1 39 3 ?x] b39 main_stopping(7) [of clock]
    by simp
  have split: "[0..<42] = [0..<39] @ [39, 40, 41]"
    by (simp add: upt_rec [of 39] upt_rec [of 40] upt_rec [of 41]
          upt_add_eq_append [of 0 39 3, simplified])
  have walkE: "map (\<lambda>i. root_ticks (?E i)) [0..<39] =
      map (\<lambda>i. [(\<lparr>measured_velocity = (if i = 0 then 0 else 1), measured_x = walk_x i,
            is_flinching = False, is_knee_jerking = False, ts = clock (Suc i)\<rparr>,
           (if i = 0 then [1] else []),
           [(1, \<lparr>out_value = Running, actuate = \<lparr>velocity = 1\<rparr>\<rparr>)],
           \<lparr>out_value = Running, actuate = \<lparr>velocity = 1\<rparr>\<rparr>)]) [0..<39]"
    using main_walking_outcome(2) [OF walk] by (intro map_cong refl) simp
  have rt: "root_ticks (concat (map ?E [0..<42])) =
      concat (map (\<lambda>i. root_ticks (?E i)) [0..<39]) @
      root_ticks (?E 39) @ root_ticks (?E 40) @ root_ticks (?E 41)"
    by (simp add: split root_ticks_append root_ticks_concat o_def)
  obtain out s1 st2 ev2 where
    l: "Executor_loop fuel ?vt 2 ?m clock 1 ?x = Some (out, (s1, st2), ev2)"
    and out: "out = ?O 41" and s1: "s1 = fst (Executor_before ?vt 2 ?m clock 1 42 ?x)"
    and ev2: "ev2 = concat (map ?E [0..<42])"
    using loop by (metis prod.collapse)
  have run: "main_run fuel clock it =
          Some (out, s1, st2,
                [Call_initialize 2 [] ?m, Notify (Some ''Sequence'') [Str ''initialize'']] @
                ev2 @ [Call_finalize 2 [], Notify (Some ''Sequence'') [Str ''finalize'']])"
    using l
    by (simp add: main_run_def Executor_run_def SequenceElement_class_def
          SequenceElement_initialize_def SequenceElement_finalize_def main_start_def
          main_sequence_def Let_def)
  define evs where
    "evs = [Call_initialize 2 [] ?m, Notify (Some ''Sequence'') [Str ''initialize'']] @
           ev2 @ [Call_finalize 2 [], Notify (Some ''Sequence'') [Str ''finalize'']]"
  have run': "main_run fuel clock it =
          Some (\<lparr>out_value = Success, actuate = \<lparr>velocity = 0\<rparr>\<rparr>,
                \<lparr>measured_velocity = 0, measured_x = 2251799813685249 / 562949953421312, is_flinching = False,
                 is_knee_jerking = False, ts = clock 42\<rparr>, st2, evs)"
    using run out s1 o41 b42 by (simp only: evs_def)
  have e39: "root_ticks (?E 39) =
     [(\<lparr>measured_velocity = 1, measured_x = 1097752409171559 / 281474976710656, is_flinching = False,
                is_knee_jerking = False, ts = clock 40\<rparr>,
               [], [(1, \<lparr>out_value = Success, actuate = \<lparr>velocity = 1\<rparr>\<rparr>)],
               \<lparr>out_value = Running, actuate = \<lparr>velocity = 1\<rparr>\<rparr>)]"
    using tailE [of 0] main_stopping(4) [of clock] by simp
  have e40: "root_ticks (?E 40) =
     [(\<lparr>measured_velocity = 1, measured_x = 2251799813685249 / 562949953421312, is_flinching = False,
                is_knee_jerking = False, ts = clock 41\<rparr>,
               [0], [(0, \<lparr>out_value = Running, actuate = \<lparr>velocity = 0\<rparr>\<rparr>)],
               \<lparr>out_value = Running, actuate = \<lparr>velocity = 0\<rparr>\<rparr>)]"
    using tailE [of 1] main_stopping(5) [of clock] by simp
  have e41: "root_ticks (?E 41) =
     [(\<lparr>measured_velocity = 0, measured_x = 2251799813685249 / 562949953421312, is_flinching = False,
                is_knee_jerking = False, ts = clock 42\<rparr>,
               [], [(0, \<lparr>out_value = Success, actuate = \<lparr>velocity = 0\<rparr>\<rparr>)],
               \<lparr>out_value = Success, actuate = \<lparr>velocity = 0\<rparr>\<rparr>)]"
    using tailE [of 2] main_stopping(6) [of clock] by simp
  have "root_ticks evs = root_ticks ev2"
    by (simp add: evs_def root_ticks_append)
  also have "\<dots> = concat (map (\<lambda>i. root_ticks (?E i)) [0..<39]) @
      root_ticks (?E 39) @ root_ticks (?E 40) @ root_ticks (?E 41)"
    using rt ev2 by simp
  finally have "root_ticks evs =
             map (\<lambda>i. (\<lparr>measured_velocity = (if i = 0 then 0 else 1), measured_x = walk_x i,
            is_flinching = False, is_knee_jerking = False, ts = clock (Suc i)\<rparr>,
           (if i = 0 then [1] else []),
           [(1, \<lparr>out_value = Running, actuate = \<lparr>velocity = 1\<rparr>\<rparr>)],
           \<lparr>out_value = Running, actuate = \<lparr>velocity = 1\<rparr>\<rparr>)) [0..<39] @
             [(\<lparr>measured_velocity = 1, measured_x = 1097752409171559 / 281474976710656, is_flinching = False,
                is_knee_jerking = False, ts = clock 40\<rparr>,
               [], [(1, \<lparr>out_value = Success, actuate = \<lparr>velocity = 1\<rparr>\<rparr>)],
               \<lparr>out_value = Running, actuate = \<lparr>velocity = 1\<rparr>\<rparr>),
              (\<lparr>measured_velocity = 1, measured_x = 2251799813685249 / 562949953421312, is_flinching = False,
                is_knee_jerking = False, ts = clock 41\<rparr>,
               [0], [(0, \<lparr>out_value = Running, actuate = \<lparr>velocity = 0\<rparr>\<rparr>)],
               \<lparr>out_value = Running, actuate = \<lparr>velocity = 0\<rparr>\<rparr>),
              (\<lparr>measured_velocity = 0, measured_x = 2251799813685249 / 562949953421312, is_flinching = False,
                is_knee_jerking = False, ts = clock 42\<rparr>,
               [], [(0, \<lparr>out_value = Success, actuate = \<lparr>velocity = 0\<rparr>\<rparr>)],
               \<lparr>out_value = Success, actuate = \<lparr>velocity = 0\<rparr>\<rparr>)]"
    by (simp only: walkE e39 e40 e41 concat_map_singleton append.simps)
  with run' show ?thesis by blast
qed


section \<open>The claims\<close>

subsection \<open>The empty sequence and the exhausted sequence\<close>

text \<open>
  C5. A SequenceElement with an empty child list: the first tick after initialize
  returns an Outcome with value Fail, and its trace is empty, so no initialize, tick or
  finalize of any child is called; the store of child objects is unchanged. The same
  holds of every tick that follows the first, whatever their number.
\<close>

theorem empty_sequence_first_tick_fails:
  "SequenceElement_tick vt s
     (fst (snd (SequenceElement_initialize svc (q\<lparr>m_elements := []\<rparr>, h)))) =
   (\<lparr>out_value = Fail, actuate = \<lparr>velocity = 0\<rparr>\<rparr>,
    (q\<lparr>m_elements := [], m_svcs := svc, m_iter := 0, m_new_element := True\<rparr>, h), []) \<and>
   ticks (SequenceElement_class vt) (s # ss)
     (fst (snd (SequenceElement_initialize svc (q\<lparr>m_elements := []\<rparr>, h)))) =
   (replicate (Suc (length ss)) \<lparr>out_value = Fail, actuate = \<lparr>velocity = 0\<rparr>\<rparr>,
    (q\<lparr>m_elements := [], m_svcs := svc, m_iter := 0, m_new_element := True\<rparr>, h), [])"
  using ticks_SequenceElement_end
          [of "q\<lparr>m_elements := [], m_svcs := svc, m_iter := 0, m_new_element := True\<rparr>"
              vt "s # ss" h]
  by (simp add: SequenceElement_tick_def SequenceElement_initialize_def Outcome_default_def)

text \<open>
  C10. Once the iterator of a SequenceElement has passed the last child, that is in any
  state where it stands at the end of the vector, and in particular in the state left by
  the tick on which the sequence returned the terminal Outcome of its last child, every
  further tick, with no initialize in between, returns Fail with the zero velocity of a
  default-constructed ActuateCmd; the trace of these ticks is empty, so no child is
  initialized, ticked or finalized, and the state is unchanged.
\<close>

theorem sequence_tick_past_last_child:
  assumes "m_iter q = length (m_elements q) \<or>
           (Suc (m_iter q0) = length (m_elements q0) \<and>
            SequenceElement_tick vt s0 (q0, h0) = (out0, (q, h), ev0) \<and>
            out_value out0 \<noteq> Running)"
  shows "m_iter q = length (m_elements q) \<and>
         ticks (SequenceElement_class vt) ss (q, h) =
           (replicate (length ss) \<lparr>out_value = Fail, actuate = \<lparr>velocity = 0\<rparr>\<rparr>, (q, h), [])"
proof -
  have "m_iter q = length (m_elements q)"
    using assms
  proof
    assume "m_iter q = length (m_elements q)"
    then show ?thesis .
  next
    assume a: "Suc (m_iter q0) = length (m_elements q0) \<and>
            SequenceElement_tick vt s0 (q0, h0) = (out0, (q, h), ev0) \<and>
            out_value out0 \<noteq> Running"
    then have lt: "m_iter q0 < length (m_elements q0)" by simp
    from SequenceElement_tick_step [OF lt] a show ?thesis
      by (metis (full_types))
  qed
  with ticks_SequenceElement_end show ?thesis by blast
qed

theorem sequence_tick_past_last_child_witness:
  "\<exists>x1 ev.
     SequenceElement_tick leaf_class (SenseInfo_default\<lparr>measured_x := 4\<rparr>)
       (fst (snd (SequenceElement_initialize Services_default
                    (SequenceElement_new [1] 7, main_store 4)))) =
       (\<lparr>out_value = Success, actuate = \<lparr>velocity = 1\<rparr>\<rparr>, x1, ev) \<and>
     m_iter (fst x1) = 1 \<and>
     ticks (SequenceElement_class leaf_class)
       [SenseInfo_default, SenseInfo_default\<lparr>measured_x := 4\<rparr>] x1 =
       ([\<lparr>out_value = Fail, actuate = \<lparr>velocity = 0\<rparr>\<rparr>,
         \<lparr>out_value = Fail, actuate = \<lparr>velocity = 0\<rparr>\<rparr>], x1, [])"
proof -
  define s where "s = SenseInfo_default\<lparr>measured_x := 4\<rparr>"
  define q0 where
    "q0 = fst (fst (snd (SequenceElement_initialize Services_default
                           (SequenceElement_new [1] 7, main_store 4))))"
  have x0: "fst (snd (SequenceElement_initialize Services_default
                        (SequenceElement_new [1] 7, main_store 4))) = (q0, main_store 4)"
    by (simp add: q0_def SequenceElement_initialize_def)
  obtain out q h ev where
    tk: "SequenceElement_tick leaf_class s (q0, main_store 4) = (out, (q, h), ev)"
    by (metis prod.exhaust)
  have out: "out = \<lparr>out_value = Success, actuate = \<lparr>velocity = 1\<rparr>\<rparr>"
    using arg_cong [OF tk, of fst] by (simp add: s_def q0_def model_defs)
  have a: "Suc (m_iter q0) = length (m_elements q0)"
    by (simp add: q0_def SequenceElement_new_def SequenceElement_initialize_def)
  have b: "out_value out \<noteq> Running" using out by simp
  from sequence_tick_past_last_child
         [of q q0 leaf_class s "main_store 4" out h ev
             "[SenseInfo_default, SenseInfo_default\<lparr>measured_x := 4\<rparr>]"]
       a tk b
  have "m_iter q = length (m_elements q)" and
    "ticks (SequenceElement_class leaf_class)
       [SenseInfo_default, SenseInfo_default\<lparr>measured_x := 4\<rparr>] (q, h) =
       ([\<lparr>out_value = Fail, actuate = \<lparr>velocity = 0\<rparr>\<rparr>,
         \<lparr>out_value = Fail, actuate = \<lparr>velocity = 0\<rparr>\<rparr>], (q, h), [])"
    by (simp_all add: numeral_2_eq_2)
  moreover have "m_elements q = [1]"
    using SequenceElement_tick_step [OF _ tk] a
    by (auto simp: q0_def SequenceElement_new_def SequenceElement_initialize_def)
  ultimately show ?thesis
    using tk out unfolding x0 s_def by (intro exI [of _ "(q, h)"] exI [of _ ev]) simp
qed

subsection \<open>The sequence runs its children in order\<close>

text \<open>
  C1. A SequenceElement of N distinct children, N at least 1, is initialized and then
  ticked by a caller that stops at the first terminal Outcome; no child returns Fail.
  On tick \<open>k\<close> of the run exactly one child is ticked: the child at the position \<open>i\<close>
  that counts the child ticks with a terminal Outcome before tick \<open>k\<close>, so the children
  are ticked one at a time and in order. The sequence returns the actuate command that
  this child has just produced; it returns Success exactly when the child is the last one
  and returned Success, and Running on every other tick, among them the ticks on which a
  child that is not the last succeeds. No child that returned a terminal Outcome on an
  earlier tick is the child ticked at tick \<open>k\<close>.
\<close>

theorem sequence_all_succeed:
  assumes dist: "distinct (m_elements q)"
    and ne: "m_elements q \<noteq> []"
    and init: "SequenceElement_initialize svc (q, h) = (meta, x0, ev0)"
    and T: "T = fst (drive (SequenceElement_class vt) ss x0)"
    and nofail: "\<forall>k<length T. \<forall>(a, co) \<in> set (child_ticks (snd (T ! k))). out_value co \<noteq> Fail"
    and k: "k < length T"
    and i: "i = children_done (take k T)"
  shows "\<exists>co. i < length (m_elements q) \<and>
           child_ticks (snd (T ! k)) = [(m_elements q ! i, co)] \<and>
           fst (T ! k) =
             \<lparr>out_value = (if out_value co = Success \<and> Suc i = length (m_elements q)
                            then Success else Running),
              actuate = actuate co\<rparr> \<and>
           (\<forall>k'<k. \<forall>(a, co') \<in> set (child_ticks (snd (T ! k'))).
               out_value co' \<noteq> Running \<longrightarrow> a \<noteq> m_elements q ! i)"
proof -
  obtain q0 h0 where x0: "x0 = (q0, h0)" and el: "m_elements q0 = m_elements q"
    and it: "m_iter q0 = 0"
    using init by (auto simp: SequenceElement_initialize_def)
  have lt: "m_iter q0 < length (m_elements q0)" using ne el it by simp
  have shape: "\<exists>co. j < length (m_elements q) \<and>
           child_ticks (snd (T ! n)) = [(m_elements q ! j, co)] \<and>
           fst (T ! n) = (if out_value co = Success \<and> Suc j \<noteq> length (m_elements q)
                          then \<lparr>out_value = Running, actuate = actuate co\<rparr> else co)"
    if "n < length T" "j = children_done (take n T)" for n j
    using drive_sequence_shape [OF lt T [unfolded x0] that(1), of j] that(2) el it
    by auto
  from shape [OF k i] obtain co where
    a: "i < length (m_elements q)" and
    b: "child_ticks (snd (T ! k)) = [(m_elements q ! i, co)]" and
    c: "fst (T ! k) = (if out_value co = Success \<and> Suc i \<noteq> length (m_elements q)
                        then \<lparr>out_value = Running, actuate = actuate co\<rparr> else co)"
    by blast
  have nf: "out_value co \<noteq> Fail" using nofail k b by auto
  have c': "fst (T ! k) =
             \<lparr>out_value = (if out_value co = Success \<and> Suc i = length (m_elements q)
                            then Success else Running),
              actuate = actuate co\<rparr>"
    using c nf by (cases "out_value co") auto
  have d: "a' \<noteq> m_elements q ! i"
    if "k' < k" "(a', co') \<in> set (child_ticks (snd (T ! k')))" "out_value co' \<noteq> Running"
    for k' a' co'
  proof -
    have k'l: "k' < length T" using that(1) k by simp
    from shape [OF k'l refl] that(2) have
      j: "children_done (take k' T) < length (m_elements q)" and
      e: "child_ticks (snd (T ! k')) = [(a', co')]" and
      a': "a' = m_elements q ! children_done (take k' T)"
      by auto
    have "children_done (take (Suc k') T) = Suc (children_done (take k' T))"
      using children_done_take_Suc [OF k'l e] that(3) by simp
    moreover have "children_done (take (Suc k') T) \<le> children_done (take k T)"
      using that(1) by (intro children_done_take_mono) simp
    ultimately have "children_done (take k' T) < i" using i by simp
    then show ?thesis
      using dist a j a' by (simp add: nth_eq_iff_index_eq)
  qed
  from a b c' d show ?thesis by blast
qed

theorem sequence_all_succeed_witness:
  "\<exists>T. T = fst (drive (SequenceElement_class leaf_class)
                 [SenseInfo_default\<lparr>measured_x := 4\<rparr>, SenseInfo_default\<lparr>measured_x := 4\<rparr>]
                 (fst (snd (SequenceElement_initialize Services_default
                              (SequenceElement_new [1, 0] 7, main_store 4))))) \<and>
       length T = 2 \<and>
       children_done (take 1 T) = 1 \<and>
       child_ticks (snd (T ! 0)) =
         [(1, \<lparr>out_value = Success, actuate = \<lparr>velocity = 1\<rparr>\<rparr>)] \<and>
       fst (T ! 0) = \<lparr>out_value = Running, actuate = \<lparr>velocity = 1\<rparr>\<rparr> \<and>
       child_ticks (snd (T ! 1)) =
         [(0, \<lparr>out_value = Success, actuate = \<lparr>velocity = 0\<rparr>\<rparr>)] \<and>
       fst (T ! 1) = \<lparr>out_value = Success, actuate = \<lparr>velocity = 0\<rparr>\<rparr>"
proof -
  define q where "q = SequenceElement_new [1, 0] 7"
  define x0 where
    "x0 = fst (snd (SequenceElement_initialize Services_default (q, main_store 4)))"
  define T where
    "T = fst (drive (SequenceElement_class leaf_class)
                [SenseInfo_default\<lparr>measured_x := 4\<rparr>, SenseInfo_default\<lparr>measured_x := 4\<rparr>] x0)"
  have T_val: "map (\<lambda>(out, ev). (out, child_ticks ev)) T =
      [(\<lparr>out_value = Running, actuate = \<lparr>velocity = 1\<rparr>\<rparr>,
        [(1, \<lparr>out_value = Success, actuate = \<lparr>velocity = 1\<rparr>\<rparr>)]),
       (\<lparr>out_value = Success, actuate = \<lparr>velocity = 0\<rparr>\<rparr>,
        [(0, \<lparr>out_value = Success, actuate = \<lparr>velocity = 0\<rparr>\<rparr>)])]"
    by (simp add: T_def x0_def q_def model_defs)
  have len: "length T = 2"
    using arg_cong [OF T_val, of length] by simp
  have t0: "T ! 0 = (\<lparr>out_value = Running, actuate = \<lparr>velocity = 1\<rparr>\<rparr>, snd (T ! 0))"
    and c0: "child_ticks (snd (T ! 0)) =
               [(1, \<lparr>out_value = Success, actuate = \<lparr>velocity = 1\<rparr>\<rparr>)]"
    and c1: "child_ticks (snd (T ! 1)) =
               [(0, \<lparr>out_value = Success, actuate = \<lparr>velocity = 0\<rparr>\<rparr>)]"
    using arg_cong [OF T_val, of "\<lambda>l. l ! 0"] arg_cong [OF T_val, of "\<lambda>l. l ! 1"] len
    by (auto simp: split_beta prod_eq_iff)
  have h1: "distinct (m_elements q)" and h2: "m_elements q \<noteq> []"
    by (simp_all add: q_def SequenceElement_new_def)
  have h3: "SequenceElement_initialize Services_default (q, main_store 4) =
              (\<lparr>name = Some ''Sequence''\<rparr>, x0, [])"
    by (simp add: x0_def SequenceElement_initialize_def)
  have h5: "\<forall>k<length T. \<forall>(a, co) \<in> set (child_ticks (snd (T ! k))). out_value co \<noteq> Fail"
    using len c0 c1 by (auto simp: less_Suc_eq numeral_2_eq_2)
  have h6: "1 < length T" using len by simp
  have cd: "children_done (take 1 T) = 1"
    using t0 c0 len
    by (cases T) (auto simp: children_done_def split_beta)
  from sequence_all_succeed [OF h1 h2 h3 T_def h5 h6 cd [symmetric]]
  obtain co where "child_ticks (snd (T ! 1)) = [(m_elements q ! 1, co)]"
    and "fst (T ! 1) =
           \<lparr>out_value = (if out_value co = Success \<and> Suc 1 = length (m_elements q)
                          then Success else Running),
            actuate = actuate co\<rparr>"
    by blast
  with c1 have "fst (T ! 1) = \<lparr>out_value = Success, actuate = \<lparr>velocity = 0\<rparr>\<rparr>"
    by (auto simp: q_def SequenceElement_new_def)
  with len cd c0 c1 t0 show ?thesis
    unfolding T_def x0_def q_def by (metis fst_conv)
qed

text \<open>
  C2. In the same run, when the child ticked on tick \<open>k\<close> returns Fail, this child is
  the one at position \<open>i\<close>, the number of children that finished before; the sequence
  returns on that tick the Outcome of the child, Fail with the child's actuate command;
  the tick is the last of the run; and no child at a later position is initialized,
  ticked or finalized on any tick of the run.
\<close>

theorem sequence_child_fails:
  assumes dist: "distinct (m_elements q)"
    and init: "SequenceElement_initialize svc (q, h) = (meta, x0, ev0)"
    and T: "T = fst (drive (SequenceElement_class vt) ss x0)"
    and k: "k < length T"
    and tk: "(a, co) \<in> set (child_ticks (snd (T ! k)))"
    and fail: "out_value co = Fail"
    and i: "i = children_done (take k T)"
  shows "i < length (m_elements q) \<and> a = m_elements q ! i \<and>
         child_ticks (snd (T ! k)) = [(a, co)] \<and>
         fst (T ! k) = co \<and> length T = Suc k \<and>
         (\<forall>j k'. i < j \<and> j < length (m_elements q) \<and> k' < length T \<longrightarrow>
            m_elements q ! j \<notin> set (child_inits (snd (T ! k'))) \<and>
            m_elements q ! j \<notin> fst ` set (child_ticks (snd (T ! k'))) \<and>
            m_elements q ! j \<notin> set (child_finals (snd (T ! k'))))"
proof -
  have "child_ticks (snd (T ! k)) \<noteq> []" using tk by auto
  from drive_initialized [OF init T k this] obtain q0 h0 where
    x0: "x0 = (q0, h0)" and el: "m_elements q0 = m_elements q" and it: "m_iter q0 = 0" and
    lt: "m_iter q0 < length (m_elements q0)"
    by blast
  have shape: "\<exists>co. j < length (m_elements q) \<and>
           child_ticks (snd (T ! n)) = [(m_elements q ! j, co)] \<and>
           set (child_inits (snd (T ! n))) \<subseteq> {m_elements q ! j} \<and>
           set (child_finals (snd (T ! n))) \<subseteq> {m_elements q ! j} \<and>
           fst (T ! n) = (if out_value co = Success \<and> Suc j \<noteq> length (m_elements q)
                          then \<lparr>out_value = Running, actuate = actuate co\<rparr> else co)"
    if "n < length T" "j = children_done (take n T)" for n j
    using drive_sequence_shape [OF lt T [unfolded x0] that(1), of j] that(2) el it
    by auto
  from shape [OF k i] tk fail have
    a: "i < length (m_elements q)" and
    b: "child_ticks (snd (T ! k)) = [(a, co)]" and
    b': "a = m_elements q ! i" and
    c: "fst (T ! k) = co"
    by auto
  have len: "length T = Suc k"
  proof (rule ccontr)
    assume "length T \<noteq> Suc k"
    with k have "Suc k < length T" by simp
    from drive_stops [OF T this] c fail show False by simp
  qed
  have later: "m_elements q ! j \<notin> set (child_inits (snd (T ! k'))) \<and>
            m_elements q ! j \<notin> fst ` set (child_ticks (snd (T ! k'))) \<and>
            m_elements q ! j \<notin> set (child_finals (snd (T ! k')))"
    if "i < j" "j < length (m_elements q)" "k' < length T" for j k'
  proof -
    define i' where "i' = children_done (take k' T)"
    have "k' \<le> k" using that(3) len by simp
    then have "i' \<le> i" unfolding i'_def i by (rule children_done_take_mono)
    from shape [OF that(3) i'_def] obtain co' where
      j: "i' < length (m_elements q)" and
      e: "child_ticks (snd (T ! k')) = [(m_elements q ! i', co')]" and
      f: "set (child_inits (snd (T ! k'))) \<subseteq> {m_elements q ! i'}" and
      g: "set (child_finals (snd (T ! k'))) \<subseteq> {m_elements q ! i'}"
      by blast
    have "m_elements q ! j \<noteq> m_elements q ! i'"
      using dist that(1,2) j \<open>i' \<le> i\<close> by (simp add: nth_eq_iff_index_eq)
    with e f g show ?thesis by auto
  qed
  from a b b' c len later show ?thesis by blast
qed

theorem sequence_child_fails_witness:
  "\<exists>T. T = fst (drive (SequenceElement_class leaf_class)
                 [SenseInfo_default, SenseInfo_default\<lparr>ts := 70000000000\<rparr>,
                  SenseInfo_default\<lparr>ts := 70100000000\<rparr>]
                 (fst (snd (SequenceElement_initialize Services_default
                              (SequenceElement_new [1, 0] 7, main_store 4))))) \<and>
       length T = 2 \<and>
       child_ticks (snd (T ! 1)) =
         [(1, \<lparr>out_value = Fail, actuate = \<lparr>velocity = 1\<rparr>\<rparr>)] \<and>
       fst (T ! 1) = \<lparr>out_value = Fail, actuate = \<lparr>velocity = 1\<rparr>\<rparr> \<and>
       0 \<notin> set (child_inits (snd (T ! 0))) \<and> 0 \<notin> set (child_inits (snd (T ! 1))) \<and>
       0 \<notin> fst ` set (child_ticks (snd (T ! 0))) \<and>
       0 \<notin> fst ` set (child_ticks (snd (T ! 1)))"
proof -
  define q where "q = SequenceElement_new [1, 0] 7"
  define x0 where
    "x0 = fst (snd (SequenceElement_initialize Services_default (q, main_store 4)))"
  define T where
    "T = fst (drive (SequenceElement_class leaf_class)
                [SenseInfo_default, SenseInfo_default\<lparr>ts := 70000000000\<rparr>,
                 SenseInfo_default\<lparr>ts := 70100000000\<rparr>] x0)"
  have T_val: "map (\<lambda>(out, ev). child_ticks ev) T =
      [[(1, \<lparr>out_value = Running, actuate = \<lparr>velocity = 1\<rparr>\<rparr>)],
       [(1, \<lparr>out_value = Fail, actuate = \<lparr>velocity = 1\<rparr>\<rparr>)]]"
    by (simp add: T_def x0_def q_def model_defs)
  have len: "length T = 2"
    using arg_cong [OF T_val, of length] by simp
  have c0: "child_ticks (snd (T ! 0)) =
               [(1, \<lparr>out_value = Running, actuate = \<lparr>velocity = 1\<rparr>\<rparr>)]"
    and c1: "child_ticks (snd (T ! 1)) =
               [(1, \<lparr>out_value = Fail, actuate = \<lparr>velocity = 1\<rparr>\<rparr>)]"
    using arg_cong [OF T_val, of "\<lambda>l. l ! 0"] arg_cong [OF T_val, of "\<lambda>l. l ! 1"] len
    by (auto simp: split_beta)
  have h1: "distinct (m_elements q)"
    by (simp add: q_def SequenceElement_new_def)
  have h3: "SequenceElement_initialize Services_default (q, main_store 4) =
              (\<lparr>name = Some ''Sequence''\<rparr>, x0, [])"
    by (simp add: x0_def SequenceElement_initialize_def)
  have h4: "1 < length T" using len by simp
  have h5: "(1, \<lparr>out_value = Fail, actuate = \<lparr>velocity = 1\<rparr>\<rparr>) \<in> set (child_ticks (snd (T ! 1)))"
    using c1 by simp
  have cd: "children_done (take 1 T) = 0"
    using c0 len by (cases T) (auto simp: children_done_def split_beta)
  have h6: "out_value \<lparr>out_value = Fail, actuate = \<lparr>velocity = 1\<rparr>\<rparr> = Fail"
    by simp
  from sequence_child_fails [OF h1 h3 T_def h4 h5 h6 cd [symmetric]]
  have r: "fst (T ! 1) = \<lparr>out_value = Fail, actuate = \<lparr>velocity = 1\<rparr>\<rparr>"
    and l: "\<forall>j k'. 0 < j \<and> j < length (m_elements q) \<and> k' < length T \<longrightarrow>
            m_elements q ! j \<notin> set (child_inits (snd (T ! k'))) \<and>
            m_elements q ! j \<notin> fst ` set (child_ticks (snd (T ! k'))) \<and>
            m_elements q ! j \<notin> set (child_finals (snd (T ! k')))"
    by blast+
  have "0 \<notin> set (child_inits (snd (T ! k'))) \<and> 0 \<notin> fst ` set (child_ticks (snd (T ! k')))"
    if "k' < 2" for k'
    using l [rule_format, of 1 k'] that len by (simp add: q_def SequenceElement_new_def)
  from this [of 0] this [of 1] len c1 r show ?thesis
    unfolding T_def x0_def q_def by simp
qed

subsection \<open>The leaf adapter\<close>

text \<open>
  C3. For a leaf that passes the compile-time checks of the MotionElement adapter, let
  \<open>m\<close> be the OR of the knee-jerk bit (bit 0, value 1) when the knee-jerk flag is
  enabled and of the flinch bit (bit 1, value 2) when the flinch flag is enabled.
  initialize calls the ReactionSvc exactly once, with activate of \<open>m\<close>; finalize, in
  whatever state the leaf is, calls it exactly once, with release of \<open>m\<close>; over a
  cycle of initialize, any ticks and finalize the calls are activate of \<open>m\<close>, then
  release of \<open>m\<close>. For WalkToPosition, knee-jerk enabled and flinch disabled, the mask
  is 1, the knee-jerk bit alone.
\<close>

theorem reaction_mask_activate_release:
  assumes "static_asserts D"
    and "m = (if KNEE_JERK_REACTION D = ReactionDef_ENABLED then 1 else 0) OR
                (if FLINCH_REACTION D = ReactionDef_ENABLED then 2 else 0)"
  shows "reaction_calls (snd (snd (MotionElement_initialize D svc me))) = [Activate m] \<and>
         reaction_calls (snd (MotionElement_finalize D me')) = [Release m] \<and>
         reaction_calls (snd (lifecycle (MotionElement_class D) svc ss me)) =
           [Activate m, Release m] \<and>
         get_reaction_defs WalkToPosition = 1"
proof -
  have m: "get_reaction_defs D = m"
    using get_reaction_defs_flags [OF assms(1)] assms(2) by simp
  obtain meta me1 ev1 where i: "MotionElement_initialize D svc me = (meta, me1, ev1)"
    by (metis prod.exhaust)
  obtain outs me2 ev2 where t: "ticks (MotionElement_class D) ss me1 = (outs, me2, ev2)"
    by (metis prod.exhaust)
  obtain me3 ev3 where f: "MotionElement_finalize D me2 = (me3, ev3)"
    by (metis prod.exhaust)
  have "reaction_calls ev1 = [Activate m]"
    using reaction_calls_initialize [of D svc me] i m by simp
  moreover have "reaction_calls ev2 = []"
    using reaction_calls_ticks [of D ss me1] t by simp
  moreover have "reaction_calls ev3 = [Release m]"
    using reaction_calls_finalize [of D me2] f m by simp
  ultimately have "reaction_calls (snd (lifecycle (MotionElement_class D) svc ss me)) =
           [Activate m, Release m]"
    using i t f by (simp add: lifecycle_def MotionElement_class_simps reaction_calls_append)
  moreover have "get_reaction_defs WalkToPosition = 1"
    by (simp add: get_reaction_defs_def WalkToPosition_def)
  ultimately show ?thesis
    using reaction_calls_initialize [of D svc me] reaction_calls_finalize [of D me'] m
    by simp
qed

theorem reaction_mask_activate_release_witness:
  "static_asserts WalkToPosition \<and>
   reaction_calls (snd (snd (MotionElement_initialize WalkToPosition Services_default
                               (WalkToPosition_new 4)))) = [Activate 1] \<and>
   reaction_calls (snd (MotionElement_finalize WalkToPosition (WalkToPosition_new 7))) =
     [Release 1] \<and>
   reaction_calls (snd (lifecycle (MotionElement_class WalkToPosition) Services_default
                          [SenseInfo_default, SenseInfo_default] (WalkToPosition_new 4))) =
     [Activate 1, Release 1]"
proof -
  have a: "static_asserts WalkToPosition"
    by (simp add: static_asserts_def WalkToPosition_def)
  have b: "(1 :: 32 word) =
             (if KNEE_JERK_REACTION WalkToPosition = ReactionDef_ENABLED then 1 else 0) OR
             (if FLINCH_REACTION WalkToPosition = ReactionDef_ENABLED then 2 else 0)"
    by (simp add: WalkToPosition_def)
  from reaction_mask_activate_release [OF a b] a show ?thesis by blast
qed

text \<open>
  C4. For every leaf on the MotionElement adapter and every succession of cycles of
  initialize, ticks and finalize on the same object, the calls to the derived class in
  a cycle whose ticks receive the SenseInfos \<open>s\<close>, then \<open>r\<close>, are: the
  data-initialization method with \<open>s\<close>, once, then the tick method with \<open>s\<close>, then
  the tick method with each SenseInfo of \<open>r\<close>. A cycle with no tick has no first tick
  and makes no call.
\<close>

theorem data_initialize_once_per_cycle:
  "map hook_calls (lifecycles (MotionElement_class D) cs me) =
   map (\<lambda>(svc, ss). case ss of [] \<Rightarrow> []
                      | s # r \<Rightarrow> Hook_data_initialize s # Hook_tick s # map Hook_tick r) cs"
proof (induction cs arbitrary: me)
  case Nil
  then show ?case by simp
next
  case (Cons c cs)
  obtain svc ss where c: "c = (svc, ss)" by (metis prod.exhaust)
  obtain me1 ev where l: "lifecycle (MotionElement_class D) svc ss me = (me1, ev)"
    by (metis prod.exhaust)
  from hook_calls_lifecycle [of D svc ss me] l Cons.IH [of me1] c show ?case
    by simp
qed

subsection \<open>WalkToPosition\<close>

text \<open>
  C9. WalkToPosition is ticked with a SenseInfo whose knee-jerk flag is set, at a
  distance of at least 0.1 from the goal and no more than 60 seconds (60000000000
  nanoseconds) after the timestamp latched on the first tick of the cycle, which on the
  first tick is the timestamp of the SenseInfo itself. The tick returns Running with
  velocity 0; with the flag clear and the same SenseInfo otherwise it returns Running with
  velocity 1 towards a goal ahead and -1 towards a goal behind. The distance of the
  hypothesis is the exact one; rounding is monotone, so the rounded difference that the
  source compares with the double 0.1 is then not below it.
\<close>

theorem WalkToPosition_knee_jerk:
  assumes "is_knee_jerking s"
    and "\<bar>goal_x (derived me) - measured_x s\<bar> \<ge> 1 / 10"
    and "ts s - (if m_first_tick me then ts s else init_ts (derived me)) \<le> 60000 * 1000000"
  shows "fst (MotionElement_tick WalkToPosition s me) =
           \<lparr>out_value = Running, actuate = \<lparr>velocity = 0\<rparr>\<rparr> \<and>
         fst (MotionElement_tick WalkToPosition (s\<lparr>is_knee_jerking := False\<rparr>) me) =
           \<lparr>out_value = Running,
            actuate = \<lparr>velocity = (if goal_x (derived me) - measured_x s \<ge> 0 then 1 else - 1)\<rparr>\<rparr>"
proof -
  have W: "WalkToPosition_motion_element_tick d s' =
           (if ts s' - init_ts d > TIMEOUT
            then (\<lparr>out_value = Fail,
                   actuate = \<lparr>velocity = (if goal_x d - measured_x s' \<ge> 0 then 1 else - 1)\<rparr>\<rparr>,
                  d, [Notify (Some ''WalkToPosition'') [Str ''timeout'']])
            else if is_knee_jerking s'
            then (\<lparr>out_value = Running, actuate = \<lparr>velocity = 0\<rparr>\<rparr>, d, [])
            else (\<lparr>out_value = Running,
                   actuate = \<lparr>velocity = (if goal_x d - measured_x s' \<ge> 0 then 1 else - 1)\<rparr>\<rparr>,
                  d,
                  [Notify (Some ''WalkToPosition'')
                     [Str ''velocity='',
                      Num (if goal_x d - measured_x s' \<ge> 0 then 1 else - 1),
                      Str '' pos='', Num (measured_x s'),
                      Str '' dist='', Num (dsub (goal_x d) (measured_x s')),
                      Str '' goal='', Num (goal_x d)]]))"
    if "goal_x d = goal_x (derived me)" "measured_x s' = measured_x s" for d s'
    using assms(2) that by (intro WalkToPosition_far) simp
  show ?thesis
    using assms(1,3)
    by (cases "m_first_tick me")
       (simp_all add: MotionElement_tick_def WalkToPosition_def
          WalkToPosition_motion_element_data_initialize_def W TIMEOUT_def)
qed

theorem WalkToPosition_knee_jerk_witness:
  "fst (MotionElement_tick WalkToPosition
          (SenseInfo_default\<lparr>is_knee_jerking := True, ts := 5000000000\<rparr>)
          ((WalkToPosition_new 4)\<lparr>m_first_tick := False\<rparr>)) =
     \<lparr>out_value = Running, actuate = \<lparr>velocity = 0\<rparr>\<rparr> \<and>
   fst (MotionElement_tick WalkToPosition
          (SenseInfo_default\<lparr>is_knee_jerking := False, ts := 5000000000\<rparr>)
          ((WalkToPosition_new 4)\<lparr>m_first_tick := False\<rparr>)) =
     \<lparr>out_value = Running, actuate = \<lparr>velocity = 1\<rparr>\<rparr>"
  using WalkToPosition_knee_jerk
          [of "SenseInfo_default\<lparr>is_knee_jerking := True, ts := 5000000000\<rparr>"
              "(WalkToPosition_new 4)\<lparr>m_first_tick := False\<rparr>"]
  by (simp add: SenseInfo_default_def WalkToPosition_new_def MotionElement_new_def)

text \<open>
  C7. A SequenceElement stands on a WalkToPosition that it has yet to initialize, and is
  ticked by a caller that stops at the first terminal Outcome. The sequence initializes
  the walk on the first tick \<open>s0\<close>, and the first tick of the walk latches the
  timestamp of \<open>s0\<close>, whatever the walk held before. The ticks \<open>ss\<close> that follow
  find the robot at least 0.1 from the goal and come no more than 60 seconds
  (60000000000 nanoseconds) after \<open>s0\<close>; then comes a tick \<open>s\<close>, at least 0.1 from
  the goal and more than 60 seconds after \<open>s0\<close>. The run has exactly these ticks: the
  sequence returns Running on all but the last and Fail on the last, the tick of \<open>s\<close>;
  on every tick it ticks the walk, no other child, and returns the Outcome of the walk;
  the only call of initialize in the run is the one on the walk, on the first tick, so
  the next child is never initialized. The first conjunct is the walk alone: after
  initialize, a first tick \<open>s0\<close> and any ticks in between, the tick of \<open>s\<close> returns
  Fail.
\<close>

theorem WalkToPosition_timeout_fails_sequence:
  assumes pos: "m_iter q < length (m_elements q)"
    and new: "m_new_element q"
    and a: "a = m_elements q ! m_iter q"
    and walk: "h a = WalkToPosition_object me"
    and first: "1 / 10 \<le> \<bar>goal_x (derived me) - measured_x s0\<bar>"
    and running: "\<forall>s' \<in> set ss. 1 / 10 \<le> \<bar>goal_x (derived me) - measured_x s'\<bar> \<and>
                                 ts s' - ts s0 \<le> 60000 * 1000000"
    and far: "1 / 10 \<le> \<bar>goal_x (derived me) - measured_x s\<bar>"
    and late: "60000 * 1000000 < ts s - ts s0"
    and T: "T = fst (drive (SequenceElement_class leaf_class) (s0 # ss @ s # rest) (q, h))"
  shows "out_value (last (fst (ticks (MotionElement_class WalkToPosition) (s0 # between @ [s])
                                 (fst (snd (MotionElement_initialize WalkToPosition svc me)))))) =
           Fail \<and>
         map (\<lambda>(out, ev). out_value out) T = replicate (Suc (length ss)) Running @ [Fail] \<and>
         map (\<lambda>(out, ev). child_ticks ev) T = map (\<lambda>(out, ev). [(a, out)]) T \<and>
         map (\<lambda>(out, ev). child_inits ev) T = [a] # replicate (Suc (length ss)) []"
proof -
  define me0 where "me0 = me\<lparr>m_first_tick := True, m_services := m_svcs q\<rparr>"
  define me1 where "me1 = fst (snd (MotionElement_tick WalkToPosition s0 me0))"
  define c where "c = fst (snd (initialize leaf_class (m_svcs q) (h a)))"
  have c: "c = WalkToPosition_object me0"
    using walk by (simp add: c_def me0_def leaf_class_walk)
  have far0: "1 / 10 \<le> \<bar>goal_x (derived me0) - measured_x s0\<bar>"
    using first by (simp add: me0_def)
  have r: "out_value (fst (tick leaf_class s0 c)) = Running"
    using WalkToPosition_tick_far(1) [OF far0]
    by (simp add: c leaf_class_walk me0_def TIMEOUT_def)
  have st: "fst (snd (tick leaf_class s0 c)) = WalkToPosition_object me1"
    by (simp add: c leaf_class_walk me1_def)
  have l: "\<not> m_first_tick me1" and i: "init_ts (derived me1) = ts s0"
    and g: "goal_x (derived me1) = goal_x (derived me)"
    by (simp_all add: me1_def me0_def WalkToPosition_tick_state)
  from SequenceElement_tick_running [OF pos a _ , of c leaf_class h s0] new r st
  obtain q1 ev where tk: "SequenceElement_tick leaf_class s0 (q, h) =
                        (fst (tick leaf_class s0 c), (q1, h(a := WalkToPosition_object me1)), ev)"
    and q1: "m_elements q1 = m_elements q" "m_iter q1 = m_iter q" "\<not> m_new_element q1"
    and ev: "child_inits ev = [a]" "child_ticks ev = [(a, fst (tick leaf_class s0 c))]"
    by (auto simp: c_def)
  define T' where
    "T' = fst (drive (SequenceElement_class leaf_class) (ss @ s # rest)
                 (q1, h(a := WalkToPosition_object me1)))"
  have T_eq: "T = (fst (tick leaf_class s0 c), ev) # T'"
    using T tk r by (simp add: tick_SequenceElement_class T'_def split_beta)
  have rest: "map (\<lambda>(out, ev). out_value out) T' = replicate (length ss) Running @ [Fail] \<and>
         map (\<lambda>(out, ev). child_ticks ev) T' = map (\<lambda>(out, ev). [(a, out)]) T' \<and>
         map (\<lambda>(out, ev). child_inits ev) T' = replicate (Suc (length ss)) []"
    using pos a q1 l i g running far late
    by (intro drive_walk_timeout [of q1 a "h(a := WalkToPosition_object me1)" me1 ss s T' rest]
          T'_def)
       (simp_all add: TIMEOUT_def)
  have leaf: "out_value (last (fst (ticks (MotionElement_class WalkToPosition)
                                      (s0 # between @ [s])
                                      (fst (snd (MotionElement_initialize WalkToPosition svc me)))))) =
           Fail"
    using far late by (rule WalkToPosition_latch_timeout)
  from leaf rest T_eq r ev show ?thesis by simp
qed

theorem WalkToPosition_timeout_fails_sequence_witness:
  "out_value (last (fst (ticks (MotionElement_class WalkToPosition)
                           [SenseInfo_default\<lparr>ts := 1000\<rparr>,
                            SenseInfo_default\<lparr>measured_x := 4, ts := 2000\<rparr>,
                            SenseInfo_default\<lparr>measured_x := 1, ts := 70000000000\<rparr>]
                           (fst (snd (MotionElement_initialize WalkToPosition Services_default
                                        (WalkToPosition_new 4))))))) =
     Fail \<and>
   map (\<lambda>(out, ev). (out, child_inits ev, child_ticks ev))
     (fst (drive (SequenceElement_class leaf_class)
             [SenseInfo_default\<lparr>ts := 1000\<rparr>,
              SenseInfo_default\<lparr>measured_x := 1, ts := 60000001000\<rparr>,
              SenseInfo_default\<lparr>measured_x := 1, ts := 70000000000\<rparr>,
              SenseInfo_default\<lparr>measured_x := 1, ts := 70100000000\<rparr>]
             (fst (snd (SequenceElement_initialize Services_default
                          (SequenceElement_new [1, 0] 7, main_store 4)))))) =
     [(\<lparr>out_value = Running, actuate = \<lparr>velocity = 1\<rparr>\<rparr>, [1],
       [(1, \<lparr>out_value = Running, actuate = \<lparr>velocity = 1\<rparr>\<rparr>)]),
      (\<lparr>out_value = Running, actuate = \<lparr>velocity = 1\<rparr>\<rparr>, [],
       [(1, \<lparr>out_value = Running, actuate = \<lparr>velocity = 1\<rparr>\<rparr>)]),
      (\<lparr>out_value = Fail, actuate = \<lparr>velocity = 1\<rparr>\<rparr>, [],
       [(1, \<lparr>out_value = Fail, actuate = \<lparr>velocity = 1\<rparr>\<rparr>)])]"
proof -
  define q where
    "q = fst (fst (snd (SequenceElement_initialize Services_default
                          (SequenceElement_new [1, 0] 7, main_store 4))))"
  define me where "me = WalkToPosition_new 4"
  define s0 where "s0 = SenseInfo_default\<lparr>ts := 1000\<rparr>"
  define s1 where "s1 = SenseInfo_default\<lparr>measured_x := 1, ts := 60000001000\<rparr>"
  define s where "s = SenseInfo_default\<lparr>measured_x := 1, ts := 70000000000\<rparr>"
  define T where
    "T = fst (drive (SequenceElement_class leaf_class)
                (s0 # [s1] @ s # [SenseInfo_default\<lparr>measured_x := 1, ts := 70100000000\<rparr>])
                (q, main_store 4))"
  have x0: "fst (snd (SequenceElement_initialize Services_default
                        (SequenceElement_new [1, 0] 7, main_store 4))) = (q, main_store 4)"
    by (simp add: q_def SequenceElement_initialize_def)
  have pos: "m_iter q < length (m_elements q)" and new: "m_new_element q"
    and a: "1 = m_elements q ! m_iter q"
    by (simp_all add: q_def SequenceElement_initialize_def SequenceElement_new_def)
  have walk: "main_store 4 1 = WalkToPosition_object me"
    by (simp add: main_store_def me_def)
  have first: "1 / 10 \<le> \<bar>goal_x (derived me) - measured_x s0\<bar>"
    and far: "1 / 10 \<le> \<bar>goal_x (derived me) - measured_x s\<bar>"
    and late: "60000 * 1000000 < ts s - ts s0"
    and running: "\<forall>s' \<in> set [s1]. 1 / 10 \<le> \<bar>goal_x (derived me) - measured_x s'\<bar> \<and>
                                   ts s' - ts s0 \<le> 60000 * 1000000"
    by (simp_all add: me_def s0_def s1_def s_def WalkToPosition_new_def MotionElement_new_def
          SenseInfo_default_def)
  have v: "map (\<lambda>(out, ev). velocity (actuate out)) T = [1, 1, 1]"
    by (simp add: T_def q_def s0_def s1_def s_def model_defs fl_eval rne_def)
  from WalkToPosition_timeout_fails_sequence
         [OF pos new a walk first running far late T_def,
          of "[SenseInfo_default\<lparr>measured_x := 4, ts := 2000\<rparr>]" Services_default]
  have leaf: "out_value (last (fst (ticks (MotionElement_class WalkToPosition)
                (s0 # [SenseInfo_default\<lparr>measured_x := 4, ts := 2000\<rparr>] @ [s])
                (fst (snd (MotionElement_initialize WalkToPosition Services_default me)))))) = Fail"
    and o: "map (\<lambda>(out, ev). out_value out) T = [Running, Running, Fail]"
    and ct: "map (\<lambda>(out, ev). child_ticks ev) T = map (\<lambda>(out, ev). [(1, out)]) T"
    and ci: "map (\<lambda>(out, ev). child_inits ev) T = [[1], [], []]"
    by (simp_all add: numeral_2_eq_2)
  obtain t0 t1 t2 where T3: "T = [t0, t1, t2]"
    using arg_cong [OF o, of length] by (auto simp: length_Suc_conv numeral_3_eq_3)
  have "map (\<lambda>(out, ev). (out, child_inits ev, child_ticks ev)) T =
     [(\<lparr>out_value = Running, actuate = \<lparr>velocity = 1\<rparr>\<rparr>, [1],
       [(1, \<lparr>out_value = Running, actuate = \<lparr>velocity = 1\<rparr>\<rparr>)]),
      (\<lparr>out_value = Running, actuate = \<lparr>velocity = 1\<rparr>\<rparr>, [],
       [(1, \<lparr>out_value = Running, actuate = \<lparr>velocity = 1\<rparr>\<rparr>)]),
      (\<lparr>out_value = Fail, actuate = \<lparr>velocity = 1\<rparr>\<rparr>, [],
       [(1, \<lparr>out_value = Fail, actuate = \<lparr>velocity = 1\<rparr>\<rparr>)])]"
    using o ct ci v unfolding T3
    by (cases t0; cases t1; cases t2) (auto simp: Outcome.equality ActuateCmd.equality)
  with leaf show ?thesis
    unfolding T_def x0 s0_def s1_def s_def me_def by (simp only: append.simps)
qed

subsection \<open>The Executor\<close>

text \<open>
  C6. Executor.run initializes the element and enters its loop; let iteration \<open>n\<close> be
  the first whose tick returns an Outcome other than Running. Every iteration \<open>i\<close>
  notifies, calls tick once with the SenseInfo stamped with the reading of the clock,
  then adds to measured_x the returned velocity times the period of 100 ms, computed as
  the source computes it in double arithmetic (\<^verbatim>\<open>velocity * 100 / 1000.0\<close>, the
  product, the quotient and the sum each rounded), and sets measured_velocity to the
  returned velocity. For the velocities 1, 0 and -1 the increment is the velocity times
  the double 0.1. The loop makes exactly the iterations 0 to \<open>n\<close>: with fuel for no
  more than \<open>n\<close> iterations the loop has not been left, and with more the run returns
  the Outcome of iteration \<open>n\<close>, after one call of finalize that follows the last
  tick, the only call of finalize of the run.
\<close>

theorem Executor_run_until_terminal:
  assumes init: "initialize vt Services_default st = (meta, st0, evi)"
    and x0: "x0 = (SenseInfo_default\<lparr>ts := clock 0\<rparr>, st0)"
    and running: "\<forall>i<n. out_value (Executor_outcome vt element meta clock 1 i x0) = Running"
    and terminal: "out_value (Executor_outcome vt element meta clock 1 n x0) \<noteq> Running"
    and fin: "finalize vt (snd (Executor_before vt element meta clock 1 (Suc n) x0)) = (st', evf)"
  shows "Executor_run fuel vt element clock st =
           (if fuel \<le> n then None
            else Some (Executor_outcome vt element meta clock 1 n x0,
                       fst (Executor_before vt element meta clock 1 (Suc n) x0), st',
                       [Call_initialize element evi meta,
                        Notify (name meta) [Str ''initialize'']] @
                       concat (map (\<lambda>i. Executor_events vt element meta clock 1 i x0)
                                 [0..<Suc n]) @
                       [Call_finalize element evf, Notify (name meta) [Str ''finalize'']])) \<and>
         (\<forall>i. \<exists>evs.
            Executor_events vt element meta clock 1 i x0 =
              [Notify (name meta) [Str ''tick''],
               Call_tick element ((fst (Executor_before vt element meta clock 1 i x0))
                                    \<lparr>ts := clock (Suc i)\<rparr>)
                 evs (Executor_outcome vt element meta clock 1 i x0)] \<and>
            measured_x (fst (Executor_before vt element meta clock 1 (Suc i) x0)) =
              dadd (measured_x (fst (Executor_before vt element meta clock 1 i x0)))
                (ddiv (dmul (velocity (actuate (Executor_outcome vt element meta clock 1 i x0)))
                         100) 1000) \<and>
            measured_velocity (fst (Executor_before vt element meta clock 1 (Suc i) x0)) =
              velocity (actuate (Executor_outcome vt element meta clock 1 i x0))) \<and>
         ddiv (dmul 1 100) 1000 = fl (1 / 10) \<and>
         ddiv (dmul 0 100) 1000 = 0 \<and>
         ddiv (dmul (- 1) 100) 1000 = - fl (1 / 10)"
proof -
  have loop: "Executor_loop fuel vt element meta clock 1 x0 =
           (if fuel \<le> n then None
            else Some (Executor_outcome vt element meta clock 1 n x0,
                       Executor_before vt element meta clock 1 (Suc n) x0,
                       concat (map (\<lambda>i. Executor_events vt element meta clock 1 i x0)
                                 [0..<Suc n])))"
  proof (cases "fuel \<le> n")
    case True
    with running have "\<forall>i<fuel. out_value (Executor_outcome vt element meta clock 1 i x0) = Running"
      by simp
    from Executor_loop_runs_on [OF this] True show ?thesis by simp
  next
    case False
    then have "n < fuel" by simp
    from Executor_loop_exits [OF running terminal this] False show ?thesis by simp
  qed
  have run: "Executor_run fuel vt element clock st =
           (if fuel \<le> n then None
            else Some (Executor_outcome vt element meta clock 1 n x0,
                       fst (Executor_before vt element meta clock 1 (Suc n) x0), st',
                       [Call_initialize element evi meta,
                        Notify (name meta) [Str ''initialize'']] @
                       concat (map (\<lambda>i. Executor_events vt element meta clock 1 i x0)
                                 [0..<Suc n]) @
                       [Call_finalize element evf, Notify (name meta) [Str ''finalize'']]))"
    using init loop fin unfolding x0
    by (simp add: Executor_run_def Let_def split_beta del: Executor_before.simps upt_Suc)
  have iter: "\<exists>evs.
            Executor_events vt element meta clock 1 i x0 =
              [Notify (name meta) [Str ''tick''],
               Call_tick element ((fst (Executor_before vt element meta clock 1 i x0))
                                    \<lparr>ts := clock (Suc i)\<rparr>)
                 evs (Executor_outcome vt element meta clock 1 i x0)] \<and>
            measured_x (fst (Executor_before vt element meta clock 1 (Suc i) x0)) =
              dadd (measured_x (fst (Executor_before vt element meta clock 1 i x0)))
                (ddiv (dmul (velocity (actuate (Executor_outcome vt element meta clock 1 i x0)))
                         100) 1000) \<and>
            measured_velocity (fst (Executor_before vt element meta clock 1 (Suc i) x0)) =
              velocity (actuate (Executor_outcome vt element meta clock 1 i x0))" for i
    using Executor_iteration_parts(2,3) [OF refl refl refl, of vt element meta clock 1 i x0]
    by simp
  have inc: "ddiv (dmul 1 100) 1000 = fl (1 / 10)" "ddiv (dmul 0 100) 1000 = 0"
    "ddiv (dmul (- 1) 100) 1000 = - fl (1 / 10)"
    by (simp_all only: increment increment_zero increment_minus fl_tenth)
  from run iter inc show ?thesis by blast
qed

theorem Executor_run_until_terminal_witness:
  "map_option (\<lambda>(out, sense, st, evs). (out, sense, child_inits evs, child_ticks evs, child_finals evs))
     (Executor_run 5 (MotionElement_class WalkToPosition) 7 (\<lambda>k. 100000000 * int k)
        (WalkToPosition_new (3 / 16))) =
   Some (\<lparr>out_value = Success, actuate = \<lparr>velocity = 1\<rparr>\<rparr>,
         \<lparr>measured_velocity = 1, measured_x = 3602879701896397 / 18014398509481984, is_flinching = False,
          is_knee_jerking = False, ts = 200000000\<rparr>,
         [7],
         [(7, \<lparr>out_value = Running, actuate = \<lparr>velocity = 1\<rparr>\<rparr>),
          (7, \<lparr>out_value = Success, actuate = \<lparr>velocity = 1\<rparr>\<rparr>)],
         [7])"
proof -
  let ?vt = "MotionElement_class WalkToPosition"
  let ?clock = "\<lambda>k. 100000000 * int k"
  let ?st = "WalkToPosition_new (3 / 16)"
  define meta where "meta = fst (initialize ?vt Services_default ?st)"
  define st0 where "st0 = fst (snd (initialize ?vt Services_default ?st))"
  define evi where "evi = snd (snd (initialize ?vt Services_default ?st))"
  define x0 where "x0 = (SenseInfo_default\<lparr>ts := ?clock 0\<rparr>, st0)"
  define st' where "st' = fst (finalize ?vt (snd (Executor_before ?vt 7 meta ?clock 1 (Suc 1) x0)))"
  define evf where "evf = snd (finalize ?vt (snd (Executor_before ?vt 7 meta ?clock 1 (Suc 1) x0)))"
  have init: "initialize ?vt Services_default ?st = (meta, st0, evi)"
    by (simp add: meta_def st0_def evi_def)
  have fin: "finalize ?vt (snd (Executor_before ?vt 7 meta ?clock 1 (Suc 1) x0)) = (st', evf)"
    by (simp add: st'_def evf_def)
  have o0: "Executor_outcome ?vt 7 meta ?clock 1 0 x0 =
              \<lparr>out_value = Running, actuate = \<lparr>velocity = 1\<rparr>\<rparr>"
    and o1: "Executor_outcome ?vt 7 meta ?clock 1 1 x0 =
              \<lparr>out_value = Success, actuate = \<lparr>velocity = 1\<rparr>\<rparr>"
    and b2: "fst (Executor_before ?vt 7 meta ?clock 1 (Suc 1) x0) =
               \<lparr>measured_velocity = 1, measured_x = 3602879701896397 / 18014398509481984, is_flinching = False,
                is_knee_jerking = False, ts = 200000000\<rparr>"
    and c0: "child_ticks (Executor_events ?vt 7 meta ?clock 1 0 x0) =
               [(7, \<lparr>out_value = Running, actuate = \<lparr>velocity = 1\<rparr>\<rparr>)]"
    and c1: "child_ticks (Executor_events ?vt 7 meta ?clock 1 1 x0) =
               [(7, \<lparr>out_value = Success, actuate = \<lparr>velocity = 1\<rparr>\<rparr>)]"
    and d0: "child_inits (Executor_events ?vt 7 meta ?clock 1 0 x0) = []"
    and d1: "child_inits (Executor_events ?vt 7 meta ?clock 1 1 x0) = []"
    and f0: "child_finals (Executor_events ?vt 7 meta ?clock 1 0 x0) = []"
    and f1: "child_finals (Executor_events ?vt 7 meta ?clock 1 1 x0) = []"
    by (simp_all add: x0_def st0_def meta_def MotionElement_class_def run_defs
          increment dadd_def fl_eval rne_def)
  have running: "\<forall>i<1. out_value (Executor_outcome ?vt 7 meta ?clock 1 i x0) = Running"
    using o0 by simp
  have terminal: "out_value (Executor_outcome ?vt 7 meta ?clock 1 1 x0) \<noteq> Running"
    using o1 by simp
  from Executor_run_until_terminal [OF init x0_def running terminal fin, of 5]
  have "Executor_run 5 ?vt 7 ?clock ?st =
          Some (Executor_outcome ?vt 7 meta ?clock 1 1 x0,
                fst (Executor_before ?vt 7 meta ?clock 1 (Suc 1) x0), st',
                [Call_initialize 7 evi meta, Notify (name meta) [Str ''initialize'']] @
                concat (map (\<lambda>i. Executor_events ?vt 7 meta ?clock 1 i x0) [0..<Suc 1]) @
                [Call_finalize 7 evf, Notify (name meta) [Str ''finalize'']])"
    by simp
  then show ?thesis
    using o1 b2 c0 c1 d0 d1 f0 f1
    by (simp add: child_ticks_append child_inits_append child_finals_append
          del: Executor_before.simps)
qed

subsection \<open>main: walk to 4.0, then stop\<close>

text \<open>
  C8. The Executor runs Sequence([WalkToPosition(4.0), Stop]) from measured_x = 0 and
  measured_velocity = 0, with both reflex flags false, wherever the constructor has left
  the iterator of the sequence, and every tick made while the robot walks comes no more
  than 60 seconds after the first tick. Then the run returns, and it has a tick \<open>n\<close>
  such that: every tick of the run whose position is at least 0.1 from 4.0 returns
  Running with velocity 1; on every tick before \<open>n\<close> the position is at least 0.1 from
  4.0, the walk element is ticked and returns Running, and the sequence returns Running
  with velocity 1; on tick \<open>n\<close> the position is within 0.1 of 4.0, the walk element
  returns Success and the sequence Running with the walk's velocity; on the next tick
  the sequence initializes Stop; on every tick after \<open>n\<close> Stop is ticked, with
  velocity 0, and returns Success when the magnitude of measured_velocity is at most the
  machine epsilon and Running otherwise, which is the Outcome of the sequence; the last
  tick returns the final Outcome, and its value is Success. The distance is compared both
  as the real number with one tenth and as the source compares it, the rounded difference
  with the double 0.1; the two agree on every tick of the walk. The positions are the
  rounded sums \<open>walk_x\<close>: with the ticks numbered from 0, \<open>n\<close> is 39, where the
  position is 1097752409171559 / 2 ^ 48 (3.9000000000000021), the run has 42 ticks, and
  it ends at the position 2251799813685249 / 2 ^ 49 (4.0000000000000018), which Stop
  leaves as it is. The ticks 1 to 38 are the ones the timeout could fail, stamped with the
  readings 2 to 39 of the clock, and the loop needs fuel for its 42 iterations.
\<close>

theorem main_walks_then_stops:
  assumes walk: "\<forall>k. 2 \<le> k \<and> k \<le> 39 \<longrightarrow> clock k - clock 1 \<le> 60000 * 1000000"
    and fuel: "42 \<le> fuel"
  shows "\<exists>out sense st evs n.
     main_run fuel clock it = Some (out, sense, st, evs) \<and>
     Suc n < length (root_ticks evs) \<and>
     fst (root_ticks evs ! 0) =
       \<lparr>measured_velocity = 0, measured_x = 0, is_flinching = False,
        is_knee_jerking = False, ts = clock 1\<rparr> \<and>
     (\<forall>i<length (root_ticks evs).
        1 / 10 \<le> \<bar>4 - measured_x (fst (root_ticks evs ! i))\<bar> \<longrightarrow>
        snd (snd (snd (root_ticks evs ! i))) =
          \<lparr>out_value = Running, actuate = \<lparr>velocity = 1\<rparr>\<rparr>) \<and>
     (\<forall>i<n. \<exists>s inits.
        root_ticks evs ! i =
          (s, inits, [(1, \<lparr>out_value = Running, actuate = \<lparr>velocity = 1\<rparr>\<rparr>)],
           \<lparr>out_value = Running, actuate = \<lparr>velocity = 1\<rparr>\<rparr>) \<and>
        1 / 10 \<le> \<bar>4 - measured_x s\<bar> \<and> \<not> \<bar>dsub 4 (measured_x s)\<bar> < GOAL_THRESHOLD) \<and>
     (\<exists>s inits.
        root_ticks evs ! n =
          (s, inits, [(1, \<lparr>out_value = Success, actuate = \<lparr>velocity = 1\<rparr>\<rparr>)],
           \<lparr>out_value = Running, actuate = \<lparr>velocity = 1\<rparr>\<rparr>) \<and>
        \<bar>4 - measured_x s\<bar> < 1 / 10 \<and> \<bar>dsub 4 (measured_x s)\<bar> < GOAL_THRESHOLD) \<and>
     fst (snd (root_ticks evs ! Suc n)) = [0] \<and>
     (\<forall>j. n < j \<and> j < length (root_ticks evs) \<longrightarrow>
        (\<exists>s inits stop.
           root_ticks evs ! j = (s, inits, [(0, stop)], stop) \<and>
           stop = \<lparr>out_value = (if \<bar>measured_velocity s\<bar> \<le> 1 / 2 ^ 52
                                  then Success else Running),
                   actuate = \<lparr>velocity = 0\<rparr>\<rparr>)) \<and>
     (\<exists>s inits. last (root_ticks evs) = (s, inits, [(0, out)], out)) \<and>
     out_value out = Success \<and>
     n = 39 \<and> length (root_ticks evs) = 42 \<and>
     measured_x sense = 2251799813685249 / 562949953421312"
proof -
  define f where "f = (\<lambda>i. (\<lparr>measured_velocity = (if i = 0 then 0 else 1),
                         measured_x = walk_x i, is_flinching = False,
                         is_knee_jerking = False, ts = clock (Suc i)\<rparr>,
                        (if i = 0 then [1 :: nat] else []),
                        [(1 :: nat, \<lparr>out_value = Running, actuate = \<lparr>velocity = 1\<rparr>\<rparr>)],
                        \<lparr>out_value = Running, actuate = \<lparr>velocity = 1\<rparr>\<rparr>))"
  define t39 where "t39 = (\<lparr>measured_velocity = 1, measured_x = 1097752409171559 / 281474976710656, is_flinching = False,
                is_knee_jerking = False, ts = clock 40\<rparr>,
               [] :: nat list, [(1 :: nat, \<lparr>out_value = Success, actuate = \<lparr>velocity = 1\<rparr>\<rparr>)],
               \<lparr>out_value = Running, actuate = \<lparr>velocity = 1\<rparr>\<rparr>)"
  define t40 where "t40 = (\<lparr>measured_velocity = 1, measured_x = 2251799813685249 / 562949953421312, is_flinching = False,
                is_knee_jerking = False, ts = clock 41\<rparr>,
               [0 :: nat], [(0 :: nat, \<lparr>out_value = Running, actuate = \<lparr>velocity = 0\<rparr>\<rparr>)],
               \<lparr>out_value = Running, actuate = \<lparr>velocity = 0\<rparr>\<rparr>)"
  define t41 where "t41 = (\<lparr>measured_velocity = 0, measured_x = 2251799813685249 / 562949953421312, is_flinching = False,
                is_knee_jerking = False, ts = clock 42\<rparr>,
               [] :: nat list, [(0 :: nat, \<lparr>out_value = Success, actuate = \<lparr>velocity = 0\<rparr>\<rparr>)],
               \<lparr>out_value = Success, actuate = \<lparr>velocity = 0\<rparr>\<rparr>)"
  define sense where "sense = \<lparr>measured_velocity = 0, measured_x = 2251799813685249 / 562949953421312, is_flinching = False,
                    is_knee_jerking = False, ts = clock 42\<rparr>"
  from main_run_trace [OF walk fuel, of it] obtain st evs where
    run: "main_run fuel clock it =
             Some (\<lparr>out_value = Success, actuate = \<lparr>velocity = 0\<rparr>\<rparr>, sense, st, evs)"
    and V: "root_ticks evs = map f [0..<39] @ [t39, t40, t41]"
    unfolding f_def t39_def t40_def t41_def sense_def by blast
  have len: "length (root_ticks evs) = 42"
    by (simp add: V)
  have walkn: "root_ticks evs ! i = f i" if "i < 39" for i
    using that by (simp add: V nth_append)
  have n39: "root_ticks evs ! 39 = t39" and n40: "root_ticks evs ! 40 = t40"
    and n41: "root_ticks evs ! 41 = t41" and lastV: "last (root_ticks evs) = t41"
    by (simp_all add: V nth_append)
  have z: "fst (root_ticks evs ! 0) =
       \<lparr>measured_velocity = 0, measured_x = 0, is_flinching = False,
        is_knee_jerking = False, ts = clock 1\<rparr>"
    using walkn [of 0] by (simp add: f_def)
  have lit: "snd (snd (snd (root_ticks evs ! i))) =
          \<lparr>out_value = Running, actuate = \<lparr>velocity = 1\<rparr>\<rparr>"
    if "i < length (root_ticks evs)" "1 / 10 \<le> \<bar>4 - measured_x (fst (root_ticks evs ! i))\<bar>"
    for i
  proof -
    from that(1) len consider "i < 39" | "i = 39" | "i = 40" | "i = 41" by linarith
    then show ?thesis
    proof cases
      case 1
      then show ?thesis using walkn [of i] by (simp add: f_def)
    next
      case 2
      with that(2) n39 show ?thesis by (simp add: t39_def)
    next
      case 3
      with that(2) n40 show ?thesis by (simp add: t40_def)
    next
      case 4
      with that(2) n41 show ?thesis by (simp add: t41_def)
    qed
  qed
  have a: "\<exists>s inits.
        root_ticks evs ! i =
          (s, inits, [(1, \<lparr>out_value = Running, actuate = \<lparr>velocity = 1\<rparr>\<rparr>)],
           \<lparr>out_value = Running, actuate = \<lparr>velocity = 1\<rparr>\<rparr>) \<and>
        1 / 10 \<le> \<bar>4 - measured_x s\<bar> \<and> \<not> \<bar>dsub 4 (measured_x s)\<bar> < GOAL_THRESHOLD"
    if "i < 39" for i
  proof -
    from that have "i \<le> 38" by simp
    then have far: "1 / 10 \<le> \<bar>4 - walk_x i\<bar>" by (rule walk_x_far(1))
    from fl_far(1) [OF this] have "\<not> \<bar>dsub 4 (walk_x i)\<bar> < GOAL_THRESHOLD"
      unfolding dsub_def GOAL_THRESHOLD_def .
    with far show ?thesis using walkn [OF that] by (simp add: f_def)
  qed
  have b: "\<exists>s inits.
        root_ticks evs ! 39 =
          (s, inits, [(1, \<lparr>out_value = Success, actuate = \<lparr>velocity = 1\<rparr>\<rparr>)],
           \<lparr>out_value = Running, actuate = \<lparr>velocity = 1\<rparr>\<rparr>) \<and>
        \<bar>4 - measured_x s\<bar> < 1 / 10 \<and> \<bar>dsub 4 (measured_x s)\<bar> < GOAL_THRESHOLD"
    using n39 by (simp add: t39_def dsub_def GOAL_THRESHOLD_def fl_tenth fl_eval rne_def)
  have c: "fst (snd (root_ticks evs ! Suc 39)) = [0]"
    using n40 by (simp add: t40_def)
  have d: "\<exists>s inits stop.
           root_ticks evs ! j = (s, inits, [(0, stop)], stop) \<and>
           stop = \<lparr>out_value = (if \<bar>measured_velocity s\<bar> \<le> 1 / 2 ^ 52
                                  then Success else Running),
                   actuate = \<lparr>velocity = 0\<rparr>\<rparr>"
    if "39 < j \<and> j < length (root_ticks evs)" for j
  proof -
    from that len consider "j = 40" | "j = 41" by linarith
    then show ?thesis
      using n40 n41 by cases (simp_all add: t40_def t41_def)
  qed
  have e: "\<exists>s inits. last (root_ticks evs) =
             (s, inits, [(0, \<lparr>out_value = Success, actuate = \<lparr>velocity = 0\<rparr>\<rparr>)],
              \<lparr>out_value = Success, actuate = \<lparr>velocity = 0\<rparr>\<rparr>)"
    using lastV by (simp add: t41_def)
  have l: "Suc 39 < length (root_ticks evs)" using len by simp
  have o: "out_value \<lparr>out_value = Success, actuate = \<lparr>velocity = 0\<rparr>\<rparr> = Success"
    by simp
  have x: "measured_x sense = 2251799813685249 / 562949953421312"
    by (simp add: sense_def)
  have lit': "\<forall>i<length (root_ticks evs).
        1 / 10 \<le> \<bar>4 - measured_x (fst (root_ticks evs ! i))\<bar> \<longrightarrow>
        snd (snd (snd (root_ticks evs ! i))) =
          \<lparr>out_value = Running, actuate = \<lparr>velocity = 1\<rparr>\<rparr>"
    using lit by (intro allI impI)
  have a': "\<forall>i<39. \<exists>s inits.
        root_ticks evs ! i =
          (s, inits, [(1, \<lparr>out_value = Running, actuate = \<lparr>velocity = 1\<rparr>\<rparr>)],
           \<lparr>out_value = Running, actuate = \<lparr>velocity = 1\<rparr>\<rparr>) \<and>
        1 / 10 \<le> \<bar>4 - measured_x s\<bar> \<and> \<not> \<bar>dsub 4 (measured_x s)\<bar> < GOAL_THRESHOLD"
    using a by (intro allI impI)
  have d': "\<forall>j. 39 < j \<and> j < length (root_ticks evs) \<longrightarrow>
        (\<exists>s inits stop.
           root_ticks evs ! j = (s, inits, [(0, stop)], stop) \<and>
           stop = \<lparr>out_value = (if \<bar>measured_velocity s\<bar> \<le> 1 / 2 ^ 52
                                  then Success else Running),
                   actuate = \<lparr>velocity = 0\<rparr>\<rparr>)"
    using d by (intro allI impI)
  show ?thesis
    apply (rule exI [of _ "\<lparr>out_value = Success, actuate = \<lparr>velocity = 0\<rparr>\<rparr>"])
    apply (rule exI [of _ sense])
    apply (rule exI [of _ st])
    apply (rule exI [of _ evs])
    apply (rule exI [of _ 39])
    apply (rule conjI, rule run)
    apply (rule conjI, rule l)
    apply (rule conjI, rule z)
    apply (rule conjI, rule lit')
    apply (rule conjI, rule a')
    apply (rule conjI, rule b)
    apply (rule conjI, rule c)
    apply (rule conjI, rule d')
    apply (rule conjI, rule e)
    apply (rule conjI, rule o)
    apply (rule conjI, rule refl)
    apply (rule conjI, rule len)
    apply (rule x)
    done
qed

theorem main_walks_then_stops_witness:
  "\<exists>out sense st evs.
     main_run 42 (\<lambda>k. 100000000 * int k) 7 = Some (out, sense, st, evs) \<and>
     length (root_ticks evs) = 42 \<and>
     fst (root_ticks evs ! 0) =
       \<lparr>measured_velocity = 0, measured_x = 0, is_flinching = False,
        is_knee_jerking = False, ts = 100000000\<rparr> \<and>
     fst (snd (root_ticks evs ! 40)) = [0] \<and>
     (\<exists>s inits. last (root_ticks evs) = (s, inits, [(0, out)], out)) \<and>
     out_value out = Success \<and>
     measured_x sense = 2251799813685249 / 562949953421312"
proof -
  have a: "\<forall>k. 2 \<le> k \<and> k \<le> 39 \<longrightarrow>
             (\<lambda>k. 100000000 * int k) k - (\<lambda>k. 100000000 * int k) 1 \<le> 60000 * 1000000"
    by simp
  have b: "(42 :: nat) \<le> 42" by simp
  from main_walks_then_stops [OF a b, of 7] obtain out sense st evs n where
    "main_run 42 (\<lambda>k. 100000000 * int k) 7 = Some (out, sense, st, evs)"
    "length (root_ticks evs) = 42"
    "fst (root_ticks evs ! 0) =
       \<lparr>measured_velocity = 0, measured_x = 0, is_flinching = False,
        is_knee_jerking = False, ts = (\<lambda>k. 100000000 * int k) 1\<rparr>"
    "fst (snd (root_ticks evs ! Suc n)) = [0]" "n = 39"
    "\<exists>s inits. last (root_ticks evs) = (s, inits, [(0, out)], out)"
    "out_value out = Success"
    "measured_x sense = 2251799813685249 / 562949953421312"
    by (elim exE conjE) blast
  then show ?thesis by auto
qed

end
